(* ===== verification/Bpf_Prelude.thy ===== *)
theory Bpf_Prelude
  imports Main "HOL-Library.Word"
begin

text \<open>
  Shared ground of the development: names for the C integer types, the collections of
  simplification rules the component theories fill, and little-endian byte codecs (the
  kernel side writes C objects, user space decodes them with \<open>binary.LittleEndian\<close>).
\<close>

section \<open>Integer types of the C sources\<close>

type_synonym u8 = "8 word"
type_synonym u16 = "16 word"
type_synonym u32 = "32 word"
type_synonym u64 = "64 word"
type_synonym byte = "8 word"

text \<open>
  \<open>s32\<close> and \<open>s64\<close> values are kept as words too; where the sources compare them as signed
  numbers the definitions use \<^const>\<open>sint\<close>.
\<close>

type_synonym s32 = "32 word"
type_synonym s64 = "64 word"

named_theorems layout_simps \<open>sizes and alignments of the C types\<close>
named_theorems wf_simps \<open>well-formedness of the C types\<close>
named_theorems prog_defs \<open>definitions of the program entry points\<close>

section \<open>Words\<close>

lemma unat_Suc_word:
  fixes x :: "'a::len word"
  assumes "x < y"
  shows "unat (x + 1) = Suc (unat x)"
proof -
  have "unat x < unat y" using assms by (simp add: word_less_nat_alt)
  then have "unat x + 1 < 2 ^ LENGTH('a)"
    using unsigned_less [of y, where 'a = nat] by linarith
  then show ?thesis by (simp add: unat_word_ariths)
qed

lemma unat_add_noov:
  fixes x y :: "'a::len word"
  assumes "unat x + unat y < 2 ^ LENGTH('a)"
  shows "unat (x + y) = unat x + unat y"
  using assms by (simp add: unat_word_ariths)

lemma unat_diff_le:
  fixes x y :: "'a::len word"
  assumes "y \<le> x"
  shows "unat (x - y) = unat x - unat y"
  using assms by (simp add: unat_sub)

section \<open>Little-endian bytes\<close>

text \<open>\<open>le_bytes n x\<close> is the \<open>n\<close>-byte little-endian representation of \<open>x mod 256 ^ n\<close>.\<close>

primrec le_bytes :: "nat \<Rightarrow> nat \<Rightarrow> byte list" where
  "le_bytes 0 x = []"
| "le_bytes (Suc n) x = of_nat (x mod 256) # le_bytes n (x div 256)"

primrec le_val :: "byte list \<Rightarrow> nat" where
  "le_val [] = 0"
| "le_val (b # bs) = unat b + 256 * le_val bs"

lemma length_le_bytes [simp]: "length (le_bytes n x) = n"
  by (induction n arbitrary: x) auto

lemma le_val_le_bytes [simp]: "le_val (le_bytes n x) = x mod 256 ^ n"
proof (induction n arbitrary: x)
  case 0
  then show ?case by simp
next
  case (Suc n)
  have "unat (of_nat (x mod 256) :: byte) = x mod 256"
    by (simp add: unat_of_nat)
  then show ?case
    using Suc.IH [of "x div 256"] by (simp add: mod_mult2_eq)
qed

lemma le_val_bound: "le_val bs < 256 ^ length bs"
proof (induction bs)
  case Nil
  then show ?case by simp
next
  case (Cons b bs)
  have "unat b < 256" using unsigned_less [of b, where 'a = nat] by simp
  with Cons.IH show ?case by simp
qed

lemma le_bytes_le_val [simp]: "le_bytes (length bs) (le_val bs) = bs"
proof (induction bs)
  case Nil
  then show ?case by simp
next
  case (Cons b bs)
  have "unat b < 256" using unsigned_less [of b, where 'a = nat] by simp
  then show ?case using Cons.IH by simp
qed

text \<open>A C integer of \<open>n\<close> bytes in memory, and back.\<close>

definition enc :: "nat \<Rightarrow> 'a::len word \<Rightarrow> byte list" where
  "enc n w = le_bytes n (unat w)"

definition dec :: "byte list \<Rightarrow> 'a::len word" where
  "dec bs = of_nat (le_val bs)"

lemma length_enc [simp]: "length (enc n w) = n"
  by (simp add: enc_def)

lemma dec_enc [simp]:
  fixes w :: "'a::len word"
  assumes "LENGTH('a) = 8 * n"
  shows "dec (enc n w) = w"
proof -
  have "(256::nat) ^ n = 2 ^ LENGTH('a)"
    by (simp add: assms power_mult)
  then have "unat w mod 256 ^ n = unat w"
    using unsigned_less [of w] by simp
  then show ?thesis by (simp add: dec_def enc_def)
qed

lemma enc_dec:
  assumes "LENGTH('a::len) = 8 * length bs"
  shows "enc (length bs) (dec bs :: 'a word) = bs"
proof -
  have "(256::nat) ^ length bs = 2 ^ LENGTH('a)"
    by (simp add: assms power_mult)
  then have "le_val bs < 2 ^ LENGTH('a)"
    using le_val_bound [of bs] by simp
  then show ?thesis by (simp add: enc_def dec_def unat_of_nat)
qed

text \<open>The value of a slice of memory, and of the bits \<open>[d, d + w)\<close> of it.\<close>

lemma le_val_drop: "le_val (drop k bs) = le_val bs div 256 ^ k"
proof (induction k arbitrary: bs)
  case (Suc k)
  show ?case
  proof (cases bs)
    case (Cons b cs)
    have "unat b < 256" using unsigned_less [of b, where 'a = nat] by simp
    then have "le_val bs div 256 = le_val cs" by (simp add: Cons)
    then show ?thesis using Suc.IH [of cs] by (simp add: Cons div_mult2_eq)
  qed simp
qed simp

lemma le_val_take: "le_val (take n bs) = le_val bs mod 256 ^ n"
proof (induction n arbitrary: bs)
  case (Suc n)
  show ?case
  proof (cases bs)
    case (Cons b cs)
    have "unat b < 256" using unsigned_less [of b, where 'a = nat] by simp
    then have "(unat b + 256 * le_val cs) mod (256 * 256 ^ n) = unat b + 256 * (le_val cs mod 256 ^ n)"
      by (simp add: mod_mult2_eq)
    then show ?thesis using Suc.IH [of cs] by (simp add: Cons)
  qed simp
qed simp

lemma le_val_append: "le_val (xs @ ys) = le_val xs + 256 ^ length xs * le_val ys"
  by (induction xs) (simp_all add: algebra_simps)

definition bit_field :: "byte list \<Rightarrow> nat \<Rightarrow> nat \<Rightarrow> nat" where
  "bit_field bs d w = le_val bs div 2 ^ d mod 2 ^ w"

lemma bit_field_slice:
  assumes "d + w \<le> 8 * n"
  shows "bit_field (take n (drop k bs)) d w = bit_field bs (8 * k + d) w"
proof -
  have p: "(256 :: nat) ^ m = 2 ^ (8 * m)" for m by (simp add: power_mult)
  have "bit_field (take n (drop k bs)) d w =
      take_bit w (drop_bit d (take_bit (8 * n) (drop_bit (8 * k) (le_val bs))))"
    by (simp add: bit_field_def le_val_take le_val_drop p take_bit_eq_mod drop_bit_eq_div)
  also have "\<dots> = take_bit w (drop_bit (8 * k + d) (le_val bs))"
    using assms by (simp add: drop_bit_take_bit add.commute)
  finally show ?thesis by (simp add: bit_field_def take_bit_eq_mod drop_bit_eq_div)
qed

section \<open>Rows of counters\<close>

definition bump :: "nat \<Rightarrow> u64 list \<Rightarrow> u64 list" where
  "bump i xs = xs[i := xs ! i + 1]"

text \<open>The counters of a histogram with \<open>n\<close> cells over the cells that were hit.\<close>

definition histogram :: "nat \<Rightarrow> nat list \<Rightarrow> u64 list" where
  "histogram n zs = map (\<lambda>i. of_nat (count_list zs i)) [0..<n]"

lemma histogram_Nil [simp]: "histogram n [] = replicate n 0"
  by (simp add: histogram_def map_replicate_const)

lemma histogram_bump: "z < n \<Longrightarrow> bump z (histogram n zs) = histogram n (zs @ [z])"
  by (rule nth_equalityI) (auto simp: bump_def histogram_def nth_list_update)

end
