(* ===== verification/Bpf_Runtime.thy ===== *)
theory Bpf_Runtime
  imports Bpf_Prelude
begin

unbundle bit_operations_syntax

text \<open>
  What the programs under \<^verbatim>\<open>bpf/\<close> see of the kernel: the constants of
  \<^verbatim>\<open>bpf/include/bpf_common.h\<close>, the helper functions and the maps. Helpers and maps are
  kernel code outside the repository, so they are parameters of the program models: a record
  \<open>bpf_env\<close> with what one invocation's helper calls return, and a record of map operations.
  The documented laws of the map operations are the locales \<open>bpf_map\<close>, \<open>bpf_hash_map\<close>
  and \<open>bpf_array_map\<close>; a bounded association list and a one-slot array satisfy them.
\<close>

section \<open>Constants of bpf\_common.h\<close>

definition COMPAT_TASK_COMM_LEN :: nat where [simp]: "COMPAT_TASK_COMM_LEN = 16"
definition COMPAT_CPU_NUM :: u64 where [simp]: "COMPAT_CPU_NUM = 128"
definition PERF_MAX_STACK_DEPTH :: nat where [simp]: "PERF_MAX_STACK_DEPTH = 127"
definition COMPAT_BPF_F_USER_STACK :: u64 where [simp]: "COMPAT_BPF_F_USER_STACK = 256"
definition COMPAT_BPF_ANY :: u64 where "COMPAT_BPF_ANY = 0"
definition COMPAT_BPF_NOEXIST :: u64 where "COMPAT_BPF_NOEXIST = 1"
definition COMPAT_BPF_EXIST :: u64 where "COMPAT_BPF_EXIST = 2"
definition NR_SOFTIRQS_MAX :: nat where [simp]: "NR_SOFTIRQS_MAX = 16"
definition NSEC_PER_MSEC :: u64 where [simp]: "NSEC_PER_MSEC = 1000000"
definition NSEC_PER_USEC :: u64 where [simp]: "NSEC_PER_USEC = 1000"

lemma bpf_flags_distinct [simp]:
  "COMPAT_BPF_ANY \<noteq> COMPAT_BPF_NOEXIST" "COMPAT_BPF_ANY \<noteq> COMPAT_BPF_EXIST"
  "COMPAT_BPF_NOEXIST \<noteq> COMPAT_BPF_ANY" "COMPAT_BPF_EXIST \<noteq> COMPAT_BPF_ANY"
  "COMPAT_BPF_NOEXIST \<noteq> COMPAT_BPF_EXIST" "COMPAT_BPF_EXIST \<noteq> COMPAT_BPF_NOEXIST"
  by (simp_all add: COMPAT_BPF_ANY_def COMPAT_BPF_NOEXIST_def COMPAT_BPF_EXIST_def)

section \<open>Helper functions\<close>

text \<open>
  One invocation of a program. \<open>ktime_get_ns i\<close> is the result of the \<open>i\<close>-th call of
  \<open>bpf_ktime_get_ns\<close> in it. \<open>probe_read a n\<close> is the content of an \<open>n\<close>-byte destination after
  \<open>bpf_probe_read\<close> from address \<open>a\<close>; \<open>probe_read_str\<close> and \<open>get_stack\<close> return the helper's
  result and the destination. \<open>field_offset\<close> and \<open>field_exists\<close> are the CO-RE relocations the
  loader resolves for a member path of a kernel structure.
\<close>

record bpf_env =
  ktime_get_ns :: "nat \<Rightarrow> u64"
  current_pid_tgid :: u64
  current_task :: u64
  current_comm :: "byte list"
  smp_processor_id :: u32
  get_stack :: "u64 \<Rightarrow> nat \<Rightarrow> s64 \<times> byte list"
  probe_read :: "u64 \<Rightarrow> nat \<Rightarrow> byte list"
  probe_read_str :: "u64 \<Rightarrow> nat \<Rightarrow> s64 \<times> byte list"
  field_offset :: "string \<Rightarrow> string list \<Rightarrow> u64"
  field_exists :: "string \<Rightarrow> string list \<Rightarrow> bool"

text \<open>\<open>BPF_CORE_READ(p, f)\<close> for one member of \<open>n\<close> bytes, and the usual widths.\<close>

definition core_addr :: "bpf_env \<Rightarrow> u64 \<Rightarrow> string \<Rightarrow> string list \<Rightarrow> u64" where
  "core_addr e p s f = p + field_offset e s f"

definition core_read :: "bpf_env \<Rightarrow> u64 \<Rightarrow> string \<Rightarrow> string list \<Rightarrow> nat \<Rightarrow> byte list" where
  "core_read e p s f n = probe_read e (core_addr e p s f) n"

definition read8 :: "bpf_env \<Rightarrow> u64 \<Rightarrow> string \<Rightarrow> string list \<Rightarrow> u8" where
  "read8 e p s f = dec (core_read e p s f 1)"

definition read16 :: "bpf_env \<Rightarrow> u64 \<Rightarrow> string \<Rightarrow> string list \<Rightarrow> u16" where
  "read16 e p s f = dec (core_read e p s f 2)"

definition read32 :: "bpf_env \<Rightarrow> u64 \<Rightarrow> string \<Rightarrow> string list \<Rightarrow> u32" where
  "read32 e p s f = dec (core_read e p s f 4)"

definition read64 :: "bpf_env \<Rightarrow> u64 \<Rightarrow> string \<Rightarrow> string list \<Rightarrow> u64" where
  "read64 e p s f = dec (core_read e p s f 8)"

text \<open>An element of an array of pointers: \<open>p->f[i]\<close>.\<close>

definition read64_at :: "bpf_env \<Rightarrow> u64 \<Rightarrow> string \<Rightarrow> string list \<Rightarrow> nat \<Rightarrow> u64" where
  "read64_at e p s f i = dec (probe_read e (core_addr e p s f + of_nat (8 * i)) 8)"

section \<open>Maps\<close>

text \<open>
  \<open>lookup_elem\<close> is \<open>bpf_map_lookup_elem\<close> (\<open>None\<close> for \<open>NULL\<close>); \<open>store_elem m k v\<close> is a store of
  \<open>v\<close> through the pointer that a successful lookup of \<open>k\<close> returned. Updates and deletions
  return the helper's result, \<open>0\<close> on success.
\<close>

record ('k, 'v, 'm) map_ops =
  lookup_elem :: "'m \<Rightarrow> 'k \<Rightarrow> 'v option"
  update_elem :: "'m \<Rightarrow> 'k \<Rightarrow> 'v \<Rightarrow> u64 \<Rightarrow> 'm \<times> int"
  delete_elem :: "'m \<Rightarrow> 'k \<Rightarrow> 'm \<times> int"
  store_elem :: "'m \<Rightarrow> 'k \<Rightarrow> 'v \<Rightarrow> 'm"

text \<open>The map after an update or deletion whose result the program ignores.\<close>

definition update_elem' where
  "update_elem' M m k v f = fst (update_elem M m k v f)"

definition delete_elem' where
  "delete_elem' M m k = fst (delete_elem M m k)"

text \<open>The idiom of the counting programs. Look an entry up, creating it if it is missing: the map and whether there is one now.\<close>

definition lookup_or_create :: "('k, 'v, 'm) map_ops \<Rightarrow> 'm \<Rightarrow> 'k \<Rightarrow> 'v \<Rightarrow> 'm \<times> bool" where
  "lookup_or_create M m k v =
     (case lookup_elem M m k of
        Some _ \<Rightarrow> (m, True)
      | None \<Rightarrow> let m' = update_elem' M m k v COMPAT_BPF_NOEXIST
                in (m', lookup_elem M m' k \<noteq> None))"

text \<open>An atomic update through the pointer to an entry.\<close>

definition modify_elem :: "('k, 'v, 'm) map_ops \<Rightarrow> 'm \<Rightarrow> 'k \<Rightarrow> ('v \<Rightarrow> 'v) \<Rightarrow> 'm" where
  "modify_elem M m k f =
     (case lookup_elem M m k of None \<Rightarrow> m | Some v \<Rightarrow> store_elem M m k (f v))"

locale bpf_map =
  fixes M :: "('k, 'v, 'm) map_ops"
  assumes update_done: "snd (update_elem M m k v f) = 0 \<Longrightarrow>
      lookup_elem M (update_elem' M m k v f) = (lookup_elem M m)(k \<mapsto> v)"
    and update_failed: "snd (update_elem M m k v f) \<noteq> 0 \<Longrightarrow>
      lookup_elem M (update_elem' M m k v f) = lookup_elem M m"
    and update_noexist: "lookup_elem M m k \<noteq> None \<Longrightarrow>
      snd (update_elem M m k v COMPAT_BPF_NOEXIST) \<noteq> 0"
    and update_exist: "lookup_elem M m k = None \<Longrightarrow>
      snd (update_elem M m k v COMPAT_BPF_EXIST) \<noteq> 0"
    and update_present: "lookup_elem M m k \<noteq> None \<Longrightarrow> f \<noteq> COMPAT_BPF_NOEXIST \<Longrightarrow>
      snd (update_elem M m k v f) = 0"
    and store_present: "lookup_elem M m k \<noteq> None \<Longrightarrow>
      lookup_elem M (store_elem M m k v) = (lookup_elem M m)(k \<mapsto> v)"
begin

lemma lookup_update:
  "lookup_elem M (update_elem' M m k v f) =
     (if snd (update_elem M m k v f) = 0 then (lookup_elem M m)(k \<mapsto> v) else lookup_elem M m)"
  by (simp add: update_done update_failed)

lemma lookup_update_other:
  "k' \<noteq> k \<Longrightarrow> lookup_elem M (update_elem' M m k v f) k' = lookup_elem M m k'"
  by (simp add: lookup_update)

lemma lookup_update_same:
  "lookup_elem M (update_elem' M m k v f) k = Some v \<or>
   lookup_elem M (update_elem' M m k v f) k = lookup_elem M m k"
  by (simp add: lookup_update)

lemma lookup_update_cases:
  "lookup_elem M (update_elem' M m k v f) \<in>
     {lookup_elem M m, (lookup_elem M m)(k \<mapsto> v)}"
  by (simp add: lookup_update)

lemma lookup_modify:
  "lookup_elem M (modify_elem M m k f) =
     (case lookup_elem M m k of None \<Rightarrow> lookup_elem M m | Some v \<Rightarrow> (lookup_elem M m)(k \<mapsto> f v))"
  by (simp add: modify_elem_def store_present split: option.split)

lemma lookup_created:
  "lookup_elem M (fst (lookup_or_create M m k v)) =
     (if snd (lookup_or_create M m k v)
      then (lookup_elem M m)(k \<mapsto> (case lookup_elem M m k of None \<Rightarrow> v | Some w \<Rightarrow> w))
      else lookup_elem M m)"
  by (auto simp: lookup_or_create_def Let_def lookup_update fun_upd_idem split: option.split)

lemma modify_created:
  assumes "snd (lookup_or_create M m k v)"
  shows "lookup_elem M (modify_elem M (fst (lookup_or_create M m k v)) k f) =
     (lookup_elem M m)(k \<mapsto> f (case lookup_elem M m k of None \<Rightarrow> v | Some w \<Rightarrow> w))"
  using assms by (simp add: lookup_modify lookup_created)

end

text \<open>Hash maps delete entries, hold at most \<open>max_entries\<close> of them and accept up to that many.\<close>

locale bpf_hash_map = bpf_map M
  for M :: "('k, 'v, 'm) map_ops" +
  fixes max_entries :: nat
  assumes delete_key: "lookup_elem M (delete_elem' M m k) = (lookup_elem M m)(k := None)"
    and finite_keys: "finite (dom (lookup_elem M m))"
    and room: "card (dom (lookup_elem M m)) < max_entries \<Longrightarrow> f \<noteq> COMPAT_BPF_EXIST \<Longrightarrow>
      lookup_elem M m k = None \<Longrightarrow> snd (update_elem M m k v f) = 0"
    and full: "max_entries \<le> card (dom (lookup_elem M m)) \<Longrightarrow>
      lookup_elem M m k = None \<Longrightarrow> snd (update_elem M m k v f) \<noteq> 0"
begin

text \<open>Creating or overwriting succeeds while the map has room.\<close>

lemma update_any_ok:
  assumes "card (dom (lookup_elem M m)) < max_entries"
  shows "lookup_elem M (update_elem' M m k v COMPAT_BPF_ANY) = (lookup_elem M m)(k \<mapsto> v)"
proof (cases "lookup_elem M m k")
  case None
  with assms show ?thesis by (intro update_done room) simp_all
next
  case (Some w)
  then show ?thesis by (intro update_done update_present) simp_all
qed

lemma created_iff:
  "snd (lookup_or_create M m k v) \<longleftrightarrow>
     k \<in> dom (lookup_elem M m) \<or> card (dom (lookup_elem M m)) < max_entries"
proof (cases "lookup_elem M m k")
  case None
  then show ?thesis
    using room [of m COMPAT_BPF_NOEXIST k v] full [of m k v COMPAT_BPF_NOEXIST]
    by (cases "card (dom (lookup_elem M m)) < max_entries")
      (auto simp: lookup_or_create_def Let_def lookup_update not_less)
qed (auto simp: lookup_or_create_def)

lemma card_update:
  assumes "card (dom (lookup_elem M m)) \<le> max_entries"
  shows "card (dom (lookup_elem M (update_elem' M m k v f))) \<le> max_entries"
proof (cases "snd (update_elem M m k v f) = 0")
  case False
  with assms show ?thesis by (simp add: update_failed)
next
  case True
  show ?thesis
  proof (cases "lookup_elem M m k")
    case None
    with True full [of m k v f] assms have "card (dom (lookup_elem M m)) < max_entries"
      by (metis not_less)
    with True None show ?thesis by (simp add: update_done finite_keys domIff)
  next
    case (Some w)
    then have "insert k (dom (lookup_elem M m)) = dom (lookup_elem M m)" by auto
    with True assms show ?thesis by (simp add: update_done)
  qed
qed

lemma card_delete:
  assumes "card (dom (lookup_elem M m)) \<le> max_entries"
  shows "card (dom (lookup_elem M (delete_elem' M m k))) \<le> max_entries"
proof -
  have "card (dom (lookup_elem M m) - {k}) \<le> card (dom (lookup_elem M m))"
    by (simp add: card_Diff1_le)
  with assms show ?thesis by (simp add: delete_key)
qed

end

text \<open>The elements of an array map exist from the start and cannot be removed.\<close>

locale bpf_array_map = bpf_map M
  for M :: "(u32, 'v, 'm) map_ops" +
  fixes max_entries :: nat
  assumes array_keys: "(lookup_elem M m k \<noteq> None) = (unat k < max_entries)"
begin

lemma array_created: "unat k < max_entries \<Longrightarrow> lookup_or_create M m k v = (m, True)"
  using array_keys [of m k] by (auto simp: lookup_or_create_def)

lemma array_present: "unat k < max_entries \<Longrightarrow> \<exists>v. lookup_elem M m k = Some v"
  using array_keys [of m k] by auto

end

section \<open>Instances of the map contracts\<close>

text \<open>\<open>BPF_MAP_TYPE_HASH\<close> as a bounded association list.\<close>

type_synonym ('k, 'v) alist = "('k \<times> 'v) list"

definition alist_put :: "('k, 'v) alist \<Rightarrow> 'k \<Rightarrow> 'v \<Rightarrow> ('k, 'v) alist" where
  "alist_put m k v = (k, v) # filter (\<lambda>(k', _). k' \<noteq> k) m"

definition alist_keys :: "('k, 'v) alist \<Rightarrow> nat" where
  "alist_keys m = length (remdups (map fst m))"

definition alist_update :: "nat \<Rightarrow> ('k, 'v) alist \<Rightarrow> 'k \<Rightarrow> 'v \<Rightarrow> u64 \<Rightarrow> ('k, 'v) alist \<times> int" where
  "alist_update n m k v f =
     (if map_of m k \<noteq> None
      then if f = COMPAT_BPF_NOEXIST then (m, - 17) else (alist_put m k v, 0)
      else if f = COMPAT_BPF_EXIST then (m, - 2)
      else if alist_keys m < n then (alist_put m k v, 0) else (m, - 7))"

definition alist_delete :: "('k, 'v) alist \<Rightarrow> 'k \<Rightarrow> ('k, 'v) alist \<times> int" where
  "alist_delete m k =
     (filter (\<lambda>(k', _). k' \<noteq> k) m, if map_of m k = None then - 2 else 0)"

definition hash_ops :: "nat \<Rightarrow> ('k, 'v, ('k, 'v) alist) map_ops" where
  "hash_ops n = \<lparr>lookup_elem = map_of, update_elem = alist_update n,
     delete_elem = alist_delete, store_elem = alist_put\<rparr>"

lemma hash_ops_sel [simp]:
  "lookup_elem (hash_ops n) m k = map_of m k" "update_elem (hash_ops n) = alist_update n"
  "delete_elem (hash_ops n) = alist_delete" "store_elem (hash_ops n) = alist_put"
  by (simp_all add: hash_ops_def)

lemma lookup_hash_ops: "lookup_elem (hash_ops n) m = map_of m"
  by (simp add: hash_ops_def)

lemma map_of_filter_key: "map_of (filter (\<lambda>(k', _). k' \<noteq> k) m) = (map_of m)(k := None)"
  by (induction m) auto

lemma map_of_alist_put: "map_of (alist_put m k v) = (map_of m)(k \<mapsto> v)"
  by (simp add: alist_put_def map_of_filter_key)

lemma alist_keys_card: "alist_keys m = card (dom (map_of m))"
  by (simp add: alist_keys_def length_remdups_card_conv dom_map_of_conv_image_fst)

lemmas alist_simps = lookup_hash_ops alist_update_def alist_delete_def update_elem'_def
  delete_elem'_def map_of_alist_put map_of_filter_key alist_keys_card

interpretation hash: bpf_hash_map "hash_ops n" n
  by unfold_locales (auto simp: alist_simps finite_dom_map_of split: if_splits)

lemmas hash_ops_map [simp] = hash.bpf_hash_map_axioms
  and hash_ops_bpf_map [simp] = hash.bpf_map_axioms

text \<open>\<open>BPF_MAP_TYPE_ARRAY\<close> (and one CPU's part of a \<open>PERCPU_ARRAY\<close>): a value for every index.\<close>

definition array_lookup :: "nat \<Rightarrow> (u32 \<Rightarrow> 'v) \<Rightarrow> u32 \<Rightarrow> 'v option" where
  "array_lookup n m k = (if unat k < n then Some (m k) else None)"

definition array_update :: "nat \<Rightarrow> (u32 \<Rightarrow> 'v) \<Rightarrow> u32 \<Rightarrow> 'v \<Rightarrow> u64 \<Rightarrow> (u32 \<Rightarrow> 'v) \<times> int" where
  "array_update n m k v f =
     (if n \<le> unat k then (m, - 7)
      else if f = COMPAT_BPF_NOEXIST then (m, - 17)
      else (m(k := v), 0))"

definition array_ops :: "nat \<Rightarrow> (u32, 'v, u32 \<Rightarrow> 'v) map_ops" where
  "array_ops n = \<lparr>lookup_elem = array_lookup n, update_elem = array_update n,
     delete_elem = (\<lambda>m k. (m, - 22)), store_elem = (\<lambda>m k v. m(k := v))\<rparr>"

lemma array_ops_sel [simp]:
  "lookup_elem (array_ops n) = array_lookup n" "update_elem (array_ops n) = array_update n"
  "store_elem (array_ops n) = (\<lambda>m k v. m(k := v))"
  by (simp_all add: array_ops_def)

lemmas array_simps = array_lookup_def array_update_def update_elem'_def

interpretation array: bpf_array_map "array_ops n" n
  by unfold_locales (auto simp: array_simps fun_eq_iff split: if_splits)

lemmas array_ops_map [simp] = array.bpf_array_map_axioms
  and array_ops_bpf_map [simp] = array.bpf_map_axioms

end
