(* ===== verification/Bpf_Ratelimit.thy ===== *)
theory Bpf_Ratelimit
  imports Bpf_Runtime
begin

text \<open>
  \<^verbatim>\<open>bpf/include/bpf_ratelimit.h\<close>: the fixed-window event limiter, as a static object
  (\<open>bpf_ratelimited\<close>) and as the only element of an array map with a notification channel
  (\<open>bpf_ratelimited_core_in_map\<close>). The limiter is shown to refine a window counter over
  natural numbers, from which the rate bound follows.
\<close>

section \<open>The limiter\<close>

record bpf_ratelimit =
  rl_interval :: u64
  rl_begin :: u64
  rl_burst :: u64
  rl_max_burst :: u64
  rl_events :: u64
  rl_nmissed :: u64
  rl_total_events :: u64
  rl_total_nmissed :: u64
  rl_total_interval :: u64

definition BPF_RATELIMIT :: "u64 \<Rightarrow> u64 \<Rightarrow> bpf_ratelimit" where
  "BPF_RATELIMIT interval burst =
     \<lparr>rl_interval = interval, rl_begin = 0, rl_burst = burst, rl_max_burst = 0, rl_events = 0,
      rl_nmissed = 0, rl_total_events = 0, rl_total_nmissed = 0, rl_total_interval = 0\<rparr>"

text \<open>
  \<open>bpf_ratelimited ns rate\<close>: \<open>ns\<close> is the clock reading, \<open>None\<close> the null pointer; the result
  is the object afterwards and whether the threshold is exceeded.
\<close>

definition ratelimit_window :: "u64 \<Rightarrow> bpf_ratelimit \<Rightarrow> bpf_ratelimit" where
  "ratelimit_window cur r =
     (let r1 = (if rl_begin r = 0 then r\<lparr>rl_begin := cur\<rparr> else r)
      in if cur > rl_begin r1 + rl_interval r1
         then r1\<lparr>rl_total_interval := rl_total_interval r1 + (cur - rl_begin r1),
                 rl_begin := cur, rl_events := 0, rl_nmissed := 0\<rparr>
         else r1)"

definition ratelimit_take :: "bpf_ratelimit \<Rightarrow> bpf_ratelimit \<times> bool" where
  "ratelimit_take r =
     (if rl_burst r \<noteq> 0 \<and> rl_burst r > rl_events r
      then (r\<lparr>rl_events := rl_events r + 1, rl_total_events := rl_total_events r + 1\<rparr>, False)
      else (r\<lparr>rl_nmissed := rl_nmissed r + 1, rl_total_nmissed := rl_total_nmissed r + 1\<rparr>,
            True))"

definition bpf_ratelimited :: "u64 \<Rightarrow> bpf_ratelimit option \<Rightarrow> bpf_ratelimit option \<times> bool" where
  "bpf_ratelimited ns rate =
     (case rate of
        None \<Rightarrow> (None, False)
      | Some r \<Rightarrow>
          if rl_interval r = 0 then (Some r, False)
          else let cur = ns div 1000000000;
                   (r', limited) = ratelimit_take (ratelimit_window cur r)
               in (Some r', limited))"

text \<open>The call on an existing object, as the programs make it.\<close>

definition ratelimited :: "u64 \<Rightarrow> bpf_ratelimit \<Rightarrow> bpf_ratelimit \<times> bool" where
  "ratelimited ns r = (case bpf_ratelimited ns (Some r) of (r', b) \<Rightarrow> (the r', b))"

lemma ratelimited_simp:
  "ratelimited ns r =
     (if rl_interval r = 0 then (r, False)
      else ratelimit_take (ratelimit_window (ns div 1000000000) r))"
  by (simp add: ratelimited_def bpf_ratelimited_def split: prod.splits)

text \<open>A sequence of calls, with the answers.\<close>

fun ratelimit_run :: "bpf_ratelimit \<Rightarrow> u64 list \<Rightarrow> bpf_ratelimit \<times> bool list" where
  "ratelimit_run r [] = (r, [])"
| "ratelimit_run r (ns # nss) =
     (case ratelimited ns r of
        (r1, b) \<Rightarrow> (case ratelimit_run r1 nss of (r2, bs) \<Rightarrow> (r2, b # bs)))"

lemma ratelimit_run_Cons:
  "fst (ratelimit_run r (ns # nss)) = fst (ratelimit_run (fst (ratelimited ns r)) nss)"
  "snd (ratelimit_run r (ns # nss)) =
     snd (ratelimited ns r) # snd (ratelimit_run (fst (ratelimited ns r)) nss)"
  by (simp_all split: prod.splits)

declare ratelimit_run.simps(2) [simp del] and ratelimit_run_Cons [simp]

lemma length_ratelimit_run [simp]: "length (snd (ratelimit_run r nss)) = length nss"
  by (induction nss arbitrary: r) simp_all

definition admitted :: "bool list \<Rightarrow> nat" where
  "admitted bs = length (filter Not bs)"

lemma admitted_simps [simp]:
  "admitted [] = 0" "admitted (True # bs) = admitted bs"
  "admitted (False # bs) = Suc (admitted bs)"
  by (simp_all add: admitted_def)

text \<open>
  The requests of \<open>hs\<close>, made at the times \<open>clk\<close>, to which the limiter answers that the
  threshold is not exceeded.
\<close>

definition let_through :: "('h \<Rightarrow> u64) \<Rightarrow> bpf_ratelimit \<Rightarrow> 'h list \<Rightarrow> 'h list" where
  "let_through clk r hs = map fst (filter (\<lambda>(_, b). \<not> b) (zip hs (snd (ratelimit_run r (map clk hs)))))"

lemma let_through_simps [simp]:
  "let_through clk r [] = []"
  "let_through clk r (h # hs) =
     (if snd (ratelimited (clk h) r) then [] else [h]) @ let_through clk (fst (ratelimited (clk h) r)) hs"
  by (simp_all add: let_through_def)

lemma set_let_through: "set (let_through clk r hs) \<subseteq> set hs"
  by (induction hs arbitrary: r) (auto split: if_splits)

lemma let_through_map: "map f (let_through (clk \<circ> f) r xs) = let_through clk r (map f xs)"
  by (induction xs arbitrary: r) simp_all

lemma length_let_through:
  "length (let_through clk r hs) = admitted (snd (ratelimit_run r (map clk hs)))"
  by (induction hs arbitrary: r) simp_all

section \<open>Abstract window counter\<close>

text \<open>
  The contract: windows of \<open>iv + 1\<close> seconds, at most \<open>bu\<close> events in each. The state is the
  first second of the window and the events admitted in it.
\<close>

definition window_step :: "nat \<Rightarrow> nat \<Rightarrow> nat \<times> nat \<Rightarrow> nat \<Rightarrow> (nat \<times> nat) \<times> bool" where
  "window_step iv bu = (\<lambda>(b, c) t.
     let (b', c') = (if t > b + iv then (t, 0) else (b, c))
     in if c' < bu then ((b', Suc c'), False) else ((b', c'), True))"

fun window_run :: "nat \<Rightarrow> nat \<Rightarrow> nat \<times> nat \<Rightarrow> nat list \<Rightarrow> (nat \<times> nat) \<times> bool list" where
  "window_run iv bu w [] = (w, [])"
| "window_run iv bu w (t # ts) =
     (case window_step iv bu w t of
        (w1, b) \<Rightarrow> (case window_run iv bu w1 ts of (w2, bs) \<Rightarrow> (w2, b # bs)))"

lemma window_run_bound:
  "sorted (b # ts) \<Longrightarrow> c \<le> bu \<Longrightarrow> ts \<noteq> [] \<Longrightarrow>
   admitted (snd (window_run iv bu (b, c) ts)) \<le>
     (bu - c) + bu * ((last ts - b) div (iv + 1))"
proof (induction ts arbitrary: b c)
  case Nil
  then show ?case by simp
next
  case (Cons t ts)
  have bt: "b \<le> t" and st: "sorted (t # ts)" using Cons.prems(1) by auto
  define T where "T = last (t # ts)"
  have tT: "t \<le> T" using st by (simp add: T_def)
  define b' where "b' = (if t > b + iv then t else b)"
  define c' where "c' = (if t > b + iv then 0 else c)"
  have c': "c' \<le> bu" using Cons.prems(2) by (simp add: c'_def)
  have sb: "sorted (b' # ts)" using Cons.prems(1) by (auto simp: b'_def)
  have rest: "admitted (snd (window_run iv bu (b', c'') ts)) \<le>
      (bu - c'') + bu * ((T - b') div (iv + 1))" if "c'' \<le> bu" for c''
  proof (cases "ts = []")
    case False
    with Cons.IH [OF sb that] show ?thesis by (simp add: T_def)
  qed simp
  have "(if t > b + iv then bu + bu * ((T - t) div (iv + 1)) else (bu - c) + bu * ((T - b) div (iv + 1)))
      \<le> (bu - c) + bu * ((T - b) div (iv + 1))"
  proof (cases "t > b + iv")
    case True
    then have "T - t + (iv + 1) \<le> T - b" using tT by linarith
    then have "(T - t + (iv + 1)) div (iv + 1) \<le> (T - b) div (iv + 1)"
      by (rule div_le_mono)
    moreover have "(T - t + (iv + 1)) div (iv + 1) = Suc ((T - t) div (iv + 1))"
      by (subst div_add_self2) simp_all
    ultimately have "Suc ((T - t) div (iv + 1)) \<le> (T - b) div (iv + 1)" by simp
    then have "bu * Suc ((T - t) div (iv + 1)) \<le> bu * ((T - b) div (iv + 1))"
      by (rule mult_le_mono2)
    with True show ?thesis by simp
  qed simp
  then have ub: "(bu - c') + bu * ((T - b') div (iv + 1))
      \<le> (bu - c) + bu * ((T - b) div (iv + 1))"
    by (simp add: b'_def c'_def split: if_splits)
  have eq: "admitted (snd (window_run iv bu (b, c) (t # ts))) =
      (if c' < bu then Suc (admitted (snd (window_run iv bu (b', Suc c') ts)))
       else admitted (snd (window_run iv bu (b', c') ts)))"
    by (simp add: window_step_def b'_def c'_def split: prod.splits)
  have "admitted (snd (window_run iv bu (b, c) (t # ts)))
      \<le> (bu - c') + bu * ((T - b') div (iv + 1))"
  proof (cases "c' < bu")
    case True
    with rest [OF Suc_leI [OF True]] show ?thesis unfolding eq by simp
  next
    case False
    with rest [OF c'] show ?thesis unfolding eq by simp
  qed
  with ub show ?case unfolding T_def [symmetric] by linarith
qed

section \<open>Refinement\<close>

text \<open>
  The object is in use (its window has started) and its numbers are far from wrapping: a
  clock reading in seconds is below \<open>2 ^ 35\<close>.
\<close>

definition rl_running :: "bpf_ratelimit \<Rightarrow> bool" where
  "rl_running r \<longleftrightarrow> rl_interval r \<noteq> 0 \<and> rl_begin r \<noteq> 0 \<and> unat (rl_interval r) < 2 ^ 63 \<and>
     unat (rl_begin r) < 2 ^ 35 \<and> rl_events r \<le> rl_burst r"

definition rl_abs :: "bpf_ratelimit \<Rightarrow> nat \<times> nat" where
  "rl_abs r = (unat (rl_begin r), unat (rl_events r))"

definition secs :: "u64 \<Rightarrow> nat" where
  "secs ns = unat ns div 1000000000"

lemma unat_secs: "unat (ns div 1000000000 :: u64) = secs ns"
  by (simp add: secs_def unat_div_distrib)

lemma secs_small: "secs ns < 2 ^ 35"
proof -
  have "unat ns < 2 ^ 64" using unsigned_less [of ns, where 'a = nat] by simp
  then have "unat ns div 1000000000 < 2 ^ 35" by (intro less_mult_imp_div_less) simp
  then show ?thesis by (simp add: secs_def)
qed

lemma window_expired:
  assumes "rl_running r"
  shows "(ns div 1000000000 > rl_begin r + rl_interval r) =
           (secs ns > unat (rl_begin r) + unat (rl_interval r))"
proof -
  have "unat (rl_begin r + rl_interval r) = unat (rl_begin r) + unat (rl_interval r)"
    using assms by (intro unat_add_noov) (simp add: rl_running_def)
  then show ?thesis by (simp add: word_less_nat_alt unat_secs)
qed

lemma take_refines:
  assumes "rl_events r \<le> rl_burst r"
  shows "ratelimit_take r =
     (if unat (rl_events r) < unat (rl_burst r)
      then (r\<lparr>rl_events := rl_events r + 1, rl_total_events := rl_total_events r + 1\<rparr>, False)
      else (r\<lparr>rl_nmissed := rl_nmissed r + 1, rl_total_nmissed := rl_total_nmissed r + 1\<rparr>, True))"
  using assms by (auto simp: ratelimit_take_def word_less_nat_alt)

lemma ratelimited_refines:
  assumes r: "rl_running r"
  shows "window_step (unat (rl_interval r)) (unat (rl_burst r)) (rl_abs r) (secs ns) =
           (rl_abs (fst (ratelimited ns r)), snd (ratelimited ns r))"
    and "rl_running (fst (ratelimited ns r))"
    and "rl_interval (fst (ratelimited ns r)) = rl_interval r"
    and "rl_burst (fst (ratelimited ns r)) = rl_burst r"
proof -
  define w where "w = ratelimit_window (ns div 1000000000) r"
  have i: "rl_interval r \<noteq> 0" and b: "rl_begin r \<noteq> 0" and eb: "rl_events r \<le> rl_burst r"
    using r by (simp_all add: rl_running_def)
  have res: "ratelimited ns r = ratelimit_take w"
    using i by (simp add: ratelimited_simp w_def)
  have wi: "rl_interval w = rl_interval r" "rl_burst w = rl_burst r"
    by (simp_all add: w_def ratelimit_window_def Let_def)
  have we: "rl_events w \<le> rl_burst w"
    using eb by (simp add: w_def ratelimit_window_def Let_def)
  have wb: "rl_abs w = (if secs ns > unat (rl_begin r) + unat (rl_interval r)
      then (secs ns, 0) else rl_abs r)"
    using b window_expired [OF r, of ns]
    by (simp add: w_def ratelimit_window_def Let_def rl_abs_def unat_secs)
  have bw: "unat (rl_begin w) < 2 ^ 35" "rl_begin w \<noteq> 0"
  proof -
    show "unat (rl_begin w) < 2 ^ 35"
      using wb secs_small [of ns] r by (auto simp: rl_abs_def rl_running_def split: if_splits)
    show "rl_begin w \<noteq> 0"
      using wb b by (auto simp: rl_abs_def unat_eq_zero split: if_splits)
  qed
  have inc: "unat (rl_events w + 1) = Suc (unat (rl_events w))"
    if "unat (rl_events w) < unat (rl_burst w)"
    using that by (intro unat_Suc_word [of _ "rl_burst w"]) (simp add: word_less_nat_alt)
  show "window_step (unat (rl_interval r)) (unat (rl_burst r)) (rl_abs r) (secs ns) =
           (rl_abs (fst (ratelimited ns r)), snd (ratelimited ns r))"
    using wb inc unfolding res take_refines [OF we] wi
    by (auto simp: window_step_def rl_abs_def split: if_splits)
  show "rl_interval (fst (ratelimited ns r)) = rl_interval r"
    and "rl_burst (fst (ratelimited ns r)) = rl_burst r"
    unfolding res by (auto simp: ratelimit_take_def wi)
  have "rl_events (fst (ratelimit_take w)) \<le> rl_burst w"
    using we inc by (auto simp: take_refines [OF we] word_le_nat_alt Suc_le_eq)
  then show "rl_running (fst (ratelimited ns r))"
    using r bw wi unfolding res by (auto simp: rl_running_def ratelimit_take_def)
qed

lemma ratelimit_run_refines:
  "rl_running r \<Longrightarrow>
   window_run (unat (rl_interval r)) (unat (rl_burst r)) (rl_abs r) (map secs nss) =
     (rl_abs (fst (ratelimit_run r nss)), snd (ratelimit_run r nss))"
proof (induction nss arbitrary: r)
  case Nil
  then show ?case by simp
next
  case (Cons ns nss)
  obtain r1 b where 1: "ratelimited ns r = (r1, b)" by (cases "ratelimited ns r")
  note step = ratelimited_refines [OF Cons.prems, of ns, unfolded 1 fst_conv snd_conv]
  show ?case
    using Cons.IH [OF step(2)] step by (simp add: 1)
qed

section \<open>Properties of the static limiter\<close>

lemma ratelimited_fresh:
  assumes "interval \<noteq> 0" "1000000000 \<le> ns"
  shows "ratelimited ns (BPF_RATELIMIT interval burst) =
           ratelimited ns (BPF_RATELIMIT interval burst\<lparr>rl_begin := ns div 1000000000\<rparr>)"
  using assms(1) by (simp add: ratelimited_simp ratelimit_window_def BPF_RATELIMIT_def)

lemma fresh_running:
  assumes "interval \<noteq> 0" "unat interval < 2 ^ 63" "1000000000 \<le> ns"
  shows "rl_running (BPF_RATELIMIT interval burst\<lparr>rl_begin := ns div 1000000000\<rparr>)"
proof -
  have "1 \<le> unat ns div 1000000000"
    using assms(3) by (simp add: word_le_nat_alt div_le_mono [of 1000000000 _ 1000000000, simplified])
  then have "ns div 1000000000 \<noteq> 0"
    using unat_secs [of ns] by (auto simp: secs_def simp flip: unat_eq_zero)
  then show ?thesis
    using assms secs_small [of ns] by (simp add: rl_running_def BPF_RATELIMIT_def unat_secs)
qed

lemma ratelimit_run_fresh:
  assumes "interval \<noteq> 0" "1000000000 \<le> ns"
  shows "ratelimit_run (BPF_RATELIMIT interval burst) (ns # nss) =
     ratelimit_run (BPF_RATELIMIT interval burst\<lparr>rl_begin := ns div 1000000000\<rparr>) (ns # nss)"
  by (simp add: ratelimit_run.simps(2) ratelimited_fresh [OF assms])

lemma ratelimit_run_bound:
  assumes "interval \<noteq> 0" "unat interval < 2 ^ 63"
    and "sorted (ns # nss)" "1000000000 \<le> ns"
  shows "admitted (snd (ratelimit_run (BPF_RATELIMIT interval burst) (ns # nss)))
           \<le> unat burst * (1 + (secs (last (ns # nss)) - secs ns) div (unat interval + 1))"
proof -
  let ?r = "BPF_RATELIMIT interval burst\<lparr>rl_begin := ns div 1000000000\<rparr>"
  let ?ts = "map secs (ns # nss)"
  have run: "rl_running ?r" using assms(1,2,4) by (rule fresh_running)
  have par: "rl_interval ?r = interval" "rl_burst ?r = burst" "rl_abs ?r = (secs ns, 0)"
    by (simp_all add: BPF_RATELIMIT_def rl_abs_def unat_secs)
  have mono: "mono secs" by (auto intro!: monoI div_le_mono simp: secs_def word_le_nat_alt)
  have "sorted (secs ns # ?ts)"
    using assms(3) mono by (auto simp: sorted_map intro: monoD elim: sorted_wrt_mono_rel [rotated])
  then have "admitted (snd (window_run (unat interval) (unat burst) (secs ns, 0) ?ts))
      \<le> (unat burst - 0) + unat burst * ((last ?ts - secs ns) div (unat interval + 1))"
    by (rule window_run_bound) simp_all
  also have "last ?ts = secs (last (ns # nss))" by (rule last_map) simp
  also have "snd (window_run (unat interval) (unat burst) (secs ns, 0) ?ts) =
      snd (ratelimit_run (BPF_RATELIMIT interval burst) (ns # nss))"
    using ratelimit_run_refines [OF run, of "ns # nss"] ratelimit_run_fresh [OF assms(1,4)]
    by (simp only: par) simp
  finally show ?thesis by simp
qed

text \<open>
  C1. Rate bound of \<open>BPF_RATELIMIT(name, interval, burst)\<close>: for every non-decreasing
  sequence of clock readings from the first second of uptime on, the calls that are let
  through number at most \<open>burst\<close> per started window of \<open>interval + 1\<close> seconds.
\<close>

theorem ratelimit_rate_bound:
  assumes "interval \<noteq> 0" "unat interval < 2 ^ 63"
    and "sorted (ns # nss)" "1000000000 \<le> ns"
  shows "admitted (snd (ratelimit_run (BPF_RATELIMIT interval burst) (ns # nss)))
           \<le> unat burst * (1 + (secs (last (ns # nss)) - secs ns) div (unat interval + 1))"
  using assms by (rule ratelimit_run_bound)

theorem ratelimit_rate_bound_witness:
  "admitted (snd (ratelimit_run (BPF_RATELIMIT 1 100)
       [2000000000, 2500000000, 3000000000, 4000000000]))
     \<le> unat (100::u64) * (1 + (secs 4000000000 - secs 2000000000) div (unat (1::u64) + 1))"
proof -
  have h: "(1::u64) \<noteq> 0" "unat (1::u64) < 2 ^ 63"
    "sorted [2000000000::u64, 2500000000, 3000000000, 4000000000]" "(1000000000::u64) \<le> 2000000000"
    by simp_all
  show ?thesis using ratelimit_rate_bound [OF h, of 100] by simp
qed

lemma window_run_begin:
  "sorted (b # ts) \<Longrightarrow> fst (fst (window_run iv bu (b, c) ts)) \<le> last (b # ts)"
proof (induction ts arbitrary: b c)
  case (Cons t ts)
  obtain b' c' a where w: "window_step iv bu (b, c) t = ((b', c'), a)" by (metis surj_pair)
  then have b': "b' = b \<or> b' = t" by (auto simp: window_step_def Let_def split: if_splits prod.splits)
  then have "sorted (b' # ts)" using Cons.prems by auto
  from Cons.IH [OF this, of c'] have "fst (fst (window_run iv bu (b', c') ts)) \<le> last (b' # ts)" .
  moreover have "last (b' # ts) \<le> last (b # t # ts)" using b' Cons.prems by (cases "ts = []") auto
  moreover obtain w' bs where "window_run iv bu (b', c') ts = (w', bs)"
    by (cases "window_run iv bu (b', c') ts")
  ultimately show ?case by (simp only: window_run.simps w prod.case fst_conv)
qed simp

lemma ratelimit_run_running:
  "rl_running r \<Longrightarrow> rl_running (fst (ratelimit_run r nss)) \<and>
     rl_interval (fst (ratelimit_run r nss)) = rl_interval r \<and>
     rl_burst (fst (ratelimit_run r nss)) = rl_burst r"
  by (induction nss arbitrary: r) (simp_all add: ratelimited_refines(2-4))

text \<open>
  The limiter recovers: after any non-decreasing sequence of calls, however many of them
  were refused, a call more than \<open>interval\<close> seconds after the last one is let through, if the
  limiter allows any events at all.
\<close>

theorem ratelimit_recovers:
  assumes "interval \<noteq> 0" "unat interval < 2 ^ 63" "burst \<noteq> 0"
    and "sorted (ns # nss)" "1000000000 \<le> ns"
    and "secs (last (ns # nss)) + unat interval < secs ns'"
  shows "\<not> snd (ratelimited ns' (fst (ratelimit_run (BPF_RATELIMIT interval burst) (ns # nss))))"
proof -
  let ?r = "BPF_RATELIMIT interval burst\<lparr>rl_begin := ns div 1000000000\<rparr>"
  let ?ts = "map secs (ns # nss)" and ?r' = "fst (ratelimit_run ?r (ns # nss))"
  have run: "rl_running ?r" using assms(1,2,5) by (rule fresh_running)
  note r' = ratelimit_run_running [OF run, of "ns # nss"]
  have par: "rl_interval ?r = interval" "rl_burst ?r = burst" "rl_abs ?r = (secs ns, 0)"
    by (simp_all add: BPF_RATELIMIT_def rl_abs_def unat_secs)
  have "mono secs" by (auto intro!: monoI div_le_mono simp: secs_def word_le_nat_alt)
  then have "sorted (secs ns # ?ts)"
    using assms(4) by (auto simp: sorted_map intro: monoD elim: sorted_wrt_mono_rel [rotated])
  from window_run_begin [OF this, of "unat interval" "unat burst" 0]
  have "fst (rl_abs ?r') \<le> last (secs ns # ?ts)"
    using ratelimit_run_refines [OF run, of "ns # nss"] by (simp add: par)
  also have "last (secs ns # ?ts) = secs (last (ns # nss))" by (simp add: last_map)
  finally have "fst (rl_abs ?r') + unat interval < secs ns'" using assms(6) by linarith
  moreover have "0 < unat burst" using assms(3) by (simp add: unat_gt_0)
  ultimately have "\<not> snd (window_step (unat interval) (unat burst) (rl_abs ?r') (secs ns'))"
    by (cases "rl_abs ?r'") (simp add: window_step_def)
  with ratelimited_refines(1) [of ?r' ns'] r' have "\<not> snd (ratelimited ns' ?r')"
    by (simp add: par)
  then show ?thesis unfolding ratelimit_run_fresh [OF assms(1,5)] .
qed

theorem ratelimit_recovers_witness:
  "\<not> snd (ratelimited 9000000000 (fst (ratelimit_run (BPF_RATELIMIT 1 1)
       [2000000000, 2100000000, 2200000000])))"
proof -
  have h: "(1::u64) \<noteq> 0" "unat (1::u64) < 2 ^ 63" "(1::u64) \<noteq> 0"
    "sorted [2000000000::u64, 2100000000, 2200000000]" "(1000000000::u64) \<le> 2000000000"
    "secs (last [2000000000, 2100000000, 2200000000]) + unat (1::u64) < secs 9000000000"
    by (simp_all add: secs_def)
  from ratelimit_recovers [OF h] show ?thesis .
qed

text \<open>Within a window the answers are determined by the room that is left.\<close>

definition rl_room :: "bpf_ratelimit \<Rightarrow> nat" where
  "rl_room r = unat (rl_burst r) - unat (rl_events r)"

lemma ratelimited_in_window:
  assumes "rl_running r" "secs ns \<le> unat (rl_begin r) + unat (rl_interval r)"
  shows "ratelimited ns r =
     (if 0 < rl_room r
      then (r\<lparr>rl_events := rl_events r + 1, rl_total_events := rl_total_events r + 1\<rparr>, False)
      else (r\<lparr>rl_nmissed := rl_nmissed r + 1, rl_total_nmissed := rl_total_nmissed r + 1\<rparr>, True))"
proof -
  have "ratelimit_window (ns div 1000000000) r = r"
    using assms window_expired [OF assms(1), of ns]
    by (simp add: ratelimit_window_def rl_running_def)
  moreover have "rl_events r \<le> rl_burst r" "rl_interval r \<noteq> 0"
    using assms(1) by (simp_all add: rl_running_def)
  ultimately show ?thesis
    by (simp add: ratelimited_simp take_refines rl_room_def)
qed

lemma rl_room_Suc:
  assumes "rl_events r \<le> rl_burst r" "0 < rl_room r"
  shows "rl_room (r\<lparr>rl_events := rl_events r + 1, rl_total_events := x\<rparr>) = rl_room r - 1"
    and "rl_events r + 1 \<le> rl_burst r"
proof -
  have *: "rl_events r < rl_burst r" using assms(2) by (simp add: rl_room_def word_less_nat_alt)
  show "rl_room (r\<lparr>rl_events := rl_events r + 1, rl_total_events := x\<rparr>) = rl_room r - 1"
    using unat_Suc_word [OF *] by (simp add: rl_room_def)
  show "rl_events r + 1 \<le> rl_burst r"
    using unat_Suc_word [OF *] * by (simp add: word_le_nat_alt word_less_nat_alt)
qed

text \<open>
  C2. Exact behaviour inside a window, of \<open>interval + 1\<close> seconds: the first \<open>burst - events\<close>
  calls are let through and all later ones are refused.
\<close>

theorem ratelimit_window_exact:
  assumes "rl_running r"
    and "\<forall>ns \<in> set nss. secs ns \<le> unat (rl_begin r) + unat (rl_interval r)"
  shows "snd (ratelimit_run r nss) =
     replicate (min (rl_room r) (length nss)) False @ replicate (length nss - rl_room r) True"
  using assms
proof (induction nss arbitrary: r)
  case Nil
  then show ?case by simp
next
  case (Cons ns nss)
  have eb: "rl_events r \<le> rl_burst r" using Cons.prems(1) by (simp add: rl_running_def)
  note step = ratelimited_in_window [OF Cons.prems(1), of ns]
  show ?case
  proof (cases "0 < rl_room r")
    case True
    let ?r = "r\<lparr>rl_events := rl_events r + 1, rl_total_events := rl_total_events r + 1\<rparr>"
    have "rl_running ?r"
      using Cons.prems(1) rl_room_Suc(2) [OF eb True] by (simp add: rl_running_def)
    then have "snd (ratelimit_run ?r nss) =
        replicate (min (rl_room ?r) (length nss)) False @
        replicate (length nss - rl_room ?r) True"
      using Cons.prems(2) by (intro Cons.IH) simp_all
    moreover obtain k where "rl_room r = Suc k" using True by (cases "rl_room r") simp_all
    ultimately show ?thesis
      using step True Cons.prems(2) rl_room_Suc(1) [OF eb True] by simp
  next
    case False
    let ?r = "r\<lparr>rl_nmissed := rl_nmissed r + 1, rl_total_nmissed := rl_total_nmissed r + 1\<rparr>"
    have "rl_running ?r" and room: "rl_room ?r = 0"
      using Cons.prems(1) False by (simp_all add: rl_running_def rl_room_def)
    then have "snd (ratelimit_run ?r nss) = replicate (length nss) True"
      using Cons.prems(2) Cons.IH [of ?r] by simp
    then show ?thesis
      using step False Cons.prems(2) by simp
  qed
qed

theorem ratelimit_window_exact_witness:
  "snd (ratelimit_run (BPF_RATELIMIT 1 2\<lparr>rl_begin := 7\<rparr>) [7000000000, 7100000000, 8000000000])
     = [False, False, True]"
proof -
  let ?r = "BPF_RATELIMIT 1 2\<lparr>rl_begin := 7\<rparr>"
  let ?n = "[7000000000, 7100000000, 8000000000] :: u64 list"
  have "rl_running ?r" "\<forall>ns \<in> set ?n. secs ns \<le> unat (rl_begin ?r) + unat (rl_interval ?r)"
    by (simp_all add: rl_running_def BPF_RATELIMIT_def secs_def)
  moreover have "rl_room ?r = Suc (Suc 0)"
    by (simp add: rl_room_def BPF_RATELIMIT_def)
  ultimately show ?thesis using ratelimit_window_exact [of ?r ?n] by simp
qed

lemma ratelimited_counts:
  assumes "rl_interval r \<noteq> 0"
  shows "rl_total_events (fst (ratelimited ns r)) =
           rl_total_events r + (if snd (ratelimited ns r) then 0 else 1)"
    and "rl_total_nmissed (fst (ratelimited ns r)) =
           rl_total_nmissed r + (if snd (ratelimited ns r) then 1 else 0)"
    and "rl_interval (fst (ratelimited ns r)) = rl_interval r"
  using assms by (auto simp: ratelimited_simp ratelimit_take_def ratelimit_window_def Let_def)

text \<open>
  Accounting: over any sequence of calls, in any order of clock readings,
  \<open>total_events\<close> grows by the number of calls let through and \<open>total_nmissed\<close> by the
  number of calls refused (both modulo \<open>2 ^ 64\<close>).
\<close>

theorem ratelimit_accounting:
  assumes "rl_interval r \<noteq> 0"
  shows "rl_total_events (fst (ratelimit_run r nss)) =
           rl_total_events r + of_nat (admitted (snd (ratelimit_run r nss))) \<and>
         rl_total_nmissed (fst (ratelimit_run r nss)) =
           rl_total_nmissed r + of_nat (length nss - admitted (snd (ratelimit_run r nss))) \<and>
         admitted (snd (ratelimit_run r nss)) \<le> length nss"
  using assms
proof (induction nss arbitrary: r)
  case Nil
  then show ?case by simp
next
  case (Cons ns nss)
  obtain r1 b where 1: "ratelimited ns r = (r1, b)" by (cases "ratelimited ns r")
  note c = ratelimited_counts [OF Cons.prems, of ns, unfolded 1 fst_conv snd_conv]
  from Cons.IH [of r1] c(3) Cons.prems have IH:
    "rl_total_events (fst (ratelimit_run r1 nss)) =
       rl_total_events r1 + of_nat (admitted (snd (ratelimit_run r1 nss)))"
    "rl_total_nmissed (fst (ratelimit_run r1 nss)) =
       rl_total_nmissed r1 + of_nat (length nss - admitted (snd (ratelimit_run r1 nss)))"
    "admitted (snd (ratelimit_run r1 nss)) \<le> length nss" by simp_all
  show ?case
    using IH c(1,2) 1 by (cases b) (simp_all add: Suc_diff_le algebra_simps)
qed

theorem ratelimit_accounting_witness:
  "rl_total_nmissed (fst (ratelimit_run (BPF_RATELIMIT 1 1) [7000000000, 7100000000])) = 1"
proof -
  have "rl_interval (BPF_RATELIMIT 1 1) \<noteq> 0" by (simp add: BPF_RATELIMIT_def)
  from ratelimit_accounting [OF this, of "[7000000000, 7100000000]"] show ?thesis
    by (simp add: BPF_RATELIMIT_def ratelimited_simp ratelimit_window_def ratelimit_take_def)
qed

section \<open>The limiter in a map\<close>

text \<open>
  \<open>BPF_RATELIMIT_IN_MAP\<close> keeps the object as element \<open>0\<close> of an array map of one entry and its
  configuration as a constant. The call takes the map operations \<open>M\<close>, the map \<open>m\<close>, the
  configuration and the clock reading, and returns the map, the answer, and what it submits
  to the notification channel.
\<close>

definition BPF_RATELIMIT_IN_MAP :: "u64 \<Rightarrow> u64 \<Rightarrow> u64 \<Rightarrow> bpf_ratelimit" where
  "BPF_RATELIMIT_IN_MAP interval burst max_burst =
     BPF_RATELIMIT interval burst\<lparr>rl_max_burst := max_burst\<rparr>"

definition rl_configure :: "bpf_ratelimit \<Rightarrow> bpf_ratelimit \<Rightarrow> bpf_ratelimit" where
  "rl_configure cfg r =
     (if rl_interval r = 0
      then r\<lparr>rl_interval := rl_interval cfg, rl_burst := rl_burst cfg,
             rl_max_burst := rl_max_burst cfg\<rparr>
      else r)"

definition bpf_ratelimited_core_in_map ::
    "(u32, bpf_ratelimit, 'm) map_ops \<Rightarrow> 'm \<Rightarrow> bpf_ratelimit \<Rightarrow> u64 \<Rightarrow>
       'm \<times> bool \<times> bpf_ratelimit list" where
  "bpf_ratelimited_core_in_map M m cfg ns =
     (case lookup_elem M m 0 of
        None \<Rightarrow> (m, False, [])
      | Some rate \<Rightarrow>
          let r1 = rl_configure cfg rate;
              old_nmissed = rl_nmissed r1;
              (r2, limited) = ratelimited ns r1;
              m' = store_elem M m 0 r2
          in if \<not> limited then (m', False, [])
             else if old_nmissed = 0 \<or>
                     (rl_max_burst r2 > 0 \<and> rl_nmissed r2 > rl_max_burst r2 - rl_burst r2)
                  then (m', True, [r2])
                  else (m', True, []))"

fun in_map_run ::
    "(u32, bpf_ratelimit, 'm) map_ops \<Rightarrow> 'm \<Rightarrow> bpf_ratelimit \<Rightarrow> u64 list \<Rightarrow>
       'm \<times> bool list \<times> bpf_ratelimit list" where
  "in_map_run M m cfg [] = (m, [], [])"
| "in_map_run M m cfg (ns # nss) =
     (case bpf_ratelimited_core_in_map M m cfg ns of
        (m1, b, es) \<Rightarrow>
          (case in_map_run M m1 cfg nss of (m2, bs, es') \<Rightarrow> (m2, b # bs, es @ es')))"

lemma in_map_run_Cons:
  assumes "bpf_ratelimited_core_in_map M m cfg ns = (m1, b, es)"
  shows "fst (snd (in_map_run M m cfg (ns # nss))) = b # fst (snd (in_map_run M m1 cfg nss))"
    and "snd (snd (in_map_run M m cfg (ns # nss))) = es @ snd (snd (in_map_run M m1 cfg nss))"
  by (simp_all add: assms split: prod.splits)

declare in_map_run.simps(2) [simp del]

text \<open>What one call does to the element, and when it notifies.\<close>

definition rl_notifies :: "u64 \<Rightarrow> bpf_ratelimit \<Rightarrow> bool" where
  "rl_notifies ns r \<longleftrightarrow> snd (ratelimited ns r) \<and>
     (rl_nmissed r = 0 \<or>
      (rl_max_burst r > 0 \<and>
       rl_nmissed (fst (ratelimited ns r)) > rl_max_burst r - rl_burst r))"

lemma ratelimited_config:
  "rl_burst (fst (ratelimited ns r)) = rl_burst r"
  "rl_max_burst (fst (ratelimited ns r)) = rl_max_burst r"
  "rl_interval (fst (ratelimited ns r)) = rl_interval r"
  by (auto simp: ratelimited_simp ratelimit_take_def ratelimit_window_def Let_def)

lemma in_map_configure:
  assumes "bpf_array_map M 1" and "lookup_elem M m 0 = Some r0" and "r = rl_configure cfg r0"
  shows "\<exists>m'. bpf_ratelimited_core_in_map M m cfg ns =
            (m', snd (ratelimited ns r),
             if rl_notifies ns r then [fst (ratelimited ns r)] else []) \<and>
           lookup_elem M m' 0 = Some (fst (ratelimited ns r))"
proof -
  have "lookup_elem M (store_elem M m 0 v) 0 = Some v" for v
    using assms(2) bpf_map.store_present [OF bpf_array_map.axioms(1) [OF assms(1)], of m 0 v]
    by simp
  moreover obtain r2 b where "ratelimited ns r = (r2, b)" by (cases "ratelimited ns r")
  ultimately show ?thesis
    using assms(2,3) ratelimited_config [of ns r]
    by (auto simp: bpf_ratelimited_core_in_map_def rl_notifies_def Let_def)
qed

lemma in_map_call:
  assumes "bpf_array_map M 1" and "lookup_elem M m 0 = Some r" and "rl_interval r \<noteq> 0"
  shows "\<exists>m'. bpf_ratelimited_core_in_map M m cfg ns =
            (m', snd (ratelimited ns r),
             if rl_notifies ns r then [fst (ratelimited ns r)] else []) \<and>
           lookup_elem M m' 0 = Some (fst (ratelimited ns r))"
  using assms(3) by (intro in_map_configure [OF assms(1,2)]) (simp add: rl_configure_def)

text \<open>
  C4. The limiter in a map answers as the static one, from the configuration on the first
  call: the element starts zeroed, as array map elements do.
\<close>

theorem in_map_run_refines:
  assumes "bpf_array_map M 1" and "lookup_elem M m 0 = Some (BPF_RATELIMIT 0 0)"
    and "interval \<noteq> 0"
  shows "fst (snd (in_map_run M m (BPF_RATELIMIT_IN_MAP interval burst max_burst) nss)) =
           snd (ratelimit_run (BPF_RATELIMIT_IN_MAP interval burst max_burst) nss)"
proof -
  let ?cfg = "BPF_RATELIMIT_IN_MAP interval burst max_burst"
  have run: "lookup_elem M m r0 = Some r \<Longrightarrow> r0 = 0 \<Longrightarrow> rl_interval r \<noteq> 0 \<Longrightarrow>
      fst (snd (in_map_run M m ?cfg nss)) = snd (ratelimit_run r nss)" for m r0 r nss
  proof (induction nss arbitrary: m r)
    case Nil
    then show ?case by simp
  next
    case (Cons ns nss)
    obtain m' es where 1: "bpf_ratelimited_core_in_map M m ?cfg ns = (m', snd (ratelimited ns r), es)"
      and 2: "lookup_elem M m' 0 = Some (fst (ratelimited ns r))"
      using in_map_call [OF assms(1), of m r ?cfg ns] Cons.prems by auto
    from Cons.IH [of m' "fst (ratelimited ns r)"] 2 Cons.prems
    show ?case by (simp add: in_map_run_Cons [OF 1] ratelimited_config)
  qed
  show ?thesis
  proof (cases nss)
    case (Cons ns nss')
    have cfg: "?cfg = rl_configure ?cfg (BPF_RATELIMIT 0 0)"
      by (simp add: rl_configure_def BPF_RATELIMIT_def BPF_RATELIMIT_IN_MAP_def)
    have i: "rl_interval (fst (ratelimited ns ?cfg)) \<noteq> 0"
      using assms(3) by (simp add: ratelimited_config BPF_RATELIMIT_def BPF_RATELIMIT_IN_MAP_def)
    obtain m' es where
      1: "bpf_ratelimited_core_in_map M m ?cfg ns = (m', snd (ratelimited ns ?cfg), es)" and
      2: "lookup_elem M m' 0 = Some (fst (ratelimited ns ?cfg))"
      using in_map_configure [OF assms(1,2) cfg, of ns] by blast
    from run [OF 2 refl i] show ?thesis
      by (simp add: Cons in_map_run_Cons [OF 1])
  qed simp
qed

theorem in_map_run_refines_witness:
  "fst (snd (in_map_run (array_ops 1) (\<lambda>_. BPF_RATELIMIT 0 0) (BPF_RATELIMIT_IN_MAP 1 1 0)
       [7000000000, 7100000000])) =
   snd (ratelimit_run (BPF_RATELIMIT_IN_MAP 1 1 0) [7000000000, 7100000000])"
proof -
  have "bpf_array_map (array_ops 1 :: (u32, bpf_ratelimit, u32 \<Rightarrow> bpf_ratelimit) map_ops) 1"
    by simp
  moreover have "lookup_elem (array_ops 1) (\<lambda>_. BPF_RATELIMIT 0 0) 0 = Some (BPF_RATELIMIT 0 0)"
    by (simp add: array_simps)
  ultimately show ?thesis by (rule in_map_run_refines) simp
qed

text \<open>Refused calls after the first one of a window send no notification.\<close>

lemma in_map_refused:
  assumes "bpf_array_map M 1" and "lookup_elem M m 0 = Some r"
    and "rl_running r" "rl_max_burst r = 0" "rl_room r = 0"
    and "0 < unat (rl_nmissed r)" "unat (rl_nmissed r) + length nss < 2 ^ 64"
    and "\<forall>ns \<in> set nss. secs ns \<le> unat (rl_begin r) + unat (rl_interval r)"
  shows "snd (snd (in_map_run M m cfg nss)) = []"
  using assms(2-)
proof (induction nss arbitrary: m r)
  case Nil
  then show ?case by simp
next
  case (Cons ns nss)
  let ?r = "r\<lparr>rl_nmissed := rl_nmissed r + 1, rl_total_nmissed := rl_total_nmissed r + 1\<rparr>"
  have res: "ratelimited ns r = (?r, True)"
    using Cons.prems by (simp add: ratelimited_in_window)
  have nz: "rl_nmissed r \<noteq> 0" using Cons.prems(5) by auto
  have nm: "unat (rl_nmissed r + 1) = Suc (unat (rl_nmissed r))"
    using Cons.prems(6) by (simp add: unat_word_ariths)
  have run: "rl_running ?r" "rl_room ?r = 0"
    using Cons.prems(2,4) by (simp_all add: rl_running_def rl_room_def)
  obtain m' where 1: "bpf_ratelimited_core_in_map M m cfg ns = (m', True, [])"
    and "lookup_elem M m' 0 = Some ?r"
    using in_map_call [OF assms(1) Cons.prems(1), of cfg ns] Cons.prems(2,3) nz res
    by (auto simp: rl_notifies_def rl_running_def)
  then show ?case
    using Cons.IH [of m' ?r] run Cons.prems(3,6,7) nm by (simp add: in_map_run_Cons [OF 1])
qed

text \<open>
  Notification: without a second threshold (\<open>max_burst = 0\<close>, as in \<open>oom.c\<close> and
  \<open>softlockup.c\<close>), the calls of one window send exactly one notification if any of them is
  refused, and none otherwise.
\<close>

theorem in_map_notifies_once:
  assumes "bpf_array_map M 1" and "lookup_elem M m 0 = Some r"
    and "rl_running r" and "rl_nmissed r = 0" and "rl_max_burst r = 0"
    and "\<forall>ns \<in> set nss. secs ns \<le> unat (rl_begin r) + unat (rl_interval r)"
    and "length nss < 2 ^ 64"
  shows "length (snd (snd (in_map_run M m cfg nss))) = (if rl_room r < length nss then 1 else 0)"
  using assms(2-7)
proof (induction nss arbitrary: m r)
  case Nil
  then show ?case by simp
next
  case (Cons ns nss)
  have eb: "rl_events r \<le> rl_burst r" and i: "rl_interval r \<noteq> 0"
    using Cons.prems(2) by (simp_all add: rl_running_def)
  show ?case
  proof (cases "0 < rl_room r")
    case True
    let ?r = "r\<lparr>rl_events := rl_events r + 1, rl_total_events := rl_total_events r + 1\<rparr>"
    have res: "ratelimited ns r = (?r, False)"
      using Cons.prems(2,5) True by (simp add: ratelimited_in_window)
    have run: "rl_running ?r" "rl_room ?r = rl_room r - 1"
      using Cons.prems(2) rl_room_Suc [OF eb True] by (simp_all add: rl_running_def)
    obtain m' where 1: "bpf_ratelimited_core_in_map M m cfg ns = (m', False, [])"
      and "lookup_elem M m' 0 = Some ?r"
      using in_map_call [OF assms(1) Cons.prems(1) i, of cfg ns] res
      by (auto simp: rl_notifies_def)
    then show ?thesis
      using Cons.IH [of m' ?r] run Cons.prems(3-6) True by (auto simp: in_map_run_Cons [OF 1])
  next
    case False
    let ?r = "r\<lparr>rl_nmissed := rl_nmissed r + 1, rl_total_nmissed := rl_total_nmissed r + 1\<rparr>"
    have res: "ratelimited ns r = (?r, True)"
      using Cons.prems(2,5) False by (simp add: ratelimited_in_window)
    have run: "rl_running ?r" "rl_room ?r = 0"
      using Cons.prems(2) False by (simp_all add: rl_running_def rl_room_def)
    obtain m' where 1: "bpf_ratelimited_core_in_map M m cfg ns = (m', True, [?r])"
      and "lookup_elem M m' 0 = Some ?r"
      using in_map_call [OF assms(1) Cons.prems(1) i, of cfg ns] Cons.prems(3) res
      by (auto simp: rl_notifies_def)
    then show ?thesis
      using in_map_refused [OF assms(1), of m' ?r nss cfg] run Cons.prems(3-6) False
      by (simp add: in_map_run_Cons [OF 1])
  qed
qed

theorem in_map_notifies_once_witness:
  "length (snd (snd (in_map_run (array_ops 1) (\<lambda>_. BPF_RATELIMIT 1 1\<lparr>rl_begin := 7\<rparr>)
       (BPF_RATELIMIT_IN_MAP 1 1 0) [7000000000, 7100000000, 8000000000]))) = 1"
proof -
  let ?M = "array_ops 1 :: (u32, bpf_ratelimit, u32 \<Rightarrow> bpf_ratelimit) map_ops"
  let ?r = "BPF_RATELIMIT 1 1\<lparr>rl_begin := 7\<rparr>"
  let ?n = "[7000000000, 7100000000, 8000000000] :: u64 list"
  have h: "bpf_array_map ?M 1" "lookup_elem ?M (\<lambda>_. ?r) 0 = Some ?r" "rl_running ?r"
    "rl_nmissed ?r = 0" "rl_max_burst ?r = 0"
    "\<forall>ns \<in> set ?n. secs ns \<le> unat (rl_begin ?r) + unat (rl_interval ?r)" "length ?n < 2 ^ 64"
    by (simp_all add: array_simps rl_running_def BPF_RATELIMIT_def secs_def)
  have "rl_room ?r = 1" by (simp add: rl_room_def BPF_RATELIMIT_def)
  then show ?thesis using in_map_notifies_once [OF h, of "BPF_RATELIMIT_IN_MAP 1 1 0"] by simp
qed

end
