(* ===== verification/Ratelimit_Smp.thy ===== *)
theory Ratelimit_Smp
  imports Bpf_Ratelimit
begin

text \<open>
  \<open>bpf_ratelimited\<close> of \<^verbatim>\<open>bpf/include/bpf_ratelimit.h\<close> on several CPUs that share one
  object: the accesses to the object are single steps, in the order of the source, and steps
  of different CPUs interleave freely. \<open>__sync_fetch_and_add\<close> is one step, a plain assignment
  or load is one step.
\<close>

section \<open>Steps\<close>

text \<open>The program point of a CPU, with the values its local variables hold there.\<close>

datatype rl_pc =
    Idle
  | Load_begin u64            \<comment> \<open>\<open>if (rate->begin == 0)\<close>\<close>
  | Set_begin u64             \<comment> \<open>\<open>rate->begin = curr\<close>\<close>
  | Check_window u64          \<comment> \<open>\<open>if (curr > rate->begin + rate->interval)\<close>\<close>
  | Load_interval u64         \<comment> \<open>\<open>curr - rate->begin\<close>\<close>
  | Add_interval u64 u64      \<comment> \<open>\<open>__sync_fetch_and_add(&rate->total_interval, ...)\<close>\<close>
  | Restart_begin u64         \<comment> \<open>\<open>rate->begin = curr\<close>\<close>
  | Clear_nmissed             \<comment> \<open>\<open>rate->nmissed = 0\<close>\<close>
  | Clear_events              \<comment> \<open>\<open>rate->events = 0\<close>\<close>
  | Check_burst               \<comment> \<open>\<open>if (rate->burst && rate->burst > rate->events)\<close>\<close>
  | Add_events                \<comment> \<open>\<open>__sync_fetch_and_add(&rate->events, 1)\<close>\<close>
  | Add_total_events
  | Add_nmissed
  | Add_total_nmissed

record rl_smp =
  rate :: bpf_ratelimit
  pc :: "nat \<Rightarrow> rl_pc"

text \<open>One access: the object afterwards and the next program point.\<close>

fun rl_access :: "rl_pc \<Rightarrow> bpf_ratelimit \<Rightarrow> bpf_ratelimit \<times> rl_pc" where
  "rl_access Idle r = (r, Idle)"
| "rl_access (Load_begin cur) r =
     (r, if rl_begin r = 0 then Set_begin cur else Check_window cur)"
| "rl_access (Set_begin cur) r = (r\<lparr>rl_begin := cur\<rparr>, Check_window cur)"
| "rl_access (Check_window cur) r =
     (r, if cur > rl_begin r + rl_interval r then Load_interval cur else Check_burst)"
| "rl_access (Load_interval cur) r = (r, Add_interval cur (cur - rl_begin r))"
| "rl_access (Add_interval cur d) r =
     (r\<lparr>rl_total_interval := rl_total_interval r + d\<rparr>, Restart_begin cur)"
| "rl_access (Restart_begin cur) r = (r\<lparr>rl_begin := cur\<rparr>, Clear_nmissed)"
| "rl_access Clear_nmissed r = (r\<lparr>rl_nmissed := 0\<rparr>, Clear_events)"
| "rl_access Clear_events r = (r\<lparr>rl_events := 0\<rparr>, Check_burst)"
| "rl_access Check_burst r =
     (r, if rl_burst r \<noteq> 0 \<and> rl_burst r > rl_events r then Add_events else Add_nmissed)"
| "rl_access Add_events r = (r\<lparr>rl_events := rl_events r + 1\<rparr>, Add_total_events)"
| "rl_access Add_total_events r = (r\<lparr>rl_total_events := rl_total_events r + 1\<rparr>, Idle)"
| "rl_access Add_nmissed r = (r\<lparr>rl_nmissed := rl_nmissed r + 1\<rparr>, Add_total_nmissed)"
| "rl_access Add_total_nmissed r = (r\<lparr>rl_total_nmissed := rl_total_nmissed r + 1\<rparr>, Idle)"

text \<open>
  With \<open>n\<close> CPUs: an idle CPU enters the function with its clock reading (a zero
  \<open>interval\<close> returns at once), any other CPU makes its next access.
\<close>

inductive smp_step :: "nat \<Rightarrow> rl_smp \<Rightarrow> rl_smp \<Rightarrow> bool" for n where
  enter: "i < n \<Longrightarrow> pc s i = Idle \<Longrightarrow> rl_interval (rate s) \<noteq> 0 \<Longrightarrow>
     smp_step n s (s\<lparr>pc := (pc s)(i := Load_begin (ns div 1000000000))\<rparr>)"
| access: "i < n \<Longrightarrow> pc s i \<noteq> Idle \<Longrightarrow> rl_access (pc s i) (rate s) = (r', p') \<Longrightarrow>
     smp_step n s (s\<lparr>rate := r', pc := (pc s)(i := p')\<rparr>)"

inductive smp_reach :: "nat \<Rightarrow> bpf_ratelimit \<Rightarrow> rl_smp \<Rightarrow> bool" for n r0 where
  start: "smp_reach n r0 \<lparr>rate = r0, pc = (\<lambda>_. Idle)\<rparr>"
| step: "smp_reach n r0 s \<Longrightarrow> smp_step n s t \<Longrightarrow> smp_reach n r0 t"

section \<open>One CPU: the steps compute the function\<close>

text \<open>A CPU that runs alone, with fuel for its accesses.\<close>

fun rl_solo :: "nat \<Rightarrow> rl_pc \<Rightarrow> bpf_ratelimit \<Rightarrow> bpf_ratelimit \<times> rl_pc" where
  "rl_solo 0 p r = (r, p)"
| "rl_solo (Suc k) p r = (case rl_access p r of (r', p') \<Rightarrow> rl_solo k p' r')"

lemma rl_solo_idle [simp]: "rl_solo k Idle r = (r, Idle)"
  by (induction k) simp_all

lemma rl_solo_call:
  assumes "rl_interval r \<noteq> 0"
  shows "rl_solo 11 (Load_begin (ns div 1000000000)) r = (fst (ratelimited ns r), Idle)"
  using assms
  by (simp add: eval_nat_numeral ratelimited_simp ratelimit_window_def ratelimit_take_def Let_def)

text \<open>
  The interleaving model is the function when nothing interleaves: run by one CPU, at
  most eleven accesses bring it back to the idle point with the object that
  \<open>bpf_ratelimited\<close> computes.
\<close>

theorem rl_solo_ratelimited:
  assumes "rl_interval r \<noteq> 0"
  shows "rl_solo 11 (Load_begin (ns div 1000000000)) r = (fst (ratelimited ns r), Idle)"
  using assms by (rule rl_solo_call)

section \<open>Overshoot\<close>

definition entering :: "nat \<Rightarrow> rl_smp \<Rightarrow> nat set" where
  "entering n s = {i. i < n \<and> pc s i = Add_events}"

definition smp_inv :: "nat \<Rightarrow> u64 \<Rightarrow> rl_smp \<Rightarrow> bool" where
  "smp_inv n burst s \<longleftrightarrow> rl_burst (rate s) = burst \<and>
     unat (rl_events (rate s)) + card (entering n s) < unat burst + n"

lemma finite_entering [simp]: "finite (entering n s)"
  by (simp add: entering_def)

lemma card_entering: "card (entering n s) \<le> n"
proof -
  have "entering n s \<subseteq> {..<n}" by (auto simp: entering_def)
  then have "card (entering n s) \<le> card {..<n}" by (intro card_mono) simp_all
  then show ?thesis by simp
qed

lemma entering_update:
  "entering n (s\<lparr>rate := r, pc := (pc s)(i := p)\<rparr>) =
     (if i < n \<and> p = Add_events then insert i (entering n s) else entering n s - {i})"
  by (auto simp: entering_def)

lemma rl_access_burst: "rl_burst (fst (rl_access p r)) = rl_burst r"
  by (cases p) simp_all

lemma rl_access_next:
  "snd (rl_access p r) = Add_events \<Longrightarrow>
     p = Check_burst \<and> rl_events r < rl_burst r \<and> fst (rl_access p r) = r"
  by (cases p) (auto split: if_splits)

lemma rl_access_events:
  "rl_events (fst (rl_access p r)) =
     (if p = Add_events then rl_events r + 1 else if p = Clear_events then 0 else rl_events r)"
  by (cases p) simp_all

lemma smp_inv_step:
  assumes "smp_step n s t" "smp_inv n burst s" "burst \<noteq> 0" "unat burst + n \<le> 2 ^ 64"
  shows "smp_inv n burst t"
  using assms(1)
proof cases
  case (enter i ns)
  have "card (entering n s - {i}) \<le> card (entering n s)" by (intro card_mono) auto
  with assms(2) enter show ?thesis
    using entering_update [of n s i "Load_begin (ns div 1000000000)" "rate s"]
    by (simp add: smp_inv_def)
next
  case (access i r' p')
  let ?r = "rate s"
  have b: "rl_burst ?r = burst" and lt: "unat (rl_events ?r) + card (entering n s) < unat burst + n"
    using assms(2) by (simp_all add: smp_inv_def)
  have r': "r' = fst (rl_access (pc s i) ?r)" and p': "p' = snd (rl_access (pc s i) ?r)"
    using access by simp_all
  have b': "rl_burst r' = burst" using b by (simp add: r' rl_access_burst)
  have le: "card (entering n s - {i}) \<le> card (entering n s)" by (intro card_mono) auto
  have pos: "0 < unat burst" using assms(3) by (simp add: unat_gt_0)
  have "unat (rl_events r') + card (entering n t) < unat burst + n"
  proof (cases "p' = Add_events")
    case True
    then have "rl_events ?r < burst" "r' = ?r"
      using rl_access_next [of "pc s i" ?r] b by (auto simp: r' p')
    then show ?thesis
      using card_entering [of n t] by (simp add: word_less_nat_alt)
  next
    case False
    then have ent: "entering n t = entering n s - {i}"
      using access(1) entering_update [of n s i p' r'] by simp
    consider "pc s i = Add_events" | "pc s i = Clear_events" | "rl_events r' = rl_events ?r"
      using rl_access_events [of "pc s i" ?r] r' by metis
    then show ?thesis
    proof cases
      case 1
      then have "i \<in> entering n s" using access by (simp add: entering_def)
      then have "card (entering n s) = Suc (card (entering n t))"
        using ent card.remove [of "entering n s" i] by simp
      moreover have "unat (rl_events r') \<le> Suc (unat (rl_events ?r))"
        using 1 by (simp add: r' unat_word_ariths)
      ultimately show ?thesis using lt by simp
    next
      case 2
      then show ?thesis using ent le card_entering [of n s] pos by (simp add: r')
    next
      case 3
      then show ?thesis using ent le lt by simp
    qed
  qed
  with b' access(1) show ?thesis by (simp add: smp_inv_def)
qed

text \<open>
  A run from idle CPUs: the clock readings of the calls, the number of times the window was started anew, and the number
  of calls that found room in the burst, which are the calls that are let through.
\<close>

inductive smp_run :: "nat \<Rightarrow> bpf_ratelimit \<Rightarrow> u64 list \<Rightarrow> nat \<Rightarrow> nat \<Rightarrow> rl_smp \<Rightarrow> bool" for n r0 where
  run_start: "smp_run n r0 [] 0 0 \<lparr>rate = r0, pc = (\<lambda>_. Idle)\<rparr>"
| run_enter: "smp_run n r0 nss c k s \<Longrightarrow> i < n \<Longrightarrow> pc s i = Idle \<Longrightarrow> rl_interval (rate s) \<noteq> 0 \<Longrightarrow>
     smp_run n r0 (nss @ [ns]) c k (s\<lparr>pc := (pc s)(i := Load_begin (ns div 1000000000))\<rparr>)"
| run_access: "smp_run n r0 nss c k s \<Longrightarrow> i < n \<Longrightarrow> pc s i \<noteq> Idle \<Longrightarrow> rl_access (pc s i) (rate s) = (r', p') \<Longrightarrow>
     smp_run n r0 nss (if pc s i = Clear_events then Suc c else c) (if p' = Add_events then Suc k else k)
       (s\<lparr>rate := r', pc := (pc s)(i := p')\<rparr>)"

lemma smp_run_inv:
  assumes "smp_run n r0 nss c k s" "rl_events r0 \<le> rl_burst r0" "rl_burst r0 \<noteq> 0" "unat (rl_burst r0) + n \<le> 2 ^ 64" "0 < n"
  shows "smp_inv n (rl_burst r0) s"
  using assms(1)
proof induction
  case run_start
  show ?case using assms(2,5) by (simp add: smp_inv_def entering_def word_le_nat_alt)
next
  case (run_enter nss c k s i ns)
  then show ?case using assms(3,4) by (blast intro: smp_inv_step smp_step.enter)
next
  case (run_access nss c k s i r' p')
  then show ?case using assms(3,4) by (blast intro: smp_inv_step smp_step.access)
qed

text \<open>One access, the events it lets through and the events it counts.\<close>

lemma access_count:
  assumes "smp_inv n burst s" "burst \<noteq> 0" "unat burst + n \<le> 2 ^ 64" "i < n" "rl_access (pc s i) (rate s) = (r', p')"
    and "k + e \<le> c * (unat burst + n - 1) + (unat (rl_events (rate s)) + card (entering n s))"
  defines "t \<equiv> s\<lparr>rate := r', pc := (pc s)(i := p')\<rparr>"
  shows "(if p' = Add_events then Suc k else k) + e \<le>
    (if pc s i = Clear_events then Suc c else c) * (unat burst + n - 1) + (unat (rl_events (rate t)) + card (entering n t))"
proof -
  let ?r = "rate s"
  have lt: "unat (rl_events ?r) + card (entering n s) < unat burst + n" using assms(1) by (simp add: smp_inv_def)
  have r': "r' = fst (rl_access (pc s i) ?r)" "p' = snd (rl_access (pc s i) ?r)" using assms(5) by simp_all
  have ent: "entering n t = (if p' = Add_events then insert i (entering n s) else entering n s - {i})"
    using assms(4) unfolding t_def entering_update by simp
  consider (pass) "p' = Add_events" | (count) "pc s i = Add_events" "p' \<noteq> Add_events"
    | (clear) "pc s i = Clear_events" "p' \<noteq> Add_events" | (other) "pc s i \<noteq> Add_events" "pc s i \<noteq> Clear_events" "p' \<noteq> Add_events"
    by blast
  then show ?thesis
  proof cases
    case pass
    then have "pc s i = Check_burst" "r' = ?r" using rl_access_next [of "pc s i" ?r] r' by auto
    then have "i \<notin> entering n s" by (simp add: entering_def)
    with pass \<open>pc s i = Check_burst\<close> \<open>r' = ?r\<close> assms(6) ent show ?thesis by (simp add: t_def)
  next
    case count
    then have i: "i \<in> entering n s" using assms(4) by (simp add: entering_def)
    then have c: "card (entering n s) = Suc (card (entering n t))" using ent count(2) card.remove [of "entering n s" i] by simp
    then have "unat (rl_events ?r) + 1 < 2 ^ 64" using lt assms(3) by simp
    then have "unat (rl_events r') = unat (rl_events ?r) + 1" using count(1) r'(1) by (simp add: unat_word_ariths)
    with count c assms(6) show ?thesis by (simp add: t_def)
  next
    case clear
    let ?B = "unat burst + n - 1"
    have "k + e \<le> c * ?B + ?B" using assms(6) lt by linarith
    moreover have "Suc c * ?B = c * ?B + ?B" by simp
    ultimately show ?thesis using clear by (simp only: if_True if_False refl)
  next
    case other
    then have "i \<notin> entering n s" "rl_events r' = rl_events ?r"
      using rl_access_events [of "pc s i" ?r] r'(1) by (simp_all add: entering_def)
    with other assms(6) ent show ?thesis by (simp add: t_def)
  qed
qed

lemma smp_run_count:
  assumes "smp_run n r0 nss c k s" "rl_events r0 \<le> rl_burst r0" "rl_burst r0 \<noteq> 0" "unat (rl_burst r0) + n \<le> 2 ^ 64" "0 < n"
  shows "k + unat (rl_events r0) \<le> c * (unat (rl_burst r0) + n - 1) + (unat (rl_events (rate s)) + card (entering n s))"
  using assms(1)
proof induction
  case run_start
  show ?case by simp
next
  case (run_enter nss c k s i ns)
  have "entering n (s\<lparr>pc := (pc s)(i := Load_begin (ns div 1000000000))\<rparr>) = entering n s"
    using run_enter.hyps(3) by (auto simp: entering_def)
  then show ?case using run_enter.IH by simp
next
  case (run_access nss c k s i r' p')
  from access_count [OF smp_run_inv [OF run_access.hyps(1) assms(2-5)] assms(3,4) run_access.hyps(2,4) run_access.IH]
  show ?case .
qed

text \<open>While all readings are in the window, no CPU comes to start it anew.\<close>

fun in_window :: "bpf_ratelimit \<Rightarrow> rl_pc \<Rightarrow> bool" where
  "in_window r (Load_begin cur) = (cur \<le> rl_begin r + rl_interval r)"
| "in_window r (Check_window cur) = (cur \<le> rl_begin r + rl_interval r)"
| "in_window _ p = (p \<in> {Idle, Check_burst, Add_events, Add_total_events, Add_nmissed, Add_total_nmissed})"

definition same_window :: "bpf_ratelimit \<Rightarrow> bpf_ratelimit \<Rightarrow> bool" where
  "same_window r r' \<longleftrightarrow> rl_begin r' = rl_begin r \<and> rl_interval r' = rl_interval r"

lemma access_in_window:
  assumes "same_window r0 r" "rl_begin r0 \<noteq> 0" "in_window r0 p" "rl_access p r = (r', p')"
  shows "same_window r0 r' \<and> in_window r0 p' \<and> p \<noteq> Clear_events"
  using assms by (cases p) (auto simp: same_window_def split: if_splits)

lemma smp_run_window:
  assumes "smp_run n r0 nss c k s" "rl_running r0" "\<forall>ns\<in>set nss. secs ns \<le> unat (rl_begin r0) + unat (rl_interval r0)"
  shows "c = 0 \<and> same_window r0 (rate s) \<and> (\<forall>i. in_window r0 (pc s i))"
  using assms(1,3)
proof induction
  case run_start
  show ?case by (simp add: same_window_def)
next
  case (run_enter nss c k s i ns)
  then have "ns div 1000000000 \<le> rl_begin r0 + rl_interval r0" using window_expired [OF assms(2), of ns] by auto
  with run_enter show ?case by simp
next
  case (run_access nss c k s i r' p')
  then have "same_window r0 (rate s)" "in_window r0 (pc s i)" "c = 0" "\<forall>i. in_window r0 (pc s i)" by simp_all
  moreover have "rl_begin r0 \<noteq> 0" using assms(2) by (simp add: rl_running_def)
  ultimately show ?case using access_in_window [of r0 "rate s" "pc s i" r' p'] run_access.hyps(4) by simp
qed


section \<open>The bound is reached\<close>

abbreviation set_cpu :: "rl_smp \<Rightarrow> nat \<Rightarrow> bpf_ratelimit \<times> rl_pc \<Rightarrow> rl_smp" where
  "set_cpu s i rp \<equiv> s\<lparr>rate := fst rp, pc := (pc s)(i := snd rp)\<rparr>"

lemma smp_reach_solo:
  "smp_reach n r0 s \<Longrightarrow> i < n \<Longrightarrow> smp_reach n r0 (set_cpu s i (rl_solo k (pc s i) (rate s)))"
proof (induction k arbitrary: s)
  case 0
  then show ?case by simp
next
  case (Suc k)
  show ?case
  proof (cases "pc s i = Idle")
    case True
    then have "rl_solo (Suc k) (pc s i) (rate s) = (rate s, pc s i)"
      by (simp del: rl_solo.simps)
    with Suc.prems show ?thesis by (simp del: rl_solo.simps)
  next
    case False
    obtain r' p' where 1: "rl_access (pc s i) (rate s) = (r', p')"
      by (cases "rl_access (pc s i) (rate s)")
    from smp_reach.step [OF Suc.prems(1) smp_step.access [OF Suc.prems(2) False 1]]
    have "smp_reach n r0 (set_cpu s i (r', p'))" by simp
    from Suc.IH [OF this Suc.prems(2)] show ?thesis by (simp add: 1 cong: if_cong)
  qed
qed

text \<open>An idle CPU that enters the function and makes \<open>k\<close> accesses.\<close>

lemma smp_reach_call:
  assumes "smp_reach n r0 s" "i < n" "pc s i = Idle" "rl_interval (rate s) \<noteq> 0"
    and "rl_solo k (Load_begin (ns div 1000000000)) (rate s) = (r', p')"
  shows "smp_reach n r0 (s\<lparr>rate := r', pc := (pc s)(i := p')\<rparr>)"
proof -
  let ?s = "s\<lparr>pc := (pc s)(i := Load_begin (ns div 1000000000))\<rparr>"
  have "smp_reach n r0 ?s"
    using assms(1-4) by (blast intro: smp_reach.step smp_step.enter)
  from smp_reach_solo [OF this assms(2), of k] assms(5) show ?thesis by simp
qed

lemma fill_window:
  assumes r: "rl_running r" "rl_events r = 0" "secs ns \<le> unat (rl_begin r) + unat (rl_interval r)"
    and n: "0 < n"
  shows "k \<le> unat (rl_burst r) \<Longrightarrow>
     \<exists>x. smp_reach n r \<lparr>rate = r\<lparr>rl_events := of_nat k, rl_total_events := x\<rparr>, pc = (\<lambda>_. Idle)\<rparr>"
proof (induction k)
  case 0
  have "smp_reach n r \<lparr>rate = r, pc = (\<lambda>_. Idle)\<rparr>" by (rule smp_reach.start)
  moreover have "r = r\<lparr>rl_events := of_nat 0, rl_total_events := rl_total_events r\<rparr>"
    using r(2) by simp
  ultimately show ?case by metis
next
  case (Suc k)
  then obtain x where reach:
    "smp_reach n r \<lparr>rate = r\<lparr>rl_events := of_nat k, rl_total_events := x\<rparr>, pc = (\<lambda>_. Idle)\<rparr>"
    by auto
  let ?r = "r\<lparr>rl_events := of_nat k, rl_total_events := x\<rparr>"
  have k: "unat (of_nat k :: u64) = k"
    using Suc.prems unsigned_less [of "rl_burst r", where 'a = nat]
    by (simp add: unat_of_nat)
  have run: "rl_running ?r" using r(1) Suc.prems k by (simp add: rl_running_def word_le_nat_alt)
  have room: "0 < rl_room ?r" using Suc.prems k by (simp add: rl_room_def)
  have "ratelimited ns ?r = (?r\<lparr>rl_events := of_nat k + 1, rl_total_events := x + 1\<rparr>, False)"
    using r(3) room by (simp add: ratelimited_in_window [OF run])
  then have solo: "rl_solo 11 (Load_begin (ns div 1000000000)) ?r =
      (r\<lparr>rl_events := of_nat (Suc k), rl_total_events := x + 1\<rparr>, Idle)"
    using rl_solo_call [of ?r ns] r(1) by (simp add: rl_running_def add.commute)
  have "rl_interval r \<noteq> 0" using r(1) by (simp add: rl_running_def)
  with smp_reach_call [OF reach n, of 11 ns] solo show ?case by (auto simp: fun_upd_idem)
qed

lemma all_enter:
  assumes s: "smp_reach n r0 \<lparr>rate = r, pc = (\<lambda>_. Idle)\<rparr>"
    and r: "rl_running r" "secs ns \<le> unat (rl_begin r) + unat (rl_interval r)" "0 < rl_room r"
  shows "j \<le> n \<Longrightarrow>
     smp_reach n r0 \<lparr>rate = r, pc = (\<lambda>i. if i < j then Add_events else Idle)\<rparr>"
proof (induction j)
  case 0
  then show ?case using s by simp
next
  case (Suc j)
  let ?s = "\<lparr>rate = r, pc = (\<lambda>i. if i < j then Add_events else Idle)\<rparr>"
  have i: "rl_interval r \<noteq> 0" "rl_begin r \<noteq> 0" using r(1) by (simp_all add: rl_running_def)
  have "rl_events r < rl_burst r" using r(3) by (simp add: rl_room_def word_less_nat_alt)
  moreover have "\<not> ns div 1000000000 > rl_begin r + rl_interval r"
    using window_expired [OF r(1), of ns] r(2) by simp
  ultimately have "rl_solo 3 (Load_begin (ns div 1000000000)) r = (r, Add_events)"
    using i by (auto simp: eval_nat_numeral)
  then have "smp_reach n r0 (?s\<lparr>rate := r, pc := (pc ?s)(j := Add_events)\<rparr>)"
    using Suc i by (intro smp_reach_call [where k = 3 and ns = ns]) auto
  moreover have "(\<lambda>i. if i < Suc j then Add_events else Idle) =
      (\<lambda>i. if i < j then Add_events else Idle)(j := Add_events)"
    by (auto simp: fun_eq_iff)
  ultimately show ?case by simp
qed

lemma all_add:
  assumes "smp_reach n r0 \<lparr>rate = r, pc = (\<lambda>i. if i < n then Add_events else Idle)\<rparr>"
  shows "j \<le> n \<Longrightarrow> \<exists>p. smp_reach n r0
     \<lparr>rate = r\<lparr>rl_events := rl_events r + of_nat j\<rparr>, pc = p\<rparr> \<and> (\<forall>i. j \<le> i \<and> i < n \<longrightarrow> p i = Add_events)"
proof (induction j)
  case 0
  then show ?case using assms by auto
next
  case (Suc j)
  then obtain p where p: "smp_reach n r0 \<lparr>rate = r\<lparr>rl_events := rl_events r + of_nat j\<rparr>, pc = p\<rparr>"
    "\<forall>i. j \<le> i \<and> i < n \<longrightarrow> p i = Add_events" by auto
  let ?s = "\<lparr>rate = r\<lparr>rl_events := rl_events r + of_nat j\<rparr>, pc = p\<rparr>"
  let ?r = "r\<lparr>rl_events := rl_events r + of_nat (Suc j)\<rparr>"
  have "smp_step n ?s (?s\<lparr>rate := ?r, pc := (pc ?s)(j := Add_total_events)\<rparr>)"
    using Suc.prems p(2) by (intro smp_step.access) (auto simp: algebra_simps)
  then have "smp_reach n r0 \<lparr>rate = ?r, pc = p(j := Add_total_events)\<rparr>"
    using smp_reach.step [OF p(1)] by simp
  moreover have "\<forall>i. Suc j \<le> i \<and> i < n \<longrightarrow> (p(j := Add_total_events)) i = Add_events"
    using p(2) by auto
  ultimately show ?case by blast
qed

text \<open>
  C8. The overshoot is real: on \<open>n\<close> CPUs a window can reach \<open>burst + n - 1\<close> events, so with
  two or more CPUs more than \<open>burst\<close> events pass in one window.
\<close>

theorem smp_overshoot_reached:
  assumes "rl_running r0" "rl_events r0 = 0" "rl_burst r0 \<noteq> 0" "0 < n"
    and "unat (rl_burst r0) + n \<le> 2 ^ 64" and "secs ns = unat (rl_begin r0)"
  shows "\<exists>s. smp_reach n r0 s \<and> unat (rl_events (rate s)) = unat (rl_burst r0) + n - 1"
proof -
  define k where "k = unat (rl_burst r0) - 1"
  have b: "unat (rl_burst r0) = Suc k" using assms(3) by (simp add: k_def unat_gt_0)
  have w: "secs ns \<le> unat (rl_begin r0) + unat (rl_interval r0)" using assms(6) by simp
  obtain x where r1: "smp_reach n r0
      \<lparr>rate = r0\<lparr>rl_events := of_nat k, rl_total_events := x\<rparr>, pc = (\<lambda>_. Idle)\<rparr>"
    using fill_window [OF assms(1,2) w assms(4), of k] b by auto
  let ?r = "r0\<lparr>rl_events := of_nat k, rl_total_events := x\<rparr>"
  have k: "unat (of_nat k :: u64) = k"
    using b unsigned_less [of "rl_burst r0", where 'a = nat] by (simp add: unat_of_nat)
  have "rl_running ?r" "0 < rl_room ?r"
    using assms(1) b k by (simp_all add: rl_running_def rl_room_def word_le_nat_alt)
  with all_enter [OF r1, of ns n] w
  have r2: "smp_reach n r0 \<lparr>rate = ?r, pc = (\<lambda>i. if i < n then Add_events else Idle)\<rparr>" by simp
  from all_add [OF r2, of n] obtain p
    where "smp_reach n r0 \<lparr>rate = ?r\<lparr>rl_events := rl_events ?r + of_nat n\<rparr>, pc = p\<rparr>" by auto
  moreover have "unat (rl_events ?r + of_nat n) = k + n"
    using b assms(5) by (simp add: unat_of_nat flip: of_nat_add)
  ultimately show ?thesis using b by force
qed

lemma example_running: "rl_running (BPF_RATELIMIT 1 100\<lparr>rl_begin := 5\<rparr>)"
  by (simp add: rl_running_def BPF_RATELIMIT_def)

theorem smp_overshoot_reached_witness:
  "\<exists>s. smp_reach 4 (BPF_RATELIMIT 1 100\<lparr>rl_begin := 5\<rparr>) s \<and> unat (rl_events (rate s)) = 103"
proof -
  let ?r = "BPF_RATELIMIT 1 100\<lparr>rl_begin := 5\<rparr>"
  have h: "rl_events ?r = 0" "rl_burst ?r \<noteq> 0" "0 < (4::nat)" "unat (rl_burst ?r) + 4 \<le> 2 ^ 64"
    "secs 5000000000 = unat (rl_begin ?r)"
    by (simp_all add: BPF_RATELIMIT_def secs_def)
  show ?thesis using smp_overshoot_reached [OF example_running h] by (simp add: BPF_RATELIMIT_def)
qed

text \<open>Two CPUs find the last place of a burst of one free, and both calls are let through.\<close>

lemma two_access:
  assumes "\<exists>s. smp_run 2 r0 nss c k s \<and> rate s = r \<and> pc s 0 = p \<and> pc s 1 = q" "rl_access p r = (r, p')"
    "p \<noteq> Idle" "p \<noteq> Clear_events" "rl_access q r = (r, q')" "q \<noteq> Idle" "q \<noteq> Clear_events"
  shows "\<exists>s. smp_run 2 r0 nss c (k + (if p' = Add_events then 1 else 0) + (if q' = Add_events then 1 else 0)) s \<and>
    rate s = r \<and> pc s 0 = p' \<and> pc s 1 = q'"
proof -
  obtain s where s: "smp_run 2 r0 nss c k s" "rate s = r" "pc s 0 = p" "pc s 1 = q" using assms(1) by blast
  let ?t = "s\<lparr>rate := r, pc := (pc s)(0 := p')\<rparr>"
  have "smp_run 2 r0 nss c (if p' = Add_events then Suc k else k) ?t"
    using run_access [OF s(1), of 0 r p'] s assms(2-4) by simp
  from run_access [OF this, of 1 r q'] s(2-4) assms(5-7)
  have "smp_run 2 r0 nss c (k + (if p' = Add_events then 1 else 0) + (if q' = Add_events then 1 else 0))
     (?t\<lparr>rate := r, pc := (pc ?t)(1 := q')\<rparr>)" by (simp split: if_splits)
  then show ?thesis by (intro exI conjI) (assumption | simp)+
qed

lemma example_run:
  "\<exists>s. smp_run 2 (BPF_RATELIMIT 1 1\<lparr>rl_begin := 5\<rparr>) [5000000000, 6000000000] 0 2 s"
proof -
  let ?r = "BPF_RATELIMIT 1 1\<lparr>rl_begin := 5\<rparr>"
  have i: "rl_interval ?r \<noteq> 0" by (simp add: BPF_RATELIMIT_def)
  have "smp_run 2 ?r [5000000000] 0 0 \<lparr>rate = ?r, pc = (\<lambda>_. Idle)(0 := Load_begin 5)\<rparr>"
    using run_enter [OF run_start, of 0 2 ?r 5000000000] i by simp
  from run_enter [OF this, of 1 6000000000] i
  have "\<exists>s. smp_run 2 ?r [5000000000, 6000000000] 0 0 s \<and> rate s = ?r \<and> pc s 0 = Load_begin 5 \<and> pc s 1 = Load_begin 6" by force
  from two_access [OF this, of "Check_window 5" "Check_window 6"]
  have "\<exists>s. smp_run 2 ?r [5000000000, 6000000000] 0 0 s \<and> rate s = ?r \<and> pc s 0 = Check_window 5 \<and> pc s 1 = Check_window 6"
    by (simp add: BPF_RATELIMIT_def)
  from two_access [OF this, of Check_burst Check_burst]
  have "\<exists>s. smp_run 2 ?r [5000000000, 6000000000] 0 0 s \<and> rate s = ?r \<and> pc s 0 = Check_burst \<and> pc s 1 = Check_burst"
    by (simp add: BPF_RATELIMIT_def)
  from two_access [OF this, of Add_events Add_events] show ?thesis by (auto simp: BPF_RATELIMIT_def numeral_2_eq_2)
qed


theorem rl_solo_ratelimited_witness:
  "rl_solo 11 (Load_begin (7000000000 div 1000000000)) (BPF_RATELIMIT 1 1) =
     (fst (ratelimited 7000000000 (BPF_RATELIMIT 1 1)), Idle)"
  by (rule rl_solo_ratelimited) (simp add: BPF_RATELIMIT_def)

end
