(* ===== verification/C_Layout.thy ===== *)
theory C_Layout
  imports Bpf_Prelude
begin

text \<open>
  C object layout on x86-64 (the target of \<^verbatim>\<open>bpf/include/vmlinux.h\<close>): sizes,
  alignments and member offsets of scalars, arrays, structures, unions and bit-fields.
  Offsets are counted in bits so that bit-fields are covered. The general lemmas say that
  members are aligned, follow each other without overlap and stay inside their structure.
\<close>

section \<open>Types\<close>

text \<open>
  \<open>CInt n\<close> is a scalar of \<open>n\<close> bytes (integers, \<open>bool\<close>, enumerations). The flag of
  a structure is true under \<open>__attribute__((packed))\<close>. \<open>Bits f n w\<close> is a bit-field
  \<open>f: w\<close> whose declared type has \<open>n\<close> bytes. Unnamed members have the name \<open>''''\<close>.
\<close>

datatype ctype =
    CInt nat
  | CPtr
  | CArr ctype nat
  | CStruct bool "cmember list"
  | CUnion bool "cmember list"
and cmember =
    Fld string ctype
  | Bits string nat nat

fun mname :: "cmember \<Rightarrow> string" where
  "mname (Fld f t) = f"
| "mname (Bits f n w) = f"

definition round_up :: "nat \<Rightarrow> nat \<Rightarrow> nat" where
  "round_up x a = (x + (a - 1)) div a * a"

fun alignof :: "ctype \<Rightarrow> nat" and aligns :: "cmember list \<Rightarrow> nat" where
  "alignof (CInt n) = n"
| "alignof CPtr = 8"
| "alignof (CArr t n) = alignof t"
| "alignof (CStruct p ms) = (if p then 1 else aligns ms)"
| "alignof (CUnion p ms) = (if p then 1 else aligns ms)"
| "aligns [] = 1"
| "aligns (Fld f t # ms) = max (alignof t) (aligns ms)"
| "aligns (Bits f n w # ms) = (if f = '''' then aligns ms else max n (aligns ms))"

definition malign :: "bool \<Rightarrow> cmember \<Rightarrow> nat" where
  "malign p m = (case m of Fld f t \<Rightarrow> if p then 1 else alignof t | Bits f n w \<Rightarrow> n)"

text \<open>
  Where a member starts, given the first free bit: a field at its alignment, a bit-field
  in the current unit of its declared type if it fits there.
\<close>

definition place :: "bool \<Rightarrow> nat \<Rightarrow> cmember \<Rightarrow> nat" where
  "place p b m =
     (case m of
        Fld f t \<Rightarrow> round_up b (8 * malign p m)
      | Bits f n w \<Rightarrow>
          if p then b
          else if w = 0 then round_up b (8 * n)
          else if b mod (8 * n) + w \<le> 8 * n then b
          else round_up b (8 * n))"

fun sizeof :: "ctype \<Rightarrow> nat" and bitsof :: "cmember \<Rightarrow> nat"
  and struct_end :: "bool \<Rightarrow> nat \<Rightarrow> cmember list \<Rightarrow> nat"
  and union_end :: "cmember list \<Rightarrow> nat" where
  "sizeof (CInt n) = n"
| "sizeof CPtr = 8"
| "sizeof (CArr t n) = n * sizeof t"
| "sizeof (CStruct p ms) =
     round_up (struct_end p 0 ms) (8 * alignof (CStruct p ms)) div 8"
| "sizeof (CUnion p ms) =
     round_up (union_end ms) (8 * alignof (CUnion p ms)) div 8"
| "bitsof (Fld f t) = 8 * sizeof t"
| "bitsof (Bits f n w) = w"
| "struct_end p b [] = b"
| "struct_end p b (m # ms) = struct_end p (place p b m + bitsof m) ms"
| "union_end [] = 0"
| "union_end (m # ms) = max (bitsof m) (union_end ms)"

text \<open>
  Looking a member up by name. Members of unnamed structures and unions are members of
  the enclosing object, so the search goes into them; the result is the bit offset and
  the member found.
\<close>

fun find_member :: "ctype \<Rightarrow> string \<Rightarrow> (nat \<times> cmember) option"
  and find_struct :: "bool \<Rightarrow> nat \<Rightarrow> cmember list \<Rightarrow> string \<Rightarrow> (nat \<times> cmember) option"
  and find_union :: "cmember list \<Rightarrow> string \<Rightarrow> (nat \<times> cmember) option"
  and find_in :: "cmember \<Rightarrow> string \<Rightarrow> (nat \<times> cmember) option" where
  "find_member (CInt n) g = None"
| "find_member CPtr g = None"
| "find_member (CArr t n) g = None"
| "find_member (CStruct p ms) g = find_struct p 0 ms g"
| "find_member (CUnion p ms) g = find_union ms g"
| "find_struct p b [] g = None"
| "find_struct p b (m # ms) g =
     (case find_in m g of
        Some (d, x) \<Rightarrow> Some (place p b m + d, x)
      | None \<Rightarrow> find_struct p (place p b m + bitsof m) ms g)"
| "find_union [] g = None"
| "find_union (m # ms) g =
     (case find_in m g of Some r \<Rightarrow> Some r | None \<Rightarrow> find_union ms g)"
| "find_in (Fld f t) g =
     (if f = '''' then find_member t g else if f = g then Some (0, Fld f t) else None)"
| "find_in (Bits f n w) g = (if f \<noteq> '''' \<and> f = g then Some (0, Bits f n w) else None)"

text \<open>Byte offset of a member path such as \<open>rx_dropped.counter\<close>.\<close>

fun offsetof :: "ctype \<Rightarrow> string list \<Rightarrow> nat option" where
  "offsetof t [] = Some 0"
| "offsetof t (f # fs) =
     (case find_member t f of
        Some (d, Fld g u) \<Rightarrow> map_option ((+) (d div 8)) (offsetof u fs)
      | Some (d, Bits g n w) \<Rightarrow> (if fs = [] then Some (d div 8) else None)
      | None \<Rightarrow> None)"

definition pow2 :: "nat \<Rightarrow> bool" where
  "pow2 a \<longleftrightarrow> a = 1 \<or> a = 2 \<or> a = 4 \<or> a = 8"

text \<open>A well-formed type has no zero-sized scalar and no bit-field wider than its type.\<close>

fun wf_type :: "ctype \<Rightarrow> bool" and wf_member :: "cmember \<Rightarrow> bool"
  and wf_members :: "cmember list \<Rightarrow> bool" where
  "wf_type (CInt n) = pow2 n"
| "wf_type CPtr = True"
| "wf_type (CArr t n) = wf_type t"
| "wf_type (CStruct p ms) = wf_members ms"
| "wf_type (CUnion p ms) = wf_members ms"
| "wf_member (Fld f t) = wf_type t"
| "wf_member (Bits f n w) = (pow2 n \<and> w \<le> 8 * n)"
| "wf_members [] = True"
| "wf_members (m # ms) = (wf_member m \<and> wf_members ms)"

section \<open>Rounding\<close>

lemma round_up_ge:
  assumes "0 < a"
  shows "x \<le> round_up x a"
proof -
  have "x + (a - 1) = round_up x a + (x + (a - 1)) mod a"
    by (simp add: round_up_def)
  moreover have "(x + (a - 1)) mod a \<le> a - 1"
    using assms mod_less_divisor [of a "x + (a - 1)"] by linarith
  ultimately show ?thesis by linarith
qed

lemma dvd_round_up: "a dvd round_up x a"
  by (simp add: round_up_def)

lemma round_up_dvd:
  assumes "a dvd x" and "0 < a"
  shows "round_up x a = x"
proof -
  from assms obtain k where x: "x = a * k" by (auto simp: dvd_def)
  have "(a * k + (a - 1)) div a = k + (a - 1) div a"
    using assms(2) by (intro div_mult_self4) simp
  also have "(a - 1) div a = 0"
    using assms(2) by (intro div_less) simp
  finally have "(a * k + (a - 1)) div a = k" by simp
  then show ?thesis by (simp add: round_up_def x)
qed

section \<open>Alignment\<close>

lemma pow2_dvd: "pow2 a \<Longrightarrow> pow2 b \<Longrightarrow> a \<le> b \<Longrightarrow> a dvd b"
  by (auto simp: pow2_def)

lemma pow2_max [simp]: "pow2 a \<Longrightarrow> pow2 b \<Longrightarrow> pow2 (max a b)"
  by (simp add: max_def)

lemma pow2_pos: "pow2 a \<Longrightarrow> 0 < a"
  by (auto simp: pow2_def)

lemma pow2_1 [simp]: "pow2 1" "pow2 (Suc 0)" and pow2_8 [simp]: "pow2 8"
  by (simp_all add: pow2_def)

lemma alignof_pow2 [simp]:
  "wf_type t \<Longrightarrow> pow2 (alignof t)" "wf_members ms \<Longrightarrow> pow2 (aligns ms)"
  by (induction t and ms rule: alignof_aligns.induct) simp_all

lemma alignof_pos: "wf_type t \<Longrightarrow> 0 < alignof t"
  by (simp add: pow2_pos)

lemma malign_pow2: "wf_member m \<Longrightarrow> pow2 (malign p m)"
  by (cases m) (auto simp: malign_def)

lemma malign_dvd_aligns:
  "wf_members ms \<Longrightarrow> Fld f t \<in> set ms \<Longrightarrow> alignof t dvd aligns ms"
proof (induction ms)
  case Nil
  then show ?case by simp
next
  case (Cons m ms)
  show ?case
  proof (cases "m = Fld f t")
    case True
    with Cons.prems(1) show ?thesis
      by (intro pow2_dvd) simp_all
  next
    case False
    with Cons have *: "alignof t dvd aligns ms" and pa: "pow2 (aligns ms)"
      by auto
    have "aligns ms dvd aligns (m # ms)"
      using Cons.prems(1) pa
      by (cases m) (auto intro!: pow2_dvd)
    with * show ?thesis by (rule dvd_trans)
  qed
qed

lemma aligned_struct:
  assumes "0 < a"
  shows "a dvd round_up x (8 * a) div 8"
    and "round_up x (8 * a) = 8 * (round_up x (8 * a) div 8)"
proof -
  from dvd_round_up [of "8 * a" x] obtain k where k: "round_up x (8 * a) = 8 * a * k"
    by (auto simp: dvd_def)
  then show "a dvd round_up x (8 * a) div 8"
    and "round_up x (8 * a) = 8 * (round_up x (8 * a) div 8)"
    by simp_all
qed

text \<open>Every object's size is a multiple of its alignment, so arrays keep it.\<close>

lemma alignof_dvd_sizeof: "wf_type t \<Longrightarrow> alignof t dvd sizeof t"
proof (induction t rule: ctype.induct [where ?P2.0 = "\<lambda>_. True"])
  case (CStruct p ms)
  then have "0 < alignof (CStruct p ms)" by (intro alignof_pos) simp
  then show ?case unfolding sizeof.simps by (rule aligned_struct(1))
next
  case (CUnion p ms)
  then have "0 < alignof (CUnion p ms)" by (intro alignof_pos) simp
  then show ?case unfolding sizeof.simps by (rule aligned_struct(1))
qed (auto simp: dvd_mult)

section \<open>Placement of members\<close>

fun placements :: "bool \<Rightarrow> nat \<Rightarrow> cmember list \<Rightarrow> (nat \<times> cmember) list" where
  "placements p b [] = []"
| "placements p b (m # ms) =
     (place p b m, m) # placements p (place p b m + bitsof m) ms"

lemma place_ge: "wf_member m \<Longrightarrow> b \<le> place p b m"
  using malign_pow2 [of m p, THEN pow2_pos]
  by (cases m) (auto simp: place_def malign_def round_up_ge)

lemma struct_end_ge: "wf_members ms \<Longrightarrow> b \<le> struct_end p b ms"
proof (induction ms arbitrary: b)
  case Nil
  then show ?case by simp
next
  case (Cons m ms)
  then have "b \<le> place p b m" by (simp add: place_ge)
  moreover have "place p b m + bitsof m \<le> struct_end p (place p b m + bitsof m) ms"
    using Cons by simp
  ultimately show ?case by simp
qed

lemma placements_bounds:
  "wf_members ms \<Longrightarrow> (s, m) \<in> set (placements p b ms) \<Longrightarrow>
     b \<le> s \<and> s + bitsof m \<le> struct_end p b ms"
proof (induction ms arbitrary: b)
  case Nil
  then show ?case by simp
next
  case (Cons x ms)
  let ?b = "place p b x + bitsof x"
  have b: "b \<le> place p b x" using Cons.prems(1) by (simp add: place_ge)
  have e: "?b \<le> struct_end p ?b ms" using Cons.prems(1) by (simp add: struct_end_ge)
  from Cons.prems(2) consider "s = place p b x" "m = x" | "(s, m) \<in> set (placements p ?b ms)"
    by auto
  then show ?case
  proof cases
    case 1
    with b e show ?thesis by simp
  next
    case 2
    with Cons.IH [of ?b] Cons.prems(1) b show ?thesis by simp
  qed
qed

lemma placements_disjoint:
  "wf_members ms \<Longrightarrow>
     sorted_wrt (\<lambda>(s, m) (s', m'). s + bitsof m \<le> s') (placements p b ms)"
  by (induction ms arbitrary: b) (auto dest: placements_bounds)

lemma place_aligned: "8 * malign p (Fld f t) dvd place p b (Fld f t)"
  by (simp add: place_def dvd_round_up)

lemma placements_aligned:
  "(s, Fld f t) \<in> set (placements p b ms) \<Longrightarrow> 8 * malign p (Fld f t) dvd s"
  by (induction ms arbitrary: b) (auto simp: place_aligned)

text \<open>A bit-field never straddles a unit of its declared type.\<close>

lemma place_bits_unit:
  assumes "0 < w" and "w \<le> 8 * n"
  shows "place False b (Bits f n w) mod (8 * n) + w \<le> 8 * n"
proof (cases "b mod (8 * n) + w \<le> 8 * n")
  case True
  with assms show ?thesis by (simp add: place_def)
next
  case False
  with assms dvd_round_up [of "8 * n" b] show ?thesis
    by (simp add: place_def dvd_eq_mod_eq_0)
qed

lemma placements_bits_unit:
  "wf_members ms \<Longrightarrow> (s, Bits f n w) \<in> set (placements False b ms) \<Longrightarrow> 0 < w \<Longrightarrow>
     s mod (8 * n) + w \<le> 8 * n"
  by (induction ms arbitrary: b) (auto simp: place_bits_unit)

lemma placements_subset: "(s, m) \<in> set (placements p b ms) \<Longrightarrow> m \<in> set ms"
  by (induction ms arbitrary: b) auto

section \<open>Members found by name\<close>

lemma sizeof_bits:
  assumes "wf_members ms"
  shows "struct_end p 0 ms \<le> 8 * sizeof (CStruct p ms)"
    and "union_end ms \<le> 8 * sizeof (CUnion p ms)"
proof -
  have a: "0 < alignof (CStruct p ms)" "0 < alignof (CUnion p ms)"
    using assms by (simp_all add: pow2_pos)
  show "struct_end p 0 ms \<le> 8 * sizeof (CStruct p ms)"
    unfolding sizeof.simps aligned_struct(2) [OF a(1), symmetric]
    using a(1) by (intro round_up_ge) simp
  show "union_end ms \<le> 8 * sizeof (CUnion p ms)"
    unfolding sizeof.simps aligned_struct(2) [OF a(2), symmetric]
    using a(2) by (intro round_up_ge) simp
qed

lemma find_wf:
  "wf_type t \<Longrightarrow> find_member t g = Some (d, x) \<Longrightarrow> wf_member x"
  "wf_members ms \<Longrightarrow> find_struct p b ms g = Some (d, x) \<Longrightarrow> wf_member x"
  "wf_members ms \<Longrightarrow> find_union ms g = Some (d, x) \<Longrightarrow> wf_member x"
  "wf_member m \<Longrightarrow> find_in m g = Some (d, x) \<Longrightarrow> wf_member x"
  by (induction t g and p b ms g and ms g and m g arbitrary: d x and d x and d x and d x
      rule: find_member_find_struct_find_union_find_in.induct)
     (auto split: option.splits if_splits)

lemma find_bounds:
  "wf_type t \<Longrightarrow> find_member t g = Some (d, x) \<Longrightarrow> d + bitsof x \<le> 8 * sizeof t"
  "wf_members ms \<Longrightarrow> find_struct p b ms g = Some (d, x) \<Longrightarrow>
     b \<le> d \<and> d + bitsof x \<le> struct_end p b ms"
  "wf_members ms \<Longrightarrow> find_union ms g = Some (d, x) \<Longrightarrow> d + bitsof x \<le> union_end ms"
  "wf_member m \<Longrightarrow> find_in m g = Some (d, x) \<Longrightarrow> d + bitsof x \<le> bitsof m"
proof (induction t g and p b ms g and ms g and m g arbitrary: d x and d x and d x and d x
    rule: find_member_find_struct_find_union_find_in.induct)
  case (4 p ms g)
  then have "d + bitsof x \<le> struct_end p 0 ms" by simp
  also have "\<dots> \<le> 8 * sizeof (CStruct p ms)" using 4 by (intro sizeof_bits) simp
  finally show ?case .
next
  case (5 p ms g)
  then have "d + bitsof x \<le> union_end ms" by simp
  also have "\<dots> \<le> 8 * sizeof (CUnion p ms)" using 5 by (intro sizeof_bits) simp
  finally show ?case .
next
  case (7 p b m ms g)
  let ?b = "place p b m + bitsof m"
  have b: "b \<le> place p b m" "?b \<le> struct_end p ?b ms"
    using 7 by (simp_all add: place_ge struct_end_ge)
  show ?case
  proof (cases "find_in m g")
    case None
    with 7 have "?b \<le> d \<and> d + bitsof x \<le> struct_end p ?b ms" by simp
    with b show ?thesis by simp
  next
    case (Some r)
    then obtain e where r: "r = (e, x)" "d = place p b m + e"
      using 7 by (cases r) simp
    with Some 7 have "e + bitsof x \<le> bitsof m" by simp
    with b r show ?thesis by simp
  qed
next
  case (9 m ms g)
  then show ?case by (cases "find_in m g") (auto simp: le_max_iff_disj)
next
  case (10 f t g)
  then show ?case by (auto split: if_splits)
next
  case (11 f n w g)
  then show ?case by (auto split: if_splits)
qed simp_all

text \<open>Structures with many members are written in parts.\<close>

lemma aligns_append [simp]: "aligns (xs @ ys) = max (aligns xs) (aligns ys)"
proof (induction xs)
  case Nil
  have "1 \<le> aligns ys"
  proof (induction ys)
    case (Cons y ys)
    then show ?case by (cases y) (auto simp: le_max_iff_disj)
  qed simp
  then show ?case by simp
next
  case (Cons x xs)
  then show ?case by (cases x) (simp_all add: max.assoc)
qed

lemma struct_end_append [simp]:
  "struct_end p b (xs @ ys) = struct_end p (struct_end p b xs) ys"
  by (induction xs arbitrary: b) simp_all

lemma wf_members_append [simp]: "wf_members (xs @ ys) = (wf_members xs \<and> wf_members ys)"
  by (induction xs) simp_all

lemma find_struct_append [simp]:
  "find_struct p b (xs @ ys) g =
     (case find_struct p b xs g of
        Some r \<Rightarrow> Some r
      | None \<Rightarrow> find_struct p (struct_end p b xs) ys g)"
  by (induction xs arbitrary: b) (simp_all split: option.splits prod.splits)

lemma find_struct_skip:
  "list_all (\<lambda>m. find_in m g = None) ms \<Longrightarrow> find_struct p b ms g = None"
  by (induction ms arbitrary: b) simp_all

end
