(* ===== verification/Vmlinux_Task.thy ===== *)
theory Vmlinux_Task
  imports C_Layout
begin

text \<open>
  Kernel types of \<^verbatim>\<open>bpf/include/vmlinux.h\<close>: the task descriptor and everything embedded in it (read by \<open>runqlat_tracing.c\<close>,
  \<open>memory_reclaim.c\<close>, \<open>memory_reclaim_events.c\<close>, \<open>oom.c\<close>, \<open>perf.c\<close>, \<open>softlockup.c\<close>).
  One definition per C type, in the order the types depend on each other, with its size and
  alignment.
\<close>

definition k___u32 :: ctype where
  "k___u32 = CInt 4"

lemma k___u32_layout [layout_simps]: "alignof k___u32 = 4" "sizeof k___u32 = 4"
  by (simp_all add: k___u32_def layout_simps place_def malign_def round_up_def)

lemma k___u32_wf [wf_simps]: "wf_type k___u32"
  by (simp add: k___u32_def wf_simps pow2_def)

definition k_u32 :: ctype where
  "k_u32 = k___u32"

lemma k_u32_layout [layout_simps]: "alignof k_u32 = 4" "sizeof k_u32 = 4"
  by (simp_all add: k_u32_def layout_simps place_def malign_def round_up_def)

lemma k_u32_wf [wf_simps]: "wf_type k_u32"
  by (simp add: k_u32_def wf_simps pow2_def)

definition k_thread_info :: ctype where
  "k_thread_info = CStruct False
    [Fld ''flags'' (CInt 8),
     Fld ''status'' k_u32]"

lemma k_thread_info_layout [layout_simps]: "alignof k_thread_info = 8" "sizeof k_thread_info = 16"
  by (simp_all add: k_thread_info_def layout_simps place_def malign_def round_up_def)

lemma k_thread_info_wf [wf_simps]: "wf_type k_thread_info"
  by (simp add: k_thread_info_def wf_simps pow2_def)

definition k_atomic_t :: ctype where
  "k_atomic_t = CStruct False
    [Fld ''counter'' (CInt 4)]"

lemma k_atomic_t_layout [layout_simps]: "alignof k_atomic_t = 4" "sizeof k_atomic_t = 4"
  by (simp_all add: k_atomic_t_def layout_simps place_def malign_def round_up_def)

lemma k_atomic_t_wf [wf_simps]: "wf_type k_atomic_t"
  by (simp add: k_atomic_t_def wf_simps pow2_def)

definition k_llist_node :: ctype where
  "k_llist_node = CStruct False
    [Fld ''next'' CPtr]"

lemma k_llist_node_layout [layout_simps]: "alignof k_llist_node = 8" "sizeof k_llist_node = 8"
  by (simp_all add: k_llist_node_def layout_simps place_def malign_def round_up_def)

lemma k_llist_node_wf [wf_simps]: "wf_type k_llist_node"
  by (simp add: k_llist_node_def wf_simps pow2_def)

definition k_load_weight :: ctype where
  "k_load_weight = CStruct False
    [Fld ''weight'' (CInt 8),
     Fld ''inv_weight'' k_u32]"

lemma k_load_weight_layout [layout_simps]: "alignof k_load_weight = 8" "sizeof k_load_weight = 16"
  by (simp_all add: k_load_weight_def layout_simps place_def malign_def round_up_def)

lemma k_load_weight_wf [wf_simps]: "wf_type k_load_weight"
  by (simp add: k_load_weight_def wf_simps pow2_def)

definition k_rb_node :: ctype where
  "k_rb_node = CStruct False
    [Fld ''__rb_parent_color'' (CInt 8),
     Fld ''rb_right'' CPtr,
     Fld ''rb_left'' CPtr]"

lemma k_rb_node_layout [layout_simps]: "alignof k_rb_node = 8" "sizeof k_rb_node = 24"
  by (simp_all add: k_rb_node_def layout_simps place_def malign_def round_up_def)

lemma k_rb_node_wf [wf_simps]: "wf_type k_rb_node"
  by (simp add: k_rb_node_def wf_simps pow2_def)

definition k_list_head :: ctype where
  "k_list_head = CStruct False
    [Fld ''next'' CPtr,
     Fld ''prev'' CPtr]"

lemma k_list_head_layout [layout_simps]: "alignof k_list_head = 8" "sizeof k_list_head = 16"
  by (simp_all add: k_list_head_def layout_simps place_def malign_def round_up_def)

lemma k_list_head_wf [wf_simps]: "wf_type k_list_head"
  by (simp add: k_list_head_def wf_simps pow2_def)

definition k___u64 :: ctype where
  "k___u64 = CInt 8"

lemma k___u64_layout [layout_simps]: "alignof k___u64 = 8" "sizeof k___u64 = 8"
  by (simp_all add: k___u64_def layout_simps place_def malign_def round_up_def)

lemma k___u64_wf [wf_simps]: "wf_type k___u64"
  by (simp add: k___u64_def wf_simps pow2_def)

definition k_u64 :: ctype where
  "k_u64 = k___u64"

lemma k_u64_layout [layout_simps]: "alignof k_u64 = 8" "sizeof k_u64 = 8"
  by (simp_all add: k_u64_def layout_simps place_def malign_def round_up_def)

lemma k_u64_wf [wf_simps]: "wf_type k_u64"
  by (simp add: k_u64_def wf_simps pow2_def)

definition k___s64 :: ctype where
  "k___s64 = CInt 8"

lemma k___s64_layout [layout_simps]: "alignof k___s64 = 8" "sizeof k___s64 = 8"
  by (simp_all add: k___s64_def layout_simps place_def malign_def round_up_def)

lemma k___s64_wf [wf_simps]: "wf_type k___s64"
  by (simp add: k___s64_def wf_simps pow2_def)

definition k_s64 :: ctype where
  "k_s64 = k___s64"

lemma k_s64_layout [layout_simps]: "alignof k_s64 = 8" "sizeof k_s64 = 8"
  by (simp_all add: k_s64_def layout_simps place_def malign_def round_up_def)

lemma k_s64_wf [wf_simps]: "wf_type k_s64"
  by (simp add: k_s64_def wf_simps pow2_def)

definition k_sched_statistics :: ctype where
  "k_sched_statistics = CStruct False
    [Fld ''wait_start'' k_u64,
     Fld ''wait_max'' k_u64,
     Fld ''wait_count'' k_u64,
     Fld ''wait_sum'' k_u64,
     Fld ''iowait_count'' k_u64,
     Fld ''iowait_sum'' k_u64,
     Fld ''interfere_start'' k_u64,
     Fld ''interfere_sum'' k_u64,
     Fld ''sleep_start'' k_u64,
     Fld ''sleep_max'' k_u64,
     Fld ''sum_sleep_runtime'' k_s64,
     Fld ''block_start'' k_u64,
     Fld ''block_max'' k_u64,
     Fld ''exec_max'' k_u64,
     Fld ''slice_max'' k_u64,
     Fld ''nr_migrations_cold'' k_u64,
     Fld ''nr_failed_migrations_affine'' k_u64,
     Fld ''nr_failed_migrations_running'' k_u64,
     Fld ''nr_failed_migrations_hot'' k_u64,
     Fld ''nr_forced_migrations'' k_u64,
     Fld ''nr_wakeups'' k_u64,
     Fld ''nr_wakeups_sync'' k_u64,
     Fld ''nr_wakeups_migrate'' k_u64,
     Fld ''nr_wakeups_local'' k_u64,
     Fld ''nr_wakeups_remote'' k_u64,
     Fld ''nr_wakeups_affine'' k_u64,
     Fld ''nr_wakeups_affine_attempts'' k_u64,
     Fld ''nr_wakeups_passive'' k_u64,
     Fld ''nr_wakeups_idle'' k_u64]"

lemma k_sched_statistics_layout [layout_simps]: "alignof k_sched_statistics = 8" "sizeof k_sched_statistics = 232"
  by (simp_all add: k_sched_statistics_def layout_simps place_def malign_def round_up_def)

lemma k_sched_statistics_wf [wf_simps]: "wf_type k_sched_statistics"
  by (simp add: k_sched_statistics_def wf_simps pow2_def)

definition k_util_est :: ctype where
  "k_util_est = CStruct False
    [Fld ''enqueued'' (CInt 4),
     Fld ''ewma'' (CInt 4)]"

lemma k_util_est_layout [layout_simps]: "alignof k_util_est = 4" "sizeof k_util_est = 8"
  by (simp_all add: k_util_est_def layout_simps place_def malign_def round_up_def)

lemma k_util_est_wf [wf_simps]: "wf_type k_util_est"
  by (simp add: k_util_est_def wf_simps pow2_def)

definition k_sched_avg :: ctype where
  "k_sched_avg = CStruct False
    [Fld ''last_update_time'' k_u64,
     Fld ''load_sum'' k_u64,
     Fld ''runnable_load_sum'' k_u64,
     Fld ''util_sum'' k_u32,
     Fld ''period_contrib'' k_u32,
     Fld ''load_avg'' (CInt 8),
     Fld ''runnable_load_avg'' (CInt 8),
     Fld ''util_avg'' (CInt 8),
     Fld ''util_est'' k_util_est]"

lemma k_sched_avg_layout [layout_simps]: "alignof k_sched_avg = 8" "sizeof k_sched_avg = 64"
  by (simp_all add: k_sched_avg_def layout_simps place_def malign_def round_up_def)

lemma k_sched_avg_wf [wf_simps]: "wf_type k_sched_avg"
  by (simp add: k_sched_avg_def wf_simps pow2_def)

definition k_sched_entity :: ctype where
  "k_sched_entity = CStruct False
    [Fld ''load'' k_load_weight,
     Fld ''runnable_weight'' (CInt 8),
     Fld ''run_node'' k_rb_node,
     Fld ''group_node'' k_list_head,
     Fld ''on_rq'' (CInt 4),
     Fld ''exec_start'' k_u64,
     Fld ''sum_exec_runtime'' k_u64,
     Fld ''vruntime'' k_u64,
     Fld ''prev_sum_exec_runtime'' k_u64,
     Fld ''nr_migrations'' k_u64,
     Fld ''statistics'' k_sched_statistics,
     Fld ''depth'' (CInt 4),
     Fld ''parent'' CPtr,
     Fld ''cfs_rq'' CPtr,
     Fld ''my_q'' CPtr,
     Bits '''' 8 64,
     Fld ''avg'' k_sched_avg,
     Fld ''rh_reserved1'' (CInt 8),
     Fld ''rh_reserved2'' (CInt 8),
     Fld ''rh_reserved3'' (CInt 8),
     Fld ''rh_reserved4'' (CInt 8),
     Bits '''' 8 64,
     Bits '''' 8 64,
     Bits '''' 8 64,
     Bits '''' 8 64]"

lemma k_sched_entity_layout [layout_simps]: "alignof k_sched_entity = 8" "sizeof k_sched_entity = 512"
  by (simp_all add: k_sched_entity_def layout_simps place_def malign_def round_up_def)

lemma k_sched_entity_wf [wf_simps]: "wf_type k_sched_entity"
  by (simp add: k_sched_entity_def wf_simps pow2_def)

definition k_sched_rt_entity :: ctype where
  "k_sched_rt_entity = CStruct False
    [Fld ''run_list'' k_list_head,
     Fld ''timeout'' (CInt 8),
     Fld ''watchdog_stamp'' (CInt 8),
     Fld ''time_slice'' (CInt 4),
     Fld ''on_rq'' (CInt 2),
     Fld ''on_list'' (CInt 2),
     Fld ''back'' CPtr,
     Fld ''parent'' CPtr,
     Fld ''rt_rq'' CPtr,
     Fld ''my_q'' CPtr]"

lemma k_sched_rt_entity_layout [layout_simps]: "alignof k_sched_rt_entity = 8" "sizeof k_sched_rt_entity = 72"
  by (simp_all add: k_sched_rt_entity_def layout_simps place_def malign_def round_up_def)

lemma k_sched_rt_entity_wf [wf_simps]: "wf_type k_sched_rt_entity"
  by (simp add: k_sched_rt_entity_def wf_simps pow2_def)

definition k_ktime_t :: ctype where
  "k_ktime_t = k_s64"

lemma k_ktime_t_layout [layout_simps]: "alignof k_ktime_t = 8" "sizeof k_ktime_t = 8"
  by (simp_all add: k_ktime_t_def layout_simps place_def malign_def round_up_def)

lemma k_ktime_t_wf [wf_simps]: "wf_type k_ktime_t"
  by (simp add: k_ktime_t_def wf_simps pow2_def)

definition k_timerqueue_node :: ctype where
  "k_timerqueue_node = CStruct False
    [Fld ''node'' k_rb_node,
     Fld ''expires'' k_ktime_t]"

lemma k_timerqueue_node_layout [layout_simps]: "alignof k_timerqueue_node = 8" "sizeof k_timerqueue_node = 32"
  by (simp_all add: k_timerqueue_node_def layout_simps place_def malign_def round_up_def)

lemma k_timerqueue_node_wf [wf_simps]: "wf_type k_timerqueue_node"
  by (simp add: k_timerqueue_node_def wf_simps pow2_def)

definition k___u8 :: ctype where
  "k___u8 = CInt 1"

lemma k___u8_layout [layout_simps]: "alignof k___u8 = 1" "sizeof k___u8 = 1"
  by (simp_all add: k___u8_def layout_simps place_def malign_def round_up_def)

lemma k___u8_wf [wf_simps]: "wf_type k___u8"
  by (simp add: k___u8_def wf_simps pow2_def)

definition k_u8 :: ctype where
  "k_u8 = k___u8"

lemma k_u8_layout [layout_simps]: "alignof k_u8 = 1" "sizeof k_u8 = 1"
  by (simp_all add: k_u8_def layout_simps place_def malign_def round_up_def)

lemma k_u8_wf [wf_simps]: "wf_type k_u8"
  by (simp add: k_u8_def wf_simps pow2_def)

definition k___kernel_ulong_t :: ctype where
  "k___kernel_ulong_t = CInt 8"

lemma k___kernel_ulong_t_layout [layout_simps]: "alignof k___kernel_ulong_t = 8" "sizeof k___kernel_ulong_t = 8"
  by (simp_all add: k___kernel_ulong_t_def layout_simps place_def malign_def round_up_def)

lemma k___kernel_ulong_t_wf [wf_simps]: "wf_type k___kernel_ulong_t"
  by (simp add: k___kernel_ulong_t_def wf_simps pow2_def)

definition k___kernel_size_t :: ctype where
  "k___kernel_size_t = k___kernel_ulong_t"

lemma k___kernel_size_t_layout [layout_simps]: "alignof k___kernel_size_t = 8" "sizeof k___kernel_size_t = 8"
  by (simp_all add: k___kernel_size_t_def layout_simps place_def malign_def round_up_def)

lemma k___kernel_size_t_wf [wf_simps]: "wf_type k___kernel_size_t"
  by (simp add: k___kernel_size_t_def wf_simps pow2_def)

definition k_size_t :: ctype where
  "k_size_t = k___kernel_size_t"

lemma k_size_t_layout [layout_simps]: "alignof k_size_t = 8" "sizeof k_size_t = 8"
  by (simp_all add: k_size_t_def layout_simps place_def malign_def round_up_def)

lemma k_size_t_wf [wf_simps]: "wf_type k_size_t"
  by (simp add: k_size_t_def wf_simps pow2_def)

definition k_hrtimer :: ctype where
  "k_hrtimer = CStruct False
    [Fld ''node'' k_timerqueue_node,
     Fld ''_softexpires'' k_ktime_t,
     Fld ''function'' CPtr,
     Fld ''base'' CPtr,
     Fld ''state'' k_u8,
     Fld ''is_rel'' k_u8,
     Fld ''is_soft'' k_u8,
     Fld ''hrtimer_size_rh'' k_size_t,
     Fld ''hrtimer_rh'' CPtr]"

lemma k_hrtimer_layout [layout_simps]: "alignof k_hrtimer = 8" "sizeof k_hrtimer = 80"
  by (simp_all add: k_hrtimer_def layout_simps place_def malign_def round_up_def)

lemma k_hrtimer_wf [wf_simps]: "wf_type k_hrtimer"
  by (simp add: k_hrtimer_def wf_simps pow2_def)

definition k_sched_dl_entity :: ctype where
  "k_sched_dl_entity = CStruct False
    [Fld ''rb_node'' k_rb_node,
     Fld ''dl_runtime'' k_u64,
     Fld ''dl_deadline'' k_u64,
     Fld ''dl_period'' k_u64,
     Fld ''dl_bw'' k_u64,
     Fld ''dl_density'' k_u64,
     Fld ''runtime'' k_s64,
     Fld ''deadline'' k_u64,
     Fld ''flags'' (CInt 4),
     Bits ''dl_throttled'' 4 1,
     Bits ''dl_boosted'' 4 1,
     Bits ''dl_yielded'' 4 1,
     Bits ''dl_non_contending'' 4 1,
     Bits ''dl_overrun'' 4 1,
     Fld ''dl_timer'' k_hrtimer,
     Fld ''inactive_timer'' k_hrtimer]"

lemma k_sched_dl_entity_layout [layout_simps]: "alignof k_sched_dl_entity = 8" "sizeof k_sched_dl_entity = 248"
  by (simp_all add: k_sched_dl_entity_def layout_simps place_def malign_def round_up_def)

lemma k_sched_dl_entity_wf [wf_simps]: "wf_type k_sched_dl_entity"
  by (simp add: k_sched_dl_entity_def wf_simps pow2_def)

definition k_hlist_head :: ctype where
  "k_hlist_head = CStruct False
    [Fld ''first'' CPtr]"

lemma k_hlist_head_layout [layout_simps]: "alignof k_hlist_head = 8" "sizeof k_hlist_head = 8"
  by (simp_all add: k_hlist_head_def layout_simps place_def malign_def round_up_def)

lemma k_hlist_head_wf [wf_simps]: "wf_type k_hlist_head"
  by (simp add: k_hlist_head_def wf_simps pow2_def)

definition k_cpumask :: ctype where
  "k_cpumask = CStruct False
    [Fld ''bits'' (CArr (CInt 8) 128)]"

lemma k_cpumask_layout [layout_simps]: "alignof k_cpumask = 8" "sizeof k_cpumask = 1024"
  by (simp_all add: k_cpumask_def layout_simps place_def malign_def round_up_def)

lemma k_cpumask_wf [wf_simps]: "wf_type k_cpumask"
  by (simp add: k_cpumask_def wf_simps pow2_def)

definition k_cpumask_t :: ctype where
  "k_cpumask_t = k_cpumask"

lemma k_cpumask_t_layout [layout_simps]: "alignof k_cpumask_t = 8" "sizeof k_cpumask_t = 1024"
  by (simp_all add: k_cpumask_t_def layout_simps place_def malign_def round_up_def)

lemma k_cpumask_t_wf [wf_simps]: "wf_type k_cpumask_t"
  by (simp add: k_cpumask_t_def wf_simps pow2_def)

definition k_sched_info :: ctype where
  "k_sched_info = CStruct False
    [Fld ''pcount'' (CInt 8),
     Fld ''run_delay'' (CInt 8),
     Fld ''last_arrival'' (CInt 8),
     Fld ''last_queued'' (CInt 8)]"

lemma k_sched_info_layout [layout_simps]: "alignof k_sched_info = 8" "sizeof k_sched_info = 32"
  by (simp_all add: k_sched_info_def layout_simps place_def malign_def round_up_def)

lemma k_sched_info_wf [wf_simps]: "wf_type k_sched_info"
  by (simp add: k_sched_info_def wf_simps pow2_def)

definition k_plist_node :: ctype where
  "k_plist_node = CStruct False
    [Fld ''prio'' (CInt 4),
     Fld ''prio_list'' k_list_head,
     Fld ''node_list'' k_list_head]"

lemma k_plist_node_layout [layout_simps]: "alignof k_plist_node = 8" "sizeof k_plist_node = 40"
  by (simp_all add: k_plist_node_def layout_simps place_def malign_def round_up_def)

lemma k_plist_node_wf [wf_simps]: "wf_type k_plist_node"
  by (simp add: k_plist_node_def wf_simps pow2_def)

definition k_vmacache :: ctype where
  "k_vmacache = CStruct False
    [Fld ''seqnum'' k_u64,
     Fld ''vmas'' (CArr CPtr 4)]"

lemma k_vmacache_layout [layout_simps]: "alignof k_vmacache = 8" "sizeof k_vmacache = 40"
  by (simp_all add: k_vmacache_def layout_simps place_def malign_def round_up_def)

lemma k_vmacache_wf [wf_simps]: "wf_type k_vmacache"
  by (simp add: k_vmacache_def wf_simps pow2_def)

definition k_task_rss_stat :: ctype where
  "k_task_rss_stat = CStruct False
    [Fld ''events'' (CInt 4),
     Fld ''count'' (CArr (CInt 4) 4)]"

lemma k_task_rss_stat_layout [layout_simps]: "alignof k_task_rss_stat = 4" "sizeof k_task_rss_stat = 20"
  by (simp_all add: k_task_rss_stat_def layout_simps place_def malign_def round_up_def)

lemma k_task_rss_stat_wf [wf_simps]: "wf_type k_task_rss_stat"
  by (simp add: k_task_rss_stat_def wf_simps pow2_def)

definition k___kernel_clockid_t :: ctype where
  "k___kernel_clockid_t = CInt 4"

lemma k___kernel_clockid_t_layout [layout_simps]: "alignof k___kernel_clockid_t = 4" "sizeof k___kernel_clockid_t = 4"
  by (simp_all add: k___kernel_clockid_t_def layout_simps place_def malign_def round_up_def)

lemma k___kernel_clockid_t_wf [wf_simps]: "wf_type k___kernel_clockid_t"
  by (simp add: k___kernel_clockid_t_def wf_simps pow2_def)

definition k_clockid_t :: ctype where
  "k_clockid_t = k___kernel_clockid_t"

lemma k_clockid_t_layout [layout_simps]: "alignof k_clockid_t = 4" "sizeof k_clockid_t = 4"
  by (simp_all add: k_clockid_t_def layout_simps place_def malign_def round_up_def)

lemma k_clockid_t_wf [wf_simps]: "wf_type k_clockid_t"
  by (simp add: k_clockid_t_def wf_simps pow2_def)

definition k_restart_block :: ctype where
  "k_restart_block = CStruct False
    [Fld ''fn'' CPtr,
     Fld '''' (CUnion False [Fld ''futex'' (CStruct False [Fld ''uaddr'' CPtr, Fld ''val'' k_u32, Fld ''flags'' k_u32, Fld ''bitset'' k_u32, Fld ''time'' k_u64, Fld ''uaddr2'' CPtr]), Fld ''nanosleep'' (CStruct False [Fld ''clockid'' k_clockid_t, Fld ''type'' (CInt 4), Fld '''' (CUnion False [Fld ''rmtp'' CPtr, Fld ''compat_rmtp'' CPtr]), Fld ''expires'' k_u64]), Fld ''poll'' (CStruct False [Fld ''ufds'' CPtr, Fld ''nfds'' (CInt 4), Fld ''has_timeout'' (CInt 4), Fld ''tv_sec'' (CInt 8), Fld ''tv_nsec'' (CInt 8)])])]"

lemma k_restart_block_layout [layout_simps]: "alignof k_restart_block = 8" "sizeof k_restart_block = 48"
  by (simp_all add: k_restart_block_def layout_simps place_def malign_def round_up_def)

lemma k_restart_block_wf [wf_simps]: "wf_type k_restart_block"
  by (simp add: k_restart_block_def wf_simps pow2_def)

definition k___kernel_pid_t :: ctype where
  "k___kernel_pid_t = CInt 4"

lemma k___kernel_pid_t_layout [layout_simps]: "alignof k___kernel_pid_t = 4" "sizeof k___kernel_pid_t = 4"
  by (simp_all add: k___kernel_pid_t_def layout_simps place_def malign_def round_up_def)

lemma k___kernel_pid_t_wf [wf_simps]: "wf_type k___kernel_pid_t"
  by (simp add: k___kernel_pid_t_def wf_simps pow2_def)

definition k_pid_t :: ctype where
  "k_pid_t = k___kernel_pid_t"

lemma k_pid_t_layout [layout_simps]: "alignof k_pid_t = 4" "sizeof k_pid_t = 4"
  by (simp_all add: k_pid_t_def layout_simps place_def malign_def round_up_def)

lemma k_pid_t_wf [wf_simps]: "wf_type k_pid_t"
  by (simp add: k_pid_t_def wf_simps pow2_def)

definition k___u16 :: ctype where
  "k___u16 = CInt 2"

lemma k___u16_layout [layout_simps]: "alignof k___u16 = 2" "sizeof k___u16 = 2"
  by (simp_all add: k___u16_def layout_simps place_def malign_def round_up_def)

lemma k___u16_wf [wf_simps]: "wf_type k___u16"
  by (simp add: k___u16_def wf_simps pow2_def)

definition k_u16 :: ctype where
  "k_u16 = k___u16"

lemma k_u16_layout [layout_simps]: "alignof k_u16 = 2" "sizeof k_u16 = 2"
  by (simp_all add: k_u16_def layout_simps place_def malign_def round_up_def)

lemma k_u16_wf [wf_simps]: "wf_type k_u16"
  by (simp add: k_u16_def wf_simps pow2_def)

definition k_qspinlock :: ctype where
  "k_qspinlock = CStruct False
    [Fld '''' (CUnion False [Fld ''val'' k_atomic_t, Fld '''' (CStruct False [Fld ''locked'' k_u8, Fld ''pending'' k_u8]), Fld '''' (CStruct False [Fld ''locked_pending'' k_u16, Fld ''tail'' k_u16])])]"

lemma k_qspinlock_layout [layout_simps]: "alignof k_qspinlock = 4" "sizeof k_qspinlock = 4"
  by (simp_all add: k_qspinlock_def layout_simps place_def malign_def round_up_def)

lemma k_qspinlock_wf [wf_simps]: "wf_type k_qspinlock"
  by (simp add: k_qspinlock_def wf_simps pow2_def)

definition k_arch_spinlock_t :: ctype where
  "k_arch_spinlock_t = k_qspinlock"

lemma k_arch_spinlock_t_layout [layout_simps]: "alignof k_arch_spinlock_t = 4" "sizeof k_arch_spinlock_t = 4"
  by (simp_all add: k_arch_spinlock_t_def layout_simps place_def malign_def round_up_def)

lemma k_arch_spinlock_t_wf [wf_simps]: "wf_type k_arch_spinlock_t"
  by (simp add: k_arch_spinlock_t_def wf_simps pow2_def)

definition k_raw_spinlock :: ctype where
  "k_raw_spinlock = CStruct False
    [Fld ''raw_lock'' k_arch_spinlock_t]"

lemma k_raw_spinlock_layout [layout_simps]: "alignof k_raw_spinlock = 4" "sizeof k_raw_spinlock = 4"
  by (simp_all add: k_raw_spinlock_def layout_simps place_def malign_def round_up_def)

lemma k_raw_spinlock_wf [wf_simps]: "wf_type k_raw_spinlock"
  by (simp add: k_raw_spinlock_def wf_simps pow2_def)

definition k_raw_spinlock_t :: ctype where
  "k_raw_spinlock_t = k_raw_spinlock"

lemma k_raw_spinlock_t_layout [layout_simps]: "alignof k_raw_spinlock_t = 4" "sizeof k_raw_spinlock_t = 4"
  by (simp_all add: k_raw_spinlock_t_def layout_simps place_def malign_def round_up_def)

lemma k_raw_spinlock_t_wf [wf_simps]: "wf_type k_raw_spinlock_t"
  by (simp add: k_raw_spinlock_t_def wf_simps pow2_def)

definition k_prev_cputime :: ctype where
  "k_prev_cputime = CStruct False
    [Fld ''utime'' k_u64,
     Fld ''stime'' k_u64,
     Fld ''lock'' k_raw_spinlock_t]"

lemma k_prev_cputime_layout [layout_simps]: "alignof k_prev_cputime = 8" "sizeof k_prev_cputime = 24"
  by (simp_all add: k_prev_cputime_def layout_simps place_def malign_def round_up_def)

lemma k_prev_cputime_wf [wf_simps]: "wf_type k_prev_cputime"
  by (simp add: k_prev_cputime_def wf_simps pow2_def)

definition k_seqcount :: ctype where
  "k_seqcount = CStruct False
    [Fld ''sequence'' (CInt 4)]"

lemma k_seqcount_layout [layout_simps]: "alignof k_seqcount = 4" "sizeof k_seqcount = 4"
  by (simp_all add: k_seqcount_def layout_simps place_def malign_def round_up_def)

lemma k_seqcount_wf [wf_simps]: "wf_type k_seqcount"
  by (simp add: k_seqcount_def wf_simps pow2_def)

definition k_seqcount_t :: ctype where
  "k_seqcount_t = k_seqcount"

lemma k_seqcount_t_layout [layout_simps]: "alignof k_seqcount_t = 4" "sizeof k_seqcount_t = 4"
  by (simp_all add: k_seqcount_t_def layout_simps place_def malign_def round_up_def)

lemma k_seqcount_t_wf [wf_simps]: "wf_type k_seqcount_t"
  by (simp add: k_seqcount_t_def wf_simps pow2_def)

definition k_vtime :: ctype where
  "k_vtime = CStruct False
    [Fld ''seqcount'' k_seqcount_t,
     Fld ''starttime'' (CInt 8),
     Fld ''state'' (CInt 4),
     Fld ''utime'' k_u64,
     Fld ''stime'' k_u64,
     Fld ''gtime'' k_u64]"

lemma k_vtime_layout [layout_simps]: "alignof k_vtime = 8" "sizeof k_vtime = 48"
  by (simp_all add: k_vtime_def layout_simps place_def malign_def round_up_def)

lemma k_vtime_wf [wf_simps]: "wf_type k_vtime"
  by (simp add: k_vtime_def wf_simps pow2_def)

definition k_task_cputime :: ctype where
  "k_task_cputime = CStruct False
    [Fld ''utime'' k_u64,
     Fld ''stime'' k_u64,
     Fld ''sum_exec_runtime'' (CInt 8)]"

lemma k_task_cputime_layout [layout_simps]: "alignof k_task_cputime = 8" "sizeof k_task_cputime = 24"
  by (simp_all add: k_task_cputime_def layout_simps place_def malign_def round_up_def)

lemma k_task_cputime_wf [wf_simps]: "wf_type k_task_cputime"
  by (simp add: k_task_cputime_def wf_simps pow2_def)

definition k_sysv_sem :: ctype where
  "k_sysv_sem = CStruct False
    [Fld ''undo_list'' CPtr]"

lemma k_sysv_sem_layout [layout_simps]: "alignof k_sysv_sem = 8" "sizeof k_sysv_sem = 8"
  by (simp_all add: k_sysv_sem_def layout_simps place_def malign_def round_up_def)

lemma k_sysv_sem_wf [wf_simps]: "wf_type k_sysv_sem"
  by (simp add: k_sysv_sem_def wf_simps pow2_def)

definition k_sysv_shm :: ctype where
  "k_sysv_shm = CStruct False
    [Fld ''shm_clist'' k_list_head]"

lemma k_sysv_shm_layout [layout_simps]: "alignof k_sysv_shm = 8" "sizeof k_sysv_shm = 16"
  by (simp_all add: k_sysv_shm_def layout_simps place_def malign_def round_up_def)

lemma k_sysv_shm_wf [wf_simps]: "wf_type k_sysv_shm"
  by (simp add: k_sysv_shm_def wf_simps pow2_def)

definition k_sigset_t :: ctype where
  "k_sigset_t = CStruct False
    [Fld ''sig'' (CArr (CInt 8) 1)]"

lemma k_sigset_t_layout [layout_simps]: "alignof k_sigset_t = 8" "sizeof k_sigset_t = 8"
  by (simp_all add: k_sigset_t_def layout_simps place_def malign_def round_up_def)

lemma k_sigset_t_wf [wf_simps]: "wf_type k_sigset_t"
  by (simp add: k_sigset_t_def wf_simps pow2_def)

definition k_sigpending :: ctype where
  "k_sigpending = CStruct False
    [Fld ''list'' k_list_head,
     Fld ''signal'' k_sigset_t]"

lemma k_sigpending_layout [layout_simps]: "alignof k_sigpending = 8" "sizeof k_sigpending = 24"
  by (simp_all add: k_sigpending_def layout_simps place_def malign_def round_up_def)

lemma k_sigpending_wf [wf_simps]: "wf_type k_sigpending"
  by (simp add: k_sigpending_def wf_simps pow2_def)

definition k___kernel_uid32_t :: ctype where
  "k___kernel_uid32_t = CInt 4"

lemma k___kernel_uid32_t_layout [layout_simps]: "alignof k___kernel_uid32_t = 4" "sizeof k___kernel_uid32_t = 4"
  by (simp_all add: k___kernel_uid32_t_def layout_simps place_def malign_def round_up_def)

lemma k___kernel_uid32_t_wf [wf_simps]: "wf_type k___kernel_uid32_t"
  by (simp add: k___kernel_uid32_t_def wf_simps pow2_def)

definition k_uid_t :: ctype where
  "k_uid_t = k___kernel_uid32_t"

lemma k_uid_t_layout [layout_simps]: "alignof k_uid_t = 4" "sizeof k_uid_t = 4"
  by (simp_all add: k_uid_t_def layout_simps place_def malign_def round_up_def)

lemma k_uid_t_wf [wf_simps]: "wf_type k_uid_t"
  by (simp add: k_uid_t_def wf_simps pow2_def)

definition k_kuid_t :: ctype where
  "k_kuid_t = CStruct False
    [Fld ''val'' k_uid_t]"

lemma k_kuid_t_layout [layout_simps]: "alignof k_kuid_t = 4" "sizeof k_kuid_t = 4"
  by (simp_all add: k_kuid_t_def layout_simps place_def malign_def round_up_def)

lemma k_kuid_t_wf [wf_simps]: "wf_type k_kuid_t"
  by (simp add: k_kuid_t_def wf_simps pow2_def)

definition k_seccomp :: ctype where
  "k_seccomp = CStruct False
    [Fld ''mode'' (CInt 4),
     Fld ''filter'' CPtr]"

lemma k_seccomp_layout [layout_simps]: "alignof k_seccomp = 8" "sizeof k_seccomp = 16"
  by (simp_all add: k_seccomp_def layout_simps place_def malign_def round_up_def)

lemma k_seccomp_wf [wf_simps]: "wf_type k_seccomp"
  by (simp add: k_seccomp_def wf_simps pow2_def)

definition k_spinlock :: ctype where
  "k_spinlock = CStruct False
    [Fld '''' (CUnion False [Fld ''rlock'' k_raw_spinlock])]"

lemma k_spinlock_layout [layout_simps]: "alignof k_spinlock = 4" "sizeof k_spinlock = 4"
  by (simp_all add: k_spinlock_def layout_simps place_def malign_def round_up_def)

lemma k_spinlock_wf [wf_simps]: "wf_type k_spinlock"
  by (simp add: k_spinlock_def wf_simps pow2_def)

definition k_spinlock_t :: ctype where
  "k_spinlock_t = k_spinlock"

lemma k_spinlock_t_layout [layout_simps]: "alignof k_spinlock_t = 4" "sizeof k_spinlock_t = 4"
  by (simp_all add: k_spinlock_t_def layout_simps place_def malign_def round_up_def)

lemma k_spinlock_t_wf [wf_simps]: "wf_type k_spinlock_t"
  by (simp add: k_spinlock_t_def wf_simps pow2_def)

definition k_wake_q_node :: ctype where
  "k_wake_q_node = CStruct False
    [Fld ''next'' CPtr]"

lemma k_wake_q_node_layout [layout_simps]: "alignof k_wake_q_node = 8" "sizeof k_wake_q_node = 8"
  by (simp_all add: k_wake_q_node_def layout_simps place_def malign_def round_up_def)

lemma k_wake_q_node_wf [wf_simps]: "wf_type k_wake_q_node"
  by (simp add: k_wake_q_node_def wf_simps pow2_def)

definition k_rb_root :: ctype where
  "k_rb_root = CStruct False
    [Fld ''rb_node'' CPtr]"

lemma k_rb_root_layout [layout_simps]: "alignof k_rb_root = 8" "sizeof k_rb_root = 8"
  by (simp_all add: k_rb_root_def layout_simps place_def malign_def round_up_def)

lemma k_rb_root_wf [wf_simps]: "wf_type k_rb_root"
  by (simp add: k_rb_root_def wf_simps pow2_def)

definition k_rb_root_cached :: ctype where
  "k_rb_root_cached = CStruct False
    [Fld ''rb_root'' k_rb_root,
     Fld ''rb_leftmost'' CPtr]"

lemma k_rb_root_cached_layout [layout_simps]: "alignof k_rb_root_cached = 8" "sizeof k_rb_root_cached = 16"
  by (simp_all add: k_rb_root_cached_def layout_simps place_def malign_def round_up_def)

lemma k_rb_root_cached_wf [wf_simps]: "wf_type k_rb_root_cached"
  by (simp add: k_rb_root_cached_def wf_simps pow2_def)

definition k_task_io_accounting :: ctype where
  "k_task_io_accounting = CStruct False
    [Fld ''rchar'' k_u64,
     Fld ''wchar'' k_u64,
     Fld ''syscr'' k_u64,
     Fld ''syscw'' k_u64,
     Fld ''read_bytes'' k_u64,
     Fld ''write_bytes'' k_u64,
     Fld ''cancelled_write_bytes'' k_u64]"

lemma k_task_io_accounting_layout [layout_simps]: "alignof k_task_io_accounting = 8" "sizeof k_task_io_accounting = 56"
  by (simp_all add: k_task_io_accounting_def layout_simps place_def malign_def round_up_def)

lemma k_task_io_accounting_wf [wf_simps]: "wf_type k_task_io_accounting"
  by (simp add: k_task_io_accounting_def wf_simps pow2_def)

definition k_nodemask_t :: ctype where
  "k_nodemask_t = CStruct False
    [Fld ''bits'' (CArr (CInt 8) 16)]"

lemma k_nodemask_t_layout [layout_simps]: "alignof k_nodemask_t = 8" "sizeof k_nodemask_t = 128"
  by (simp_all add: k_nodemask_t_def layout_simps place_def malign_def round_up_def)

lemma k_nodemask_t_wf [wf_simps]: "wf_type k_nodemask_t"
  by (simp add: k_nodemask_t_def wf_simps pow2_def)

definition k_atomic64_t :: ctype where
  "k_atomic64_t = CStruct False
    [Fld ''counter'' (CInt 8)]"

lemma k_atomic64_t_layout [layout_simps]: "alignof k_atomic64_t = 8" "sizeof k_atomic64_t = 8"
  by (simp_all add: k_atomic64_t_def layout_simps place_def malign_def round_up_def)

lemma k_atomic64_t_wf [wf_simps]: "wf_type k_atomic64_t"
  by (simp add: k_atomic64_t_def wf_simps pow2_def)

definition k_atomic_long_t :: ctype where
  "k_atomic_long_t = k_atomic64_t"

lemma k_atomic_long_t_layout [layout_simps]: "alignof k_atomic_long_t = 8" "sizeof k_atomic_long_t = 8"
  by (simp_all add: k_atomic_long_t_def layout_simps place_def malign_def round_up_def)

lemma k_atomic_long_t_wf [wf_simps]: "wf_type k_atomic_long_t"
  by (simp add: k_atomic_long_t_def wf_simps pow2_def)

definition k_optimistic_spin_queue :: ctype where
  "k_optimistic_spin_queue = CStruct False
    [Fld ''tail'' k_atomic_t]"

lemma k_optimistic_spin_queue_layout [layout_simps]: "alignof k_optimistic_spin_queue = 4" "sizeof k_optimistic_spin_queue = 4"
  by (simp_all add: k_optimistic_spin_queue_def layout_simps place_def malign_def round_up_def)

lemma k_optimistic_spin_queue_wf [wf_simps]: "wf_type k_optimistic_spin_queue"
  by (simp add: k_optimistic_spin_queue_def wf_simps pow2_def)

definition k_mutex :: ctype where
  "k_mutex = CStruct False
    [Fld ''owner'' k_atomic_long_t,
     Fld ''wait_lock'' k_spinlock_t,
     Fld ''osq'' k_optimistic_spin_queue,
     Fld ''wait_list'' k_list_head]"

lemma k_mutex_layout [layout_simps]: "alignof k_mutex = 8" "sizeof k_mutex = 32"
  by (simp_all add: k_mutex_def layout_simps place_def malign_def round_up_def)

lemma k_mutex_wf [wf_simps]: "wf_type k_mutex"
  by (simp add: k_mutex_def wf_simps pow2_def)

definition k_callback_head :: ctype where
  "k_callback_head = CStruct False
    [Fld ''next'' CPtr,
     Fld ''func'' CPtr]"

lemma k_callback_head_layout [layout_simps]: "alignof k_callback_head = 8" "sizeof k_callback_head = 16"
  by (simp_all add: k_callback_head_def layout_simps place_def malign_def round_up_def)

lemma k_callback_head_wf [wf_simps]: "wf_type k_callback_head"
  by (simp add: k_callback_head_def wf_simps pow2_def)

definition k_arch_tlbflush_unmap_batch :: ctype where
  "k_arch_tlbflush_unmap_batch = CStruct False
    [Fld ''cpumask'' k_cpumask]"

lemma k_arch_tlbflush_unmap_batch_layout [layout_simps]: "alignof k_arch_tlbflush_unmap_batch = 8" "sizeof k_arch_tlbflush_unmap_batch = 1024"
  by (simp_all add: k_arch_tlbflush_unmap_batch_def layout_simps place_def malign_def round_up_def)

lemma k_arch_tlbflush_unmap_batch_wf [wf_simps]: "wf_type k_arch_tlbflush_unmap_batch"
  by (simp add: k_arch_tlbflush_unmap_batch_def wf_simps pow2_def)

definition k_tlbflush_unmap_batch :: ctype where
  "k_tlbflush_unmap_batch = CStruct False
    [Fld ''arch'' k_arch_tlbflush_unmap_batch,
     Fld ''flush_required'' (CInt 1),
     Fld ''writable'' (CInt 1)]"

lemma k_tlbflush_unmap_batch_layout [layout_simps]: "alignof k_tlbflush_unmap_batch = 8" "sizeof k_tlbflush_unmap_batch = 1032"
  by (simp_all add: k_tlbflush_unmap_batch_def layout_simps place_def malign_def round_up_def)

lemma k_tlbflush_unmap_batch_wf [wf_simps]: "wf_type k_tlbflush_unmap_batch"
  by (simp add: k_tlbflush_unmap_batch_def wf_simps pow2_def)

definition k_page_frag :: ctype where
  "k_page_frag = CStruct False
    [Fld ''page'' CPtr,
     Fld ''offset'' k___u32,
     Fld ''size'' k___u32]"

lemma k_page_frag_layout [layout_simps]: "alignof k_page_frag = 8" "sizeof k_page_frag = 16"
  by (simp_all add: k_page_frag_def layout_simps place_def malign_def round_up_def)

lemma k_page_frag_wf [wf_simps]: "wf_type k_page_frag"
  by (simp add: k_page_frag_def wf_simps pow2_def)

definition k_gfp_t :: ctype where
  "k_gfp_t = CInt 4"

lemma k_gfp_t_layout [layout_simps]: "alignof k_gfp_t = 4" "sizeof k_gfp_t = 4"
  by (simp_all add: k_gfp_t_def layout_simps place_def malign_def round_up_def)

lemma k_gfp_t_wf [wf_simps]: "wf_type k_gfp_t"
  by (simp add: k_gfp_t_def wf_simps pow2_def)

definition k_hlist_node :: ctype where
  "k_hlist_node = CStruct False
    [Fld ''next'' CPtr,
     Fld ''pprev'' CPtr]"

lemma k_hlist_node_layout [layout_simps]: "alignof k_hlist_node = 8" "sizeof k_hlist_node = 16"
  by (simp_all add: k_hlist_node_def layout_simps place_def malign_def round_up_def)

lemma k_hlist_node_wf [wf_simps]: "wf_type k_hlist_node"
  by (simp add: k_hlist_node_def wf_simps pow2_def)

definition k_desc_struct :: ctype where
  "k_desc_struct = CStruct False
    [Fld ''limit0'' k_u16,
     Fld ''base0'' k_u16,
     Bits ''base1'' 2 8,
     Bits ''type'' 2 4,
     Bits ''s'' 2 1,
     Bits ''dpl'' 2 2,
     Bits ''p'' 2 1,
     Bits ''limit1'' 2 4,
     Bits ''avl'' 2 1,
     Bits ''l'' 2 1,
     Bits ''d'' 2 1,
     Bits ''g'' 2 1,
     Bits ''base2'' 2 8]"

lemma k_desc_struct_layout [layout_simps]: "alignof k_desc_struct = 2" "sizeof k_desc_struct = 8"
  by (simp_all add: k_desc_struct_def layout_simps place_def malign_def round_up_def)

lemma k_desc_struct_wf [wf_simps]: "wf_type k_desc_struct"
  by (simp add: k_desc_struct_def wf_simps pow2_def)

definition k_mm_segment_t :: ctype where
  "k_mm_segment_t = CStruct False
    [Fld ''seg'' (CInt 8)]"

lemma k_mm_segment_t_layout [layout_simps]: "alignof k_mm_segment_t = 8" "sizeof k_mm_segment_t = 8"
  by (simp_all add: k_mm_segment_t_def layout_simps place_def malign_def round_up_def)

lemma k_mm_segment_t_wf [wf_simps]: "wf_type k_mm_segment_t"
  by (simp add: k_mm_segment_t_def wf_simps pow2_def)

definition k_fregs_state :: ctype where
  "k_fregs_state = CStruct False
    [Fld ''cwd'' k_u32,
     Fld ''swd'' k_u32,
     Fld ''twd'' k_u32,
     Fld ''fip'' k_u32,
     Fld ''fcs'' k_u32,
     Fld ''foo'' k_u32,
     Fld ''fos'' k_u32,
     Fld ''st_space'' (CArr k_u32 20),
     Fld ''status'' k_u32]"

lemma k_fregs_state_layout [layout_simps]: "alignof k_fregs_state = 4" "sizeof k_fregs_state = 112"
  by (simp_all add: k_fregs_state_def layout_simps place_def malign_def round_up_def)

lemma k_fregs_state_wf [wf_simps]: "wf_type k_fregs_state"
  by (simp add: k_fregs_state_def wf_simps pow2_def)

definition k_fxregs_state :: ctype where
  "k_fxregs_state = CStruct False
    [Fld ''cwd'' k_u16,
     Fld ''swd'' k_u16,
     Fld ''twd'' k_u16,
     Fld ''fop'' k_u16,
     Fld '''' (CUnion False [Fld '''' (CStruct False [Fld ''rip'' k_u64, Fld ''rdp'' k_u64]), Fld '''' (CStruct False [Fld ''fip'' k_u32, Fld ''fcs'' k_u32, Fld ''foo'' k_u32, Fld ''fos'' k_u32])]),
     Fld ''mxcsr'' k_u32,
     Fld ''mxcsr_mask'' k_u32,
     Fld ''st_space'' (CArr k_u32 32),
     Fld ''xmm_space'' (CArr k_u32 64),
     Fld ''padding'' (CArr k_u32 12),
     Fld '''' (CUnion False [Fld ''padding1'' (CArr k_u32 12), Fld ''sw_reserved'' (CArr k_u32 12)])]"

lemma k_fxregs_state_layout [layout_simps]: "alignof k_fxregs_state = 8" "sizeof k_fxregs_state = 512"
  by (simp_all add: k_fxregs_state_def layout_simps place_def malign_def round_up_def)

lemma k_fxregs_state_wf [wf_simps]: "wf_type k_fxregs_state"
  by (simp add: k_fxregs_state_def wf_simps pow2_def)

definition k_swregs_state :: ctype where
  "k_swregs_state = CStruct False
    [Fld ''cwd'' k_u32,
     Fld ''swd'' k_u32,
     Fld ''twd'' k_u32,
     Fld ''fip'' k_u32,
     Fld ''fcs'' k_u32,
     Fld ''foo'' k_u32,
     Fld ''fos'' k_u32,
     Fld ''st_space'' (CArr k_u32 20),
     Fld ''ftop'' k_u8,
     Fld ''changed'' k_u8,
     Fld ''lookahead'' k_u8,
     Fld ''no_update'' k_u8,
     Fld ''rm'' k_u8,
     Fld ''alimit'' k_u8,
     Fld ''info'' CPtr,
     Fld ''entry_eip'' k_u32]"

lemma k_swregs_state_layout [layout_simps]: "alignof k_swregs_state = 8" "sizeof k_swregs_state = 136"
  by (simp_all add: k_swregs_state_def layout_simps place_def malign_def round_up_def)

lemma k_swregs_state_wf [wf_simps]: "wf_type k_swregs_state"
  by (simp add: k_swregs_state_def wf_simps pow2_def)

definition k_xstate_header :: ctype where
  "k_xstate_header = CStruct False
    [Fld ''xfeatures'' k_u64,
     Fld ''xcomp_bv'' k_u64,
     Fld ''reserved'' (CArr k_u64 6)]"

lemma k_xstate_header_layout [layout_simps]: "alignof k_xstate_header = 8" "sizeof k_xstate_header = 64"
  by (simp_all add: k_xstate_header_def layout_simps place_def malign_def round_up_def)

lemma k_xstate_header_wf [wf_simps]: "wf_type k_xstate_header"
  by (simp add: k_xstate_header_def wf_simps pow2_def)

definition k_xregs_state :: ctype where
  "k_xregs_state = CStruct False
    [Fld ''i387'' k_fxregs_state,
     Fld ''header'' k_xstate_header,
     Fld ''extended_state_area'' (CArr k_u8 0)]"

lemma k_xregs_state_layout [layout_simps]: "alignof k_xregs_state = 8" "sizeof k_xregs_state = 576"
  by (simp_all add: k_xregs_state_def layout_simps place_def malign_def round_up_def)

lemma k_xregs_state_wf [wf_simps]: "wf_type k_xregs_state"
  by (simp add: k_xregs_state_def wf_simps pow2_def)

definition k_fpregs_state_u :: ctype where
  "k_fpregs_state_u = CUnion False
    [Fld ''fsave'' k_fregs_state,
     Fld ''fxsave'' k_fxregs_state,
     Fld ''soft'' k_swregs_state,
     Fld ''xsave'' k_xregs_state,
     Fld ''__padding'' (CArr k_u8 4096)]"

lemma k_fpregs_state_u_layout [layout_simps]: "alignof k_fpregs_state_u = 8" "sizeof k_fpregs_state_u = 4096"
  by (simp_all add: k_fpregs_state_u_def layout_simps place_def malign_def round_up_def)

lemma k_fpregs_state_u_wf [wf_simps]: "wf_type k_fpregs_state_u"
  by (simp add: k_fpregs_state_u_def wf_simps pow2_def)

definition k_fpu :: ctype where
  "k_fpu = CStruct False
    [Fld ''last_cpu'' (CInt 4),
     Fld ''rh_reserved_initialized'' (CInt 1),
     Bits '''' 8 24,
     Bits '''' 8 64,
     Bits '''' 8 64,
     Bits '''' 8 64,
     Bits '''' 8 64,
     Bits '''' 8 64,
     Bits '''' 8 64,
     Bits '''' 8 64,
     Fld ''state'' k_fpregs_state_u]"

lemma k_fpu_layout [layout_simps]: "alignof k_fpu = 8" "sizeof k_fpu = 4160"
  by (simp_all add: k_fpu_def layout_simps place_def malign_def round_up_def)

lemma k_fpu_wf [wf_simps]: "wf_type k_fpu"
  by (simp add: k_fpu_def wf_simps pow2_def)

definition k_thread_struct :: ctype where
  "k_thread_struct = CStruct False
    [Fld ''tls_array'' (CArr k_desc_struct 3),
     Fld ''sp'' (CInt 8),
     Fld ''es'' (CInt 2),
     Fld ''ds'' (CInt 2),
     Fld ''fsindex'' (CInt 2),
     Fld ''gsindex'' (CInt 2),
     Fld ''fsbase'' (CInt 8),
     Fld ''gsbase'' (CInt 8),
     Fld ''ptrace_bps'' (CArr CPtr 4),
     Fld ''debugreg6'' (CInt 8),
     Fld ''ptrace_dr7'' (CInt 8),
     Fld ''cr2'' (CInt 8),
     Fld ''trap_nr'' (CInt 8),
     Fld ''error_code'' (CInt 8),
     Fld ''io_bitmap_ptr'' CPtr,
     Fld ''iopl'' (CInt 8),
     Fld ''io_bitmap_max'' (CInt 4),
     Fld ''addr_limit'' k_mm_segment_t,
     Bits ''sig_on_uaccess_err'' 4 1,
     Bits ''uaccess_err'' 4 1,
     Bits '''' 8 62,
     Bits '''' 8 64,
     Bits '''' 8 64,
     Bits '''' 8 64,
     Fld ''fpu'' k_fpu]"

lemma k_thread_struct_layout [layout_simps]: "alignof k_thread_struct = 8" "sizeof k_thread_struct = 4352"
  by (simp_all add: k_thread_struct_def layout_simps place_def malign_def round_up_def)

lemma k_thread_struct_wf [wf_simps]: "wf_type k_thread_struct"
  by (simp add: k_thread_struct_def wf_simps pow2_def)

definition k_task_struct_members_1 :: "cmember list" where
  "k_task_struct_members_1 =
    [Fld ''thread_info'' k_thread_info,
     Fld ''state'' (CInt 8),
     Fld ''stack'' CPtr,
     Fld ''usage'' k_atomic_t,
     Fld ''flags'' (CInt 4),
     Fld ''ptrace'' (CInt 4),
     Fld ''wake_entry'' k_llist_node,
     Fld ''on_cpu'' (CInt 4),
     Fld ''cpu'' (CInt 4),
     Fld ''wakee_flips'' (CInt 4),
     Fld ''wakee_flip_decay_ts'' (CInt 8),
     Fld ''last_wakee'' CPtr,
     Fld ''recent_used_cpu'' (CInt 4),
     Fld ''wake_cpu'' (CInt 4),
     Fld ''on_rq'' (CInt 4),
     Fld ''prio'' (CInt 4),
     Fld ''static_prio'' (CInt 4),
     Fld ''normal_prio'' (CInt 4),
     Fld ''rt_priority'' (CInt 4),
     Fld ''sched_class'' CPtr,
     Fld ''se'' k_sched_entity,
     Fld ''rt'' k_sched_rt_entity,
     Fld ''sched_task_group'' CPtr,
     Fld ''dl'' k_sched_dl_entity,
     Fld ''preempt_notifiers'' k_hlist_head,
     Fld ''btrace_seq'' (CInt 4),
     Fld ''policy'' (CInt 4),
     Fld ''nr_cpus_allowed'' (CInt 4),
     Fld ''cpus_allowed'' k_cpumask_t,
     Fld ''sched_info'' k_sched_info,
     Fld ''tasks'' k_list_head,
     Fld ''pushable_tasks'' k_plist_node,
     Fld ''pushable_dl_tasks'' k_rb_node,
     Fld ''mm'' CPtr,
     Fld ''active_mm'' CPtr,
     Fld ''vmacache'' k_vmacache,
     Fld ''rss_stat'' k_task_rss_stat,
     Fld ''exit_state'' (CInt 4),
     Fld ''exit_code'' (CInt 4),
     Fld ''exit_signal'' (CInt 4),
     Fld ''pdeath_signal'' (CInt 4),
     Fld ''jobctl'' (CInt 8),
     Fld ''personality'' (CInt 4),
     Bits ''sched_reset_on_fork'' 4 1,
     Bits ''sched_contributes_to_load'' 4 1,
     Bits ''sched_migrated'' 4 1,
     Bits ''sched_remote_wakeup'' 4 1,
     Bits ''sched_psi_wake_requeue'' 4 1,
     Bits '''' 4 27,
     Bits ''in_execve'' 4 1,
     Bits ''in_iowait'' 4 1,
     Bits ''restore_sigmask'' 4 1,
     Bits ''in_user_fault'' 4 1,
     Bits ''rh_reserved_memcg_kmem_skip_account'' 4 1,
     Bits ''no_cgroup_migration'' 4 1,
     Bits ''use_memdelay'' 4 1,
     Bits ''frozen'' 4 1,
     Bits ''in_memstall'' 4 1,
     Bits ''in_memcgstall'' 4 1,
     Fld ''atomic_flags'' (CInt 8),
     Fld ''restart_block'' k_restart_block,
     Fld ''pid'' k_pid_t,
     Fld ''tgid'' k_pid_t,
     Fld ''stack_canary'' (CInt 8),
     Fld ''real_parent'' CPtr,
     Fld ''parent'' CPtr,
     Fld ''children'' k_list_head,
     Fld ''sibling'' k_list_head,
     Fld ''group_leader'' CPtr,
     Fld ''ptraced'' k_list_head,
     Fld ''ptrace_entry'' k_list_head,
     Fld ''active_memcg'' CPtr,
     Fld ''rh_reserved2'' (CInt 8),
     Fld ''thread_pid'' CPtr,
     Fld ''rh_reserved3'' (CInt 8),
     Fld ''rh_reserved4'' (CInt 8)]"

lemma k_task_struct_members_1_layout [layout_simps]:
  "aligns k_task_struct_members_1 = 8"
  "struct_end False 0 k_task_struct_members_1 = 19584"
  by (simp_all add: k_task_struct_members_1_def layout_simps place_def malign_def round_up_def)

lemma k_task_struct_members_1_wf [wf_simps]: "wf_members k_task_struct_members_1"
  by (simp add: k_task_struct_members_1_def wf_simps pow2_def)

definition k_task_struct_members_2 :: "cmember list" where
  "k_task_struct_members_2 =
    [Fld ''rh_pgid'' CPtr,
     Fld ''rh_reserved5'' (CInt 8),
     Fld ''rh_reserved6'' (CInt 8),
     Fld ''rh_sid'' CPtr,
     Fld ''thread_group'' k_list_head,
     Fld ''thread_node'' k_list_head,
     Fld ''vfork_done'' CPtr,
     Fld ''set_child_tid'' CPtr,
     Fld ''clear_child_tid'' CPtr,
     Fld ''utime'' k_u64,
     Fld ''stime'' k_u64,
     Fld ''gtime'' k_u64,
     Fld ''prev_cputime'' k_prev_cputime,
     Fld ''vtime'' k_vtime,
     Fld ''tick_dep_mask'' k_atomic_t,
     Fld ''nvcsw'' (CInt 8),
     Fld ''nivcsw'' (CInt 8),
     Fld ''start_time'' k_u64,
     Fld ''real_start_time'' k_u64,
     Fld ''min_flt'' (CInt 8),
     Fld ''maj_flt'' (CInt 8),
     Fld ''cputime_expires'' k_task_cputime,
     Fld ''cpu_timers'' (CArr k_list_head 3),
     Fld ''ptracer_cred'' CPtr,
     Fld ''real_cred'' CPtr,
     Fld ''cred'' CPtr,
     Fld ''comm'' (CArr (CInt 1) 16),
     Fld ''nameidata'' CPtr,
     Fld ''sysvsem'' k_sysv_sem,
     Fld ''sysvshm'' k_sysv_shm,
     Fld ''last_switch_count'' (CInt 8),
     Fld ''fs'' CPtr,
     Fld ''files'' CPtr,
     Fld ''nsproxy'' CPtr,
     Fld ''signal'' CPtr,
     Fld ''sighand'' CPtr,
     Fld ''blocked'' k_sigset_t,
     Fld ''real_blocked'' k_sigset_t,
     Fld ''saved_sigmask'' k_sigset_t,
     Fld ''pending'' k_sigpending,
     Fld ''sas_ss_sp'' (CInt 8),
     Fld ''sas_ss_size'' k_size_t,
     Fld ''sas_ss_flags'' (CInt 4),
     Fld ''task_works'' CPtr,
     Fld ''audit_context'' CPtr,
     Fld ''loginuid'' k_kuid_t,
     Fld ''sessionid'' (CInt 4),
     Fld ''seccomp'' k_seccomp,
     Fld ''parent_exec_id'' k_u32,
     Fld ''self_exec_id'' k_u32,
     Fld ''alloc_lock'' k_spinlock_t,
     Fld ''pi_lock'' k_raw_spinlock_t,
     Fld ''wake_q'' k_wake_q_node,
     Fld ''pi_waiters'' k_rb_root_cached,
     Fld ''pi_top_task'' CPtr,
     Fld ''pi_blocked_on'' CPtr,
     Fld ''journal_info'' CPtr,
     Fld ''bio_list'' CPtr,
     Fld ''plug'' CPtr,
     Fld ''reclaim_state'' CPtr,
     Fld ''backing_dev_info'' CPtr,
     Fld ''io_context'' CPtr,
     Fld ''ptrace_message'' (CInt 8),
     Fld '''' (CUnion False [Fld ''last_siginfo'' CPtr, Fld ''rh_kabi_hidden_1009'' (CStruct False [Fld ''last_siginfo'' CPtr]), Fld '''' (CUnion False [])]),
     Fld ''ioac'' k_task_io_accounting,
     Fld ''acct_rss_mem1'' k_u64,
     Fld ''acct_vm_mem1'' k_u64]"

lemma k_task_struct_members_2_layout [layout_simps]:
  "aligns k_task_struct_members_2 = 8"
  "struct_end False 19584 k_task_struct_members_2 = 25472"
  by (simp_all add: k_task_struct_members_2_def layout_simps place_def malign_def round_up_def)

lemma k_task_struct_members_2_wf [wf_simps]: "wf_members k_task_struct_members_2"
  by (simp add: k_task_struct_members_2_def wf_simps pow2_def)

definition k_task_struct_members_3 :: "cmember list" where
  "k_task_struct_members_3 =
    [Fld ''acct_timexpd'' k_u64,
     Fld ''mems_allowed'' k_nodemask_t,
     Fld ''mems_allowed_seq'' k_seqcount_t,
     Fld ''cpuset_mem_spread_rotor'' (CInt 4),
     Fld ''cpuset_slab_spread_rotor'' (CInt 4),
     Fld ''psi_flags'' (CInt 4),
     Fld ''cgroups'' CPtr,
     Fld ''cg_list'' k_list_head,
     Fld ''closid'' k_u32,
     Fld ''rmid'' k_u32,
     Fld ''robust_list'' CPtr,
     Fld ''compat_robust_list'' CPtr,
     Fld ''pi_state_list'' k_list_head,
     Fld ''pi_state_cache'' CPtr,
     Fld ''perf_event_ctxp'' (CArr CPtr 2),
     Fld ''perf_event_mutex'' k_mutex,
     Fld ''perf_event_list'' k_list_head,
     Fld ''mempolicy'' CPtr,
     Fld ''il_prev'' (CInt 2),
     Fld ''pref_node_fork'' (CInt 2),
     Fld ''numa_scan_seq'' (CInt 4),
     Fld ''numa_scan_period'' (CInt 4),
     Fld ''numa_scan_period_max'' (CInt 4),
     Fld ''numa_preferred_nid'' (CInt 4),
     Fld ''numa_migrate_retry'' (CInt 8),
     Fld ''node_stamp'' k_u64,
     Fld ''last_task_numa_placement'' k_u64,
     Fld ''last_sum_exec_runtime'' k_u64,
     Fld ''numa_work'' k_callback_head,
     Fld ''numa_entry'' k_list_head,
     Fld ''numa_group'' CPtr,
     Fld ''numa_faults'' CPtr,
     Fld ''total_numa_faults'' (CInt 8),
     Fld ''numa_faults_locality'' (CArr (CInt 8) 3),
     Fld ''numa_pages_migrated'' (CInt 8),
     Fld ''rseq'' CPtr,
     Fld ''rseq_len'' k_u32,
     Fld ''rseq_sig'' k_u32,
     Fld ''rseq_event_mask'' (CInt 8),
     Fld ''tlb_ubc'' k_tlbflush_unmap_batch,
     Fld ''rcu'' k_callback_head,
     Fld ''splice_pipe'' CPtr,
     Fld ''task_frag'' k_page_frag,
     Fld ''delays'' CPtr,
     Fld ''nr_dirtied'' (CInt 4),
     Fld ''nr_dirtied_pause'' (CInt 4),
     Fld ''dirty_paused_when'' (CInt 8),
     Fld ''timer_slack_ns'' k_u64,
     Fld ''default_timer_slack_ns'' k_u64,
     Fld ''curr_ret_stack'' (CInt 4),
     Fld ''ret_stack'' CPtr,
     Fld ''ftrace_timestamp'' (CInt 8),
     Fld ''trace_overrun'' k_atomic_t,
     Fld ''tracing_graph_pause'' k_atomic_t,
     Fld ''trace'' (CInt 8),
     Fld ''trace_recursion'' (CInt 8),
     Fld ''memcg_in_oom'' CPtr,
     Fld ''memcg_oom_gfp_mask'' k_gfp_t,
     Fld ''memcg_oom_order'' (CInt 4),
     Fld ''memcg_nr_pages_over_high'' (CInt 4),
     Fld ''throttle_queue'' CPtr,
     Fld ''utask'' CPtr,
     Fld ''pagefault_disabled'' (CInt 4),
     Fld ''oom_reaper_list'' CPtr,
     Fld ''stack_vm_area'' CPtr,
     Fld ''stack_refcount'' k_atomic_t,
     Fld ''patch_state'' (CInt 4),
     Fld ''security'' CPtr,
     Fld ''pid_links'' (CArr k_hlist_node 4),
     Bits '''' 8 64,
     Bits '''' 8 64,
     Bits '''' 8 64,
     Bits '''' 8 64,
     Bits '''' 8 64,
     Fld ''thread'' k_thread_struct]"

lemma k_task_struct_members_3_layout [layout_simps]:
  "aligns k_task_struct_members_3 = 8"
  "struct_end False 25472 k_task_struct_members_3 = 74752"
  by (simp_all add: k_task_struct_members_3_def layout_simps place_def malign_def round_up_def)

lemma k_task_struct_members_3_wf [wf_simps]: "wf_members k_task_struct_members_3"
  by (simp add: k_task_struct_members_3_def wf_simps pow2_def)

definition k_task_struct :: ctype where
  "k_task_struct = CStruct False (k_task_struct_members_1 @ k_task_struct_members_2 @ k_task_struct_members_3)"

lemma k_task_struct_layout [layout_simps]: "alignof k_task_struct = 8" "sizeof k_task_struct = 9344"
  by (simp_all add: k_task_struct_def layout_simps place_def malign_def round_up_def)

lemma k_task_struct_wf [wf_simps]: "wf_type k_task_struct"
  by (simp add: k_task_struct_def wf_simps pow2_def)

end
