(* ===== verification/Vmlinux_Net.thy ===== *)
theory Vmlinux_Net
  imports Vmlinux_Task
begin

text \<open>
  Kernel types of \<^verbatim>\<open>bpf/include/vmlinux.h\<close>: socket buffers, sockets, network devices and the IP and TCP headers (read by
  \<open>dropwatch.c\<close>, \<open>netrecvlat.c\<close>, \<open>netdev_hw.c\<close>).
  One definition per C type, in the order the types depend on each other, with its size and
  alignment.
\<close>

definition k___wsum :: ctype where
  "k___wsum = k___u32"

lemma k___wsum_layout [layout_simps]: "alignof k___wsum = 4" "sizeof k___wsum = 4"
  by (simp_all add: k___wsum_def layout_simps place_def malign_def round_up_def)

lemma k___wsum_wf [wf_simps]: "wf_type k___wsum"
  by (simp add: k___wsum_def wf_simps pow2_def)

definition k___be16 :: ctype where
  "k___be16 = k___u16"

lemma k___be16_layout [layout_simps]: "alignof k___be16 = 2" "sizeof k___be16 = 2"
  by (simp_all add: k___be16_def layout_simps place_def malign_def round_up_def)

lemma k___be16_wf [wf_simps]: "wf_type k___be16"
  by (simp add: k___be16_def wf_simps pow2_def)

definition k_sk_buff_data_t :: ctype where
  "k_sk_buff_data_t = CInt 4"

lemma k_sk_buff_data_t_layout [layout_simps]: "alignof k_sk_buff_data_t = 4" "sizeof k_sk_buff_data_t = 4"
  by (simp_all add: k_sk_buff_data_t_def layout_simps place_def malign_def round_up_def)

lemma k_sk_buff_data_t_wf [wf_simps]: "wf_type k_sk_buff_data_t"
  by (simp add: k_sk_buff_data_t_def wf_simps pow2_def)

definition k_refcount_struct :: ctype where
  "k_refcount_struct = CStruct False
    [Fld ''refs'' k_atomic_t]"

lemma k_refcount_struct_layout [layout_simps]: "alignof k_refcount_struct = 4" "sizeof k_refcount_struct = 4"
  by (simp_all add: k_refcount_struct_def layout_simps place_def malign_def round_up_def)

lemma k_refcount_struct_wf [wf_simps]: "wf_type k_refcount_struct"
  by (simp add: k_refcount_struct_def wf_simps pow2_def)

definition k_refcount_t :: ctype where
  "k_refcount_t = k_refcount_struct"

lemma k_refcount_t_layout [layout_simps]: "alignof k_refcount_t = 4" "sizeof k_refcount_t = 4"
  by (simp_all add: k_refcount_t_def layout_simps place_def malign_def round_up_def)

lemma k_refcount_t_wf [wf_simps]: "wf_type k_refcount_t"
  by (simp add: k_refcount_t_def wf_simps pow2_def)

definition k_sk_buff :: ctype where
  "k_sk_buff = CStruct False
    [Fld '''' (CUnion False [Fld '''' (CStruct False [Fld ''next'' CPtr, Fld ''prev'' CPtr, Fld '''' (CUnion False [Fld ''dev'' CPtr, Fld ''dev_scratch'' (CInt 8)])]), Fld ''rbnode'' k_rb_node]),
     Fld '''' (CUnion False [Fld ''sk'' CPtr, Fld ''ip_defrag_offset'' (CInt 4)]),
     Fld '''' (CUnion False [Fld ''tstamp'' k_ktime_t, Fld ''skb_mstamp'' k_u64]),
     Fld ''cb'' (CArr (CInt 1) 48),
     Fld '''' (CUnion False [Fld '''' (CStruct False [Fld ''_skb_refdst'' (CInt 8), Fld ''destructor'' CPtr]), Fld ''tcp_tsorted_anchor'' k_list_head]),
     Fld ''sp'' CPtr,
     Fld ''_nfct'' (CInt 8),
     Fld ''nf_bridge'' CPtr,
     Fld ''len'' (CInt 4),
     Fld ''data_len'' (CInt 4),
     Fld ''mac_len'' k___u16,
     Fld ''hdr_len'' k___u16,
     Fld ''queue_mapping'' k___u16,
     Fld ''__cloned_offset'' (CArr k___u8 0),
     Bits ''cloned'' 1 1,
     Bits ''nohdr'' 1 1,
     Bits ''fclone'' 1 2,
     Bits ''peeked'' 1 1,
     Bits ''head_frag'' 1 1,
     Bits ''rh_reserved_xmit_more'' 1 1,
     Bits ''pfmemalloc'' 1 1,
     Fld ''headers_start'' (CArr k___u32 0),
     Fld ''__pkt_type_offset'' (CArr k___u8 0),
     Bits ''pkt_type'' 1 3,
     Bits ''ignore_df'' 1 1,
     Bits ''nf_trace'' 1 1,
     Bits ''ip_summed'' 1 2,
     Bits ''ooo_okay'' 1 1,
     Bits ''l4_hash'' 1 1,
     Bits ''sw_hash'' 1 1,
     Bits ''wifi_acked_valid'' 1 1,
     Bits ''wifi_acked'' 1 1,
     Bits ''no_fcs'' 1 1,
     Bits ''encapsulation'' 1 1,
     Bits ''encap_hdr_csum'' 1 1,
     Bits ''csum_valid'' 1 1,
     Bits ''csum_complete_sw'' 1 1,
     Bits ''csum_level'' 1 2,
     Bits ''csum_not_inet'' 1 1,
     Bits ''dst_pending_confirm'' 1 1,
     Bits ''ndisc_nodetype'' 1 2,
     Bits ''ipvs_property'' 1 1,
     Bits ''inner_protocol_type'' 1 1,
     Bits ''remcsum_offload'' 1 1,
     Bits ''offload_fwd_mark'' 1 1,
     Bits ''offload_l3_fwd_mark'' 1 1,
     Bits ''tc_skip_classify'' 1 1,
     Bits ''tc_at_ingress'' 1 1,
     Bits ''tc_redirected'' 1 1,
     Bits ''tc_from_ingress'' 1 1,
     Fld ''tc_index'' k___u16,
     Bits ''decrypted'' 1 1,
     Fld '''' (CUnion False [Fld ''csum'' k___wsum, Fld '''' (CStruct False [Fld ''csum_start'' k___u16, Fld ''csum_offset'' k___u16])]),
     Fld ''priority'' k___u32,
     Fld ''skb_iif'' (CInt 4),
     Fld ''hash'' k___u32,
     Fld ''vlan_proto'' k___be16,
     Fld ''vlan_tci'' k___u16,
     Fld '''' (CUnion False [Fld ''napi_id'' (CInt 4), Fld ''sender_cpu'' (CInt 4)]),
     Fld ''secmark'' k___u32,
     Fld '''' (CUnion False [Fld ''mark'' k___u32, Fld ''reserved_tailroom'' k___u32]),
     Fld '''' (CUnion False [Fld ''inner_protocol'' k___be16, Fld ''inner_ipproto'' k___u8]),
     Fld ''inner_transport_header'' k___u16,
     Fld ''inner_network_header'' k___u16,
     Fld ''inner_mac_header'' k___u16,
     Fld ''protocol'' k___be16,
     Fld ''transport_header'' k___u16,
     Fld ''network_header'' k___u16,
     Fld ''mac_header'' k___u16,
     Fld ''rh_reserved_start'' (CArr (CInt 1) 0),
     Fld ''headers_end'' (CArr k___u32 0),
     Fld ''rh_reserved'' (CArr (CInt 1) 16),
     Fld ''rh_reserved_end'' (CArr (CInt 1) 0),
     Fld ''tail'' k_sk_buff_data_t,
     Fld ''end'' k_sk_buff_data_t,
     Fld ''head'' CPtr,
     Fld ''data'' CPtr,
     Fld ''truesize'' (CInt 4),
     Fld ''users'' k_refcount_t]"

lemma k_sk_buff_layout [layout_simps]: "alignof k_sk_buff = 8" "sizeof k_sk_buff = 248"
  by (simp_all add: k_sk_buff_def layout_simps place_def malign_def round_up_def)

lemma k_sk_buff_wf [wf_simps]: "wf_type k_sk_buff"
  by (simp add: k_sk_buff_def wf_simps pow2_def)

definition k___addrpair :: ctype where
  "k___addrpair = k___u64"

lemma k___addrpair_layout [layout_simps]: "alignof k___addrpair = 8" "sizeof k___addrpair = 8"
  by (simp_all add: k___addrpair_def layout_simps place_def malign_def round_up_def)

lemma k___addrpair_wf [wf_simps]: "wf_type k___addrpair"
  by (simp add: k___addrpair_def wf_simps pow2_def)

definition k___be32 :: ctype where
  "k___be32 = k___u32"

lemma k___be32_layout [layout_simps]: "alignof k___be32 = 4" "sizeof k___be32 = 4"
  by (simp_all add: k___be32_def layout_simps place_def malign_def round_up_def)

lemma k___be32_wf [wf_simps]: "wf_type k___be32"
  by (simp add: k___be32_def wf_simps pow2_def)

definition k___portpair :: ctype where
  "k___portpair = k___u32"

lemma k___portpair_layout [layout_simps]: "alignof k___portpair = 4" "sizeof k___portpair = 4"
  by (simp_all add: k___portpair_def layout_simps place_def malign_def round_up_def)

lemma k___portpair_wf [wf_simps]: "wf_type k___portpair"
  by (simp add: k___portpair_def wf_simps pow2_def)

definition k_possible_net_t :: ctype where
  "k_possible_net_t = CStruct False
    [Fld ''net'' CPtr]"

lemma k_possible_net_t_layout [layout_simps]: "alignof k_possible_net_t = 8" "sizeof k_possible_net_t = 8"
  by (simp_all add: k_possible_net_t_def layout_simps place_def malign_def round_up_def)

lemma k_possible_net_t_wf [wf_simps]: "wf_type k_possible_net_t"
  by (simp add: k_possible_net_t_def wf_simps pow2_def)

definition k_in6_addr :: ctype where
  "k_in6_addr = CStruct False
    [Fld ''in6_u'' (CUnion False [Fld ''u6_addr8'' (CArr k___u8 16), Fld ''u6_addr16'' (CArr k___be16 8), Fld ''u6_addr32'' (CArr k___be32 4)])]"

lemma k_in6_addr_layout [layout_simps]: "alignof k_in6_addr = 4" "sizeof k_in6_addr = 16"
  by (simp_all add: k_in6_addr_def layout_simps place_def malign_def round_up_def)

lemma k_in6_addr_wf [wf_simps]: "wf_type k_in6_addr"
  by (simp add: k_in6_addr_def wf_simps pow2_def)

definition k_hlist_nulls_node :: ctype where
  "k_hlist_nulls_node = CStruct False
    [Fld ''next'' CPtr,
     Fld ''pprev'' CPtr]"

lemma k_hlist_nulls_node_layout [layout_simps]: "alignof k_hlist_nulls_node = 8" "sizeof k_hlist_nulls_node = 16"
  by (simp_all add: k_hlist_nulls_node_def layout_simps place_def malign_def round_up_def)

lemma k_hlist_nulls_node_wf [wf_simps]: "wf_type k_hlist_nulls_node"
  by (simp add: k_hlist_nulls_node_def wf_simps pow2_def)

definition k_sock_common :: ctype where
  "k_sock_common = CStruct False
    [Fld '''' (CUnion False [Fld ''skc_addrpair'' k___addrpair, Fld '''' (CStruct False [Fld ''skc_daddr'' k___be32, Fld ''skc_rcv_saddr'' k___be32])]),
     Fld '''' (CUnion False [Fld ''skc_hash'' (CInt 4), Fld ''skc_u16hashes'' (CArr k___u16 2)]),
     Fld '''' (CUnion False [Fld ''skc_portpair'' k___portpair, Fld '''' (CStruct False [Fld ''skc_dport'' k___be16, Fld ''skc_num'' k___u16])]),
     Fld ''skc_family'' (CInt 2),
     Fld ''skc_state'' (CInt 1),
     Bits ''skc_reuse'' 1 4,
     Bits ''skc_reuseport'' 1 1,
     Bits ''skc_ipv6only'' 1 1,
     Bits ''skc_net_refcnt'' 1 1,
     Fld ''skc_bound_dev_if'' (CInt 4),
     Fld '''' (CUnion False [Fld ''skc_bind_node'' k_hlist_node, Fld ''skc_portaddr_node'' k_hlist_node]),
     Fld ''skc_prot'' CPtr,
     Fld ''skc_net'' k_possible_net_t,
     Fld ''skc_v6_daddr'' k_in6_addr,
     Fld ''skc_v6_rcv_saddr'' k_in6_addr,
     Fld ''skc_cookie'' k_atomic64_t,
     Fld '''' (CUnion False [Fld ''skc_flags'' (CInt 8), Fld ''skc_listener'' CPtr, Fld ''skc_tw_dr'' CPtr]),
     Fld ''skc_dontcopy_begin'' (CArr (CInt 4) 0),
     Fld '''' (CUnion False [Fld ''skc_node'' k_hlist_node, Fld ''skc_nulls_node'' k_hlist_nulls_node]),
     Fld ''skc_tx_queue_mapping'' (CInt 2),
     Fld ''skc_rx_queue_mapping'' (CInt 2),
     Fld '''' (CUnion False [Fld ''skc_incoming_cpu'' (CInt 4), Fld ''skc_rcv_wnd'' k_u32, Fld ''skc_tw_rcv_nxt'' k_u32]),
     Fld ''skc_refcnt'' k_refcount_t,
     Fld ''skc_dontcopy_end'' (CArr (CInt 4) 0),
     Fld '''' (CUnion False [Fld ''skc_rxhash'' k_u32, Fld ''skc_window_clamp'' k_u32, Fld ''skc_tw_snd_nxt'' k_u32])]"

lemma k_sock_common_layout [layout_simps]: "alignof k_sock_common = 8" "sizeof k_sock_common = 136"
  by (simp_all add: k_sock_common_def layout_simps place_def malign_def round_up_def)

lemma k_sock_common_wf [wf_simps]: "wf_type k_sock_common"
  by (simp add: k_sock_common_def wf_simps pow2_def)

definition k_wait_queue_head :: ctype where
  "k_wait_queue_head = CStruct False
    [Fld ''lock'' k_spinlock_t,
     Fld ''head'' k_list_head]"

lemma k_wait_queue_head_layout [layout_simps]: "alignof k_wait_queue_head = 8" "sizeof k_wait_queue_head = 24"
  by (simp_all add: k_wait_queue_head_def layout_simps place_def malign_def round_up_def)

lemma k_wait_queue_head_wf [wf_simps]: "wf_type k_wait_queue_head"
  by (simp add: k_wait_queue_head_def wf_simps pow2_def)

definition k_wait_queue_head_t :: ctype where
  "k_wait_queue_head_t = k_wait_queue_head"

lemma k_wait_queue_head_t_layout [layout_simps]: "alignof k_wait_queue_head_t = 8" "sizeof k_wait_queue_head_t = 24"
  by (simp_all add: k_wait_queue_head_t_def layout_simps place_def malign_def round_up_def)

lemma k_wait_queue_head_t_wf [wf_simps]: "wf_type k_wait_queue_head_t"
  by (simp add: k_wait_queue_head_t_def wf_simps pow2_def)

definition k_socket_lock_t :: ctype where
  "k_socket_lock_t = CStruct False
    [Fld ''slock'' k_spinlock_t,
     Fld ''owned'' (CInt 4),
     Fld ''wq'' k_wait_queue_head_t]"

lemma k_socket_lock_t_layout [layout_simps]: "alignof k_socket_lock_t = 8" "sizeof k_socket_lock_t = 32"
  by (simp_all add: k_socket_lock_t_def layout_simps place_def malign_def round_up_def)

lemma k_socket_lock_t_wf [wf_simps]: "wf_type k_socket_lock_t"
  by (simp add: k_socket_lock_t_def wf_simps pow2_def)

definition k_sk_buff_head :: ctype where
  "k_sk_buff_head = CStruct False
    [Fld ''next'' CPtr,
     Fld ''prev'' CPtr,
     Fld ''qlen'' k___u32,
     Fld ''lock'' k_spinlock_t]"

lemma k_sk_buff_head_layout [layout_simps]: "alignof k_sk_buff_head = 8" "sizeof k_sk_buff_head = 24"
  by (simp_all add: k_sk_buff_head_def layout_simps place_def malign_def round_up_def)

lemma k_sk_buff_head_wf [wf_simps]: "wf_type k_sk_buff_head"
  by (simp add: k_sk_buff_head_def wf_simps pow2_def)

definition k___s32 :: ctype where
  "k___s32 = CInt 4"

lemma k___s32_layout [layout_simps]: "alignof k___s32 = 4" "sizeof k___s32 = 4"
  by (simp_all add: k___s32_def layout_simps place_def malign_def round_up_def)

lemma k___s32_wf [wf_simps]: "wf_type k___s32"
  by (simp add: k___s32_def wf_simps pow2_def)

definition k_timer_list :: ctype where
  "k_timer_list = CStruct False
    [Fld ''entry'' k_hlist_node,
     Fld ''expires'' (CInt 8),
     Fld ''function'' CPtr,
     Fld ''flags'' k_u32,
     Fld ''rh_reserved1'' (CInt 8),
     Fld ''rh_reserved2'' (CInt 8),
     Fld ''rh_reserved3'' (CInt 8),
     Fld ''rh_reserved4'' (CInt 8)]"

lemma k_timer_list_layout [layout_simps]: "alignof k_timer_list = 8" "sizeof k_timer_list = 72"
  by (simp_all add: k_timer_list_def layout_simps place_def malign_def round_up_def)

lemma k_timer_list_wf [wf_simps]: "wf_type k_timer_list"
  by (simp add: k_timer_list_def wf_simps pow2_def)

definition k_netdev_features_t :: ctype where
  "k_netdev_features_t = k_u64"

lemma k_netdev_features_t_layout [layout_simps]: "alignof k_netdev_features_t = 8" "sizeof k_netdev_features_t = 8"
  by (simp_all add: k_netdev_features_t_def layout_simps place_def malign_def round_up_def)

lemma k_netdev_features_t_wf [wf_simps]: "wf_type k_netdev_features_t"
  by (simp add: k_netdev_features_t_def wf_simps pow2_def)

definition k_qrwlock :: ctype where
  "k_qrwlock = CStruct False
    [Fld '''' (CUnion False [Fld ''cnts'' k_atomic_t, Fld '''' (CStruct False [Fld ''wlocked'' k_u8, Fld ''__lstate'' (CArr k_u8 3)])]),
     Fld ''wait_lock'' k_arch_spinlock_t]"

lemma k_qrwlock_layout [layout_simps]: "alignof k_qrwlock = 4" "sizeof k_qrwlock = 8"
  by (simp_all add: k_qrwlock_def layout_simps place_def malign_def round_up_def)

lemma k_qrwlock_wf [wf_simps]: "wf_type k_qrwlock"
  by (simp add: k_qrwlock_def wf_simps pow2_def)

definition k_arch_rwlock_t :: ctype where
  "k_arch_rwlock_t = k_qrwlock"

lemma k_arch_rwlock_t_layout [layout_simps]: "alignof k_arch_rwlock_t = 4" "sizeof k_arch_rwlock_t = 8"
  by (simp_all add: k_arch_rwlock_t_def layout_simps place_def malign_def round_up_def)

lemma k_arch_rwlock_t_wf [wf_simps]: "wf_type k_arch_rwlock_t"
  by (simp add: k_arch_rwlock_t_def wf_simps pow2_def)

definition k_rwlock_t :: ctype where
  "k_rwlock_t = CStruct False
    [Fld ''raw_lock'' k_arch_rwlock_t]"

lemma k_rwlock_t_layout [layout_simps]: "alignof k_rwlock_t = 4" "sizeof k_rwlock_t = 8"
  by (simp_all add: k_rwlock_t_def layout_simps place_def malign_def round_up_def)

lemma k_rwlock_t_wf [wf_simps]: "wf_type k_rwlock_t"
  by (simp add: k_rwlock_t_def wf_simps pow2_def)

definition k_sock_cgroup_data :: ctype where
  "k_sock_cgroup_data = CStruct False
    [Fld '''' (CUnion False [Fld '''' (CStruct False [Fld ''is_data'' k_u8, Fld ''padding'' k_u8, Fld ''prioidx'' k_u16, Fld ''classid'' k_u32]), Fld ''val'' k_u64])]"

lemma k_sock_cgroup_data_layout [layout_simps]: "alignof k_sock_cgroup_data = 8" "sizeof k_sock_cgroup_data = 8"
  by (simp_all add: k_sock_cgroup_data_def layout_simps place_def malign_def round_up_def)

lemma k_sock_cgroup_data_wf [wf_simps]: "wf_type k_sock_cgroup_data"
  by (simp add: k_sock_cgroup_data_def wf_simps pow2_def)

definition k_sock :: ctype where
  "k_sock = CStruct False
    [Fld ''__sk_common'' k_sock_common,
     Fld ''sk_lock'' k_socket_lock_t,
     Fld ''sk_drops'' k_atomic_t,
     Fld ''sk_rcvlowat'' (CInt 4),
     Fld ''sk_error_queue'' k_sk_buff_head,
     Fld ''sk_receive_queue'' k_sk_buff_head,
     Fld ''sk_backlog'' (CStruct False [Fld ''rmem_alloc'' k_atomic_t, Fld ''len'' (CInt 4), Fld ''head'' CPtr, Fld ''tail'' CPtr]),
     Fld ''sk_forward_alloc'' (CInt 4),
     Fld ''sk_ll_usec'' (CInt 4),
     Fld ''sk_napi_id'' (CInt 4),
     Fld ''sk_rcvbuf'' (CInt 4),
     Fld ''sk_filter'' CPtr,
     Fld '''' (CUnion False [Fld ''sk_wq'' CPtr, Fld ''sk_wq_raw'' CPtr]),
     Fld ''sk_policy'' (CArr CPtr 2),
     Fld ''sk_rx_dst'' CPtr,
     Fld ''sk_dst_cache'' CPtr,
     Fld ''sk_omem_alloc'' k_atomic_t,
     Fld ''sk_sndbuf'' (CInt 4),
     Fld ''sk_wmem_queued'' (CInt 4),
     Fld ''sk_wmem_alloc'' k_refcount_t,
     Fld ''sk_tsq_flags'' (CInt 8),
     Fld '''' (CUnion False [Fld ''sk_send_head'' CPtr, Fld ''tcp_rtx_queue'' k_rb_root]),
     Fld ''sk_write_queue'' k_sk_buff_head,
     Fld ''sk_peek_off'' k___s32,
     Fld ''sk_write_pending'' (CInt 4),
     Fld ''sk_dst_pending_confirm'' k___u32,
     Fld ''sk_pacing_status'' k_u32,
     Fld ''sk_sndtimeo'' (CInt 8),
     Fld ''sk_timer'' k_timer_list,
     Fld ''sk_priority'' k___u32,
     Fld ''sk_mark'' k___u32,
     Fld ''sk_pacing_rate'' k_u32,
     Fld ''sk_max_pacing_rate'' k_u32,
     Fld ''sk_frag'' k_page_frag,
     Fld ''sk_route_caps'' k_netdev_features_t,
     Fld ''sk_route_nocaps'' k_netdev_features_t,
     Fld ''sk_route_forced_caps'' k_netdev_features_t,
     Fld ''sk_gso_type'' (CInt 4),
     Fld ''sk_gso_max_size'' (CInt 4),
     Fld ''sk_allocation'' k_gfp_t,
     Fld ''sk_txhash'' k___u32,
     Fld ''__sk_flags_offset'' (CArr (CInt 4) 0),
     Bits ''sk_padding'' 4 1,
     Bits ''sk_kern_sock'' 4 1,
     Bits ''sk_no_check_tx'' 4 1,
     Bits ''sk_no_check_rx'' 4 1,
     Bits ''sk_userlocks'' 4 4,
     Bits ''sk_protocol'' 4 8,
     Bits ''sk_type'' 4 16,
     Fld ''sk_gso_max_segs'' k_u16,
     Fld ''sk_pacing_shift'' k_u8,
     Fld ''sk_lingertime'' (CInt 8),
     Fld ''sk_prot_creator'' CPtr,
     Fld ''sk_callback_lock'' k_rwlock_t,
     Fld ''sk_err'' (CInt 4),
     Fld ''sk_err_soft'' (CInt 4),
     Fld ''sk_ack_backlog'' k_u32,
     Fld ''sk_max_ack_backlog'' k_u32,
     Fld ''sk_uid'' k_kuid_t,
     Fld ''sk_peer_pid'' CPtr,
     Fld ''sk_peer_cred'' CPtr,
     Fld ''sk_rcvtimeo'' (CInt 8),
     Fld ''sk_stamp'' k_ktime_t,
     Fld ''sk_tsflags'' k_u16,
     Fld ''sk_shutdown'' k_u8,
     Fld ''sk_tskey'' k_u32,
     Fld ''sk_zckey'' k_atomic_t,
     Fld ''sk_clockid'' k_u8,
     Bits ''sk_txtime_deadline_mode'' 1 1,
     Bits ''sk_txtime_report_errors'' 1 1,
     Bits ''sk_txtime_unused'' 1 6,
     Fld ''sk_socket'' CPtr,
     Fld ''sk_user_data'' CPtr,
     Fld ''sk_security'' CPtr,
     Fld ''sk_cgrp_data'' k_sock_cgroup_data,
     Fld ''sk_memcg'' CPtr,
     Fld ''sk_state_change'' CPtr,
     Fld ''sk_data_ready'' CPtr,
     Fld ''sk_write_space'' CPtr,
     Fld ''sk_error_report'' CPtr,
     Fld ''sk_backlog_rcv'' CPtr,
     Fld ''sk_validate_xmit_skb'' CPtr,
     Fld ''sk_destruct'' CPtr,
     Fld ''sk_reuseport_cb'' CPtr,
     Fld ''sk_rcu'' k_callback_head,
     Fld '''' (CUnion False [Fld ''sk_bpf_storage'' CPtr, Fld ''rh_kabi_hidden_513'' (CStruct False [Fld ''rh_reserved1'' (CInt 8)]), Fld '''' (CUnion False [])]),
     Fld ''rh_reserved2'' (CInt 8),
     Fld ''rh_reserved3'' (CInt 8),
     Fld ''rh_reserved4'' (CInt 8),
     Fld ''rh_reserved5'' (CInt 8),
     Fld ''rh_reserved6'' (CInt 8),
     Fld ''rh_reserved7'' (CInt 8),
     Fld ''rh_reserved8'' (CInt 8),
     Fld ''rh_reserved9'' (CInt 8),
     Fld ''rh_reserved10'' (CInt 8),
     Fld ''rh_reserved11'' (CInt 8),
     Fld ''rh_reserved12'' (CInt 8),
     Fld ''rh_reserved13'' (CInt 8),
     Fld ''rh_reserved14'' (CInt 8),
     Fld ''rh_reserved15'' (CInt 8),
     Fld ''rh_reserved16'' (CInt 8)]"

lemma k_sock_layout [layout_simps]: "alignof k_sock = 8" "sizeof k_sock = 888"
  by (simp_all add: k_sock_def layout_simps place_def malign_def round_up_def)

lemma k_sock_wf [wf_simps]: "wf_type k_sock"
  by (simp add: k_sock_def wf_simps pow2_def)

definition k_net_device_stats :: ctype where
  "k_net_device_stats = CStruct False
    [Fld ''rx_packets'' (CInt 8),
     Fld ''tx_packets'' (CInt 8),
     Fld ''rx_bytes'' (CInt 8),
     Fld ''tx_bytes'' (CInt 8),
     Fld ''rx_errors'' (CInt 8),
     Fld ''tx_errors'' (CInt 8),
     Fld ''rx_dropped'' (CInt 8),
     Fld ''tx_dropped'' (CInt 8),
     Fld ''multicast'' (CInt 8),
     Fld ''collisions'' (CInt 8),
     Fld ''rx_length_errors'' (CInt 8),
     Fld ''rx_over_errors'' (CInt 8),
     Fld ''rx_crc_errors'' (CInt 8),
     Fld ''rx_frame_errors'' (CInt 8),
     Fld ''rx_fifo_errors'' (CInt 8),
     Fld ''rx_missed_errors'' (CInt 8),
     Fld ''tx_aborted_errors'' (CInt 8),
     Fld ''tx_carrier_errors'' (CInt 8),
     Fld ''tx_fifo_errors'' (CInt 8),
     Fld ''tx_heartbeat_errors'' (CInt 8),
     Fld ''tx_window_errors'' (CInt 8),
     Fld ''rx_compressed'' (CInt 8),
     Fld ''tx_compressed'' (CInt 8)]"

lemma k_net_device_stats_layout [layout_simps]: "alignof k_net_device_stats = 8" "sizeof k_net_device_stats = 184"
  by (simp_all add: k_net_device_stats_def layout_simps place_def malign_def round_up_def)

lemma k_net_device_stats_wf [wf_simps]: "wf_type k_net_device_stats"
  by (simp add: k_net_device_stats_def wf_simps pow2_def)

definition k_netdev_hw_addr_list :: ctype where
  "k_netdev_hw_addr_list = CStruct False
    [Fld ''list'' k_list_head,
     Fld ''count'' (CInt 4)]"

lemma k_netdev_hw_addr_list_layout [layout_simps]: "alignof k_netdev_hw_addr_list = 8" "sizeof k_netdev_hw_addr_list = 24"
  by (simp_all add: k_netdev_hw_addr_list_def layout_simps place_def malign_def round_up_def)

lemma k_netdev_hw_addr_list_wf [wf_simps]: "wf_type k_netdev_hw_addr_list"
  by (simp add: k_netdev_hw_addr_list_def wf_simps pow2_def)

definition k_kref :: ctype where
  "k_kref = CStruct False
    [Fld ''refcount'' k_refcount_t]"

lemma k_kref_layout [layout_simps]: "alignof k_kref = 4" "sizeof k_kref = 4"
  by (simp_all add: k_kref_def layout_simps place_def malign_def round_up_def)

lemma k_kref_wf [wf_simps]: "wf_type k_kref"
  by (simp add: k_kref_def wf_simps pow2_def)

definition k_kobject :: ctype where
  "k_kobject = CStruct False
    [Fld ''name'' CPtr,
     Fld ''entry'' k_list_head,
     Fld ''parent'' CPtr,
     Fld ''kset'' CPtr,
     Fld ''ktype'' CPtr,
     Fld ''sd'' CPtr,
     Fld ''kref'' k_kref,
     Bits ''state_initialized'' 4 1,
     Bits ''state_in_sysfs'' 4 1,
     Bits ''state_add_uevent_sent'' 4 1,
     Bits ''state_remove_uevent_sent'' 4 1,
     Bits ''uevent_suppress'' 4 1,
     Fld ''rh_reserved1'' (CInt 8),
     Fld ''rh_reserved2'' (CInt 8),
     Fld ''rh_reserved3'' (CInt 8),
     Fld ''rh_reserved4'' (CInt 8)]"

lemma k_kobject_layout [layout_simps]: "alignof k_kobject = 8" "sizeof k_kobject = 96"
  by (simp_all add: k_kobject_def layout_simps place_def malign_def round_up_def)

lemma k_kobject_wf [wf_simps]: "wf_type k_kobject"
  by (simp add: k_kobject_def wf_simps pow2_def)

definition k_dev_links_info :: ctype where
  "k_dev_links_info = CStruct False
    [Fld ''suppliers'' k_list_head,
     Fld ''consumers'' k_list_head,
     Fld ''status'' (CInt 4)]"

lemma k_dev_links_info_layout [layout_simps]: "alignof k_dev_links_info = 8" "sizeof k_dev_links_info = 40"
  by (simp_all add: k_dev_links_info_def layout_simps place_def malign_def round_up_def)

lemma k_dev_links_info_wf [wf_simps]: "wf_type k_dev_links_info"
  by (simp add: k_dev_links_info_def wf_simps pow2_def)

definition k_pm_message :: ctype where
  "k_pm_message = CStruct False
    [Fld ''event'' (CInt 4)]"

lemma k_pm_message_layout [layout_simps]: "alignof k_pm_message = 4" "sizeof k_pm_message = 4"
  by (simp_all add: k_pm_message_def layout_simps place_def malign_def round_up_def)

lemma k_pm_message_wf [wf_simps]: "wf_type k_pm_message"
  by (simp add: k_pm_message_def wf_simps pow2_def)

definition k_pm_message_t :: ctype where
  "k_pm_message_t = k_pm_message"

lemma k_pm_message_t_layout [layout_simps]: "alignof k_pm_message_t = 4" "sizeof k_pm_message_t = 4"
  by (simp_all add: k_pm_message_t_def layout_simps place_def malign_def round_up_def)

lemma k_pm_message_t_wf [wf_simps]: "wf_type k_pm_message_t"
  by (simp add: k_pm_message_t_def wf_simps pow2_def)

definition k_completion :: ctype where
  "k_completion = CStruct False
    [Fld ''done'' (CInt 4),
     Fld ''wait'' k_wait_queue_head_t]"

lemma k_completion_layout [layout_simps]: "alignof k_completion = 8" "sizeof k_completion = 32"
  by (simp_all add: k_completion_def layout_simps place_def malign_def round_up_def)

lemma k_completion_wf [wf_simps]: "wf_type k_completion"
  by (simp add: k_completion_def wf_simps pow2_def)

definition k_work_func_t :: ctype where
  "k_work_func_t = CPtr"

lemma k_work_func_t_layout [layout_simps]: "alignof k_work_func_t = 8" "sizeof k_work_func_t = 8"
  by (simp_all add: k_work_func_t_def layout_simps place_def malign_def round_up_def)

lemma k_work_func_t_wf [wf_simps]: "wf_type k_work_func_t"
  by (simp add: k_work_func_t_def wf_simps pow2_def)

definition k_work_struct :: ctype where
  "k_work_struct = CStruct False
    [Fld ''data'' k_atomic_long_t,
     Fld ''entry'' k_list_head,
     Fld ''func'' k_work_func_t,
     Fld ''rh_reserved1'' (CInt 8),
     Fld ''rh_reserved2'' (CInt 8),
     Fld ''rh_reserved3'' (CInt 8),
     Fld ''rh_reserved4'' (CInt 8)]"

lemma k_work_struct_layout [layout_simps]: "alignof k_work_struct = 8" "sizeof k_work_struct = 64"
  by (simp_all add: k_work_struct_def layout_simps place_def malign_def round_up_def)

lemma k_work_struct_wf [wf_simps]: "wf_type k_work_struct"
  by (simp add: k_work_struct_def wf_simps pow2_def)

definition k_dev_pm_info :: ctype where
  "k_dev_pm_info = CStruct False
    [Fld ''power_state'' k_pm_message_t,
     Bits ''can_wakeup'' 4 1,
     Bits ''async_suspend'' 4 1,
     Bits ''in_dpm_list'' 1 1,
     Bits ''is_prepared'' 1 1,
     Bits ''is_suspended'' 1 1,
     Bits ''is_noirq_suspended'' 1 1,
     Bits ''is_late_suspended'' 1 1,
     Bits ''early_init'' 1 1,
     Bits ''direct_complete'' 1 1,
     Bits ''no_pm'' 1 1,
     Fld ''driver_flags'' k_u32,
     Fld ''lock'' k_spinlock_t,
     Fld ''entry'' k_list_head,
     Fld ''completion'' k_completion,
     Fld ''wakeup'' CPtr,
     Bits ''wakeup_path'' 1 1,
     Bits ''syscore'' 1 1,
     Bits ''no_pm_callbacks'' 1 1,
     Bits ''must_resume'' 4 1,
     Bits ''may_skip_resume'' 4 1,
     Fld ''suspend_timer'' k_timer_list,
     Fld ''timer_expires'' (CInt 8),
     Fld ''work'' k_work_struct,
     Fld ''wait_queue'' k_wait_queue_head_t,
     Fld ''wakeirq'' CPtr,
     Fld ''usage_count'' k_atomic_t,
     Fld ''child_count'' k_atomic_t,
     Bits ''disable_depth'' 4 3,
     Bits ''idle_notification'' 4 1,
     Bits ''request_pending'' 4 1,
     Bits ''deferred_resume'' 4 1,
     Bits ''runtime_auto'' 4 1,
     Bits ''ignore_children'' 1 1,
     Bits ''no_callbacks'' 4 1,
     Bits ''irq_safe'' 4 1,
     Bits ''use_autosuspend'' 4 1,
     Bits ''timer_autosuspends'' 4 1,
     Bits ''memalloc_noio'' 4 1,
     Fld ''links_count'' (CInt 4),
     Fld ''request'' (CInt 4),
     Fld ''runtime_status'' (CInt 4),
     Fld ''runtime_error'' (CInt 4),
     Fld ''autosuspend_delay'' (CInt 4),
     Fld ''last_busy'' (CInt 8),
     Fld ''active_jiffies'' (CInt 8),
     Fld ''suspended_jiffies'' (CInt 8),
     Fld ''accounting_timestamp'' (CInt 8),
     Fld ''subsys_data'' CPtr,
     Fld ''set_latency_tolerance'' CPtr,
     Fld ''qos'' CPtr]"

lemma k_dev_pm_info_layout [layout_simps]: "alignof k_dev_pm_info = 8" "sizeof k_dev_pm_info = 344"
  by (simp_all add: k_dev_pm_info_def layout_simps place_def malign_def round_up_def)

lemma k_dev_pm_info_wf [wf_simps]: "wf_type k_dev_pm_info"
  by (simp add: k_dev_pm_info_def wf_simps pow2_def)

definition k_dev_archdata :: ctype where
  "k_dev_archdata = CStruct False
    [Fld ''iommu'' CPtr]"

lemma k_dev_archdata_layout [layout_simps]: "alignof k_dev_archdata = 8" "sizeof k_dev_archdata = 8"
  by (simp_all add: k_dev_archdata_def layout_simps place_def malign_def round_up_def)

lemma k_dev_archdata_wf [wf_simps]: "wf_type k_dev_archdata"
  by (simp add: k_dev_archdata_def wf_simps pow2_def)

definition k___kernel_dev_t :: ctype where
  "k___kernel_dev_t = k_u32"

lemma k___kernel_dev_t_layout [layout_simps]: "alignof k___kernel_dev_t = 4" "sizeof k___kernel_dev_t = 4"
  by (simp_all add: k___kernel_dev_t_def layout_simps place_def malign_def round_up_def)

lemma k___kernel_dev_t_wf [wf_simps]: "wf_type k___kernel_dev_t"
  by (simp add: k___kernel_dev_t_def wf_simps pow2_def)

definition k_dev_t :: ctype where
  "k_dev_t = k___kernel_dev_t"

lemma k_dev_t_layout [layout_simps]: "alignof k_dev_t = 4" "sizeof k_dev_t = 4"
  by (simp_all add: k_dev_t_def layout_simps place_def malign_def round_up_def)

lemma k_dev_t_wf [wf_simps]: "wf_type k_dev_t"
  by (simp add: k_dev_t_def wf_simps pow2_def)

definition k_klist_node :: ctype where
  "k_klist_node = CStruct False
    [Fld ''n_klist'' CPtr,
     Fld ''n_node'' k_list_head,
     Fld ''n_ref'' k_kref]"

lemma k_klist_node_layout [layout_simps]: "alignof k_klist_node = 8" "sizeof k_klist_node = 32"
  by (simp_all add: k_klist_node_def layout_simps place_def malign_def round_up_def)

lemma k_klist_node_wf [wf_simps]: "wf_type k_klist_node"
  by (simp add: k_klist_node_def wf_simps pow2_def)

definition k_device :: ctype where
  "k_device = CStruct False
    [Fld ''parent'' CPtr,
     Fld ''p'' CPtr,
     Fld ''kobj'' k_kobject,
     Fld ''init_name'' CPtr,
     Fld ''type'' CPtr,
     Fld ''mutex'' k_mutex,
     Fld ''bus'' CPtr,
     Fld ''driver'' CPtr,
     Fld ''platform_data'' CPtr,
     Fld ''driver_data'' CPtr,
     Fld ''links'' k_dev_links_info,
     Fld ''power'' k_dev_pm_info,
     Fld ''pm_domain'' CPtr,
     Fld ''msi_domain'' CPtr,
     Fld ''pins'' CPtr,
     Fld ''msi_list'' k_list_head,
     Fld ''numa_node'' (CInt 4),
     Fld ''dma_ops'' CPtr,
     Fld ''dma_mask'' CPtr,
     Fld ''coherent_dma_mask'' k_u64,
     Fld ''bus_dma_mask'' k_u64,
     Fld ''dma_pfn_offset'' (CInt 8),
     Fld ''dma_parms'' CPtr,
     Fld ''dma_pools'' k_list_head,
     Fld ''dma_mem'' CPtr,
     Fld ''archdata'' k_dev_archdata,
     Fld ''of_node'' CPtr,
     Fld ''fwnode'' CPtr,
     Fld ''devt'' k_dev_t,
     Fld ''id'' k_u32,
     Fld ''devres_lock'' k_spinlock_t,
     Fld ''devres_head'' k_list_head,
     Fld ''knode_class'' k_klist_node,
     Fld ''class'' CPtr,
     Fld ''groups'' CPtr,
     Fld ''release'' CPtr,
     Fld ''iommu_group'' CPtr,
     Fld ''iommu_fwspec'' CPtr,
     Bits ''offline_disabled'' 1 1,
     Bits ''offline'' 1 1,
     Bits ''of_node_reused'' 1 1,
     Fld ''rh_reserved1'' (CInt 8),
     Fld ''rh_reserved2'' (CInt 8),
     Fld ''rh_reserved3'' (CInt 8),
     Fld ''rh_reserved4'' (CInt 8),
     Fld ''rh_reserved5'' (CInt 8),
     Fld ''rh_reserved6'' (CInt 8),
     Fld ''rh_reserved7'' (CInt 8),
     Fld ''rh_reserved8'' (CInt 8),
     Fld ''rh_reserved9'' (CInt 8),
     Fld ''rh_reserved10'' (CInt 8),
     Fld ''rh_reserved11'' (CInt 8),
     Fld ''rh_reserved12'' (CInt 8),
     Fld ''rh_reserved13'' (CInt 8),
     Fld ''rh_reserved14'' (CInt 8),
     Fld ''rh_reserved15'' (CInt 8),
     Fld ''rh_reserved16'' (CInt 8),
     Fld ''device_extended_size_rh'' k_size_t,
     Fld ''device_extended_rh'' CPtr]"

lemma k_device_layout [layout_simps]: "alignof k_device = 8" "sizeof k_device = 976"
  by (simp_all add: k_device_def layout_simps place_def malign_def round_up_def)

lemma k_device_wf [wf_simps]: "wf_type k_device"
  by (simp add: k_device_def wf_simps pow2_def)

definition k___s16 :: ctype where
  "k___s16 = CInt 2"

lemma k___s16_layout [layout_simps]: "alignof k___s16 = 2" "sizeof k___s16 = 2"
  by (simp_all add: k___s16_def layout_simps place_def malign_def round_up_def)

lemma k___s16_wf [wf_simps]: "wf_type k___s16"
  by (simp add: k___s16_def wf_simps pow2_def)

definition k_s16 :: ctype where
  "k_s16 = k___s16"

lemma k_s16_layout [layout_simps]: "alignof k_s16 = 2" "sizeof k_s16 = 2"
  by (simp_all add: k_s16_def layout_simps place_def malign_def round_up_def)

lemma k_s16_wf [wf_simps]: "wf_type k_s16"
  by (simp add: k_s16_def wf_simps pow2_def)

definition k_netdev_tc_txq :: ctype where
  "k_netdev_tc_txq = CStruct False
    [Fld ''count'' k_u16,
     Fld ''offset'' k_u16]"

lemma k_netdev_tc_txq_layout [layout_simps]: "alignof k_netdev_tc_txq = 2" "sizeof k_netdev_tc_txq = 4"
  by (simp_all add: k_netdev_tc_txq_def layout_simps place_def malign_def round_up_def)

lemma k_netdev_tc_txq_wf [wf_simps]: "wf_type k_netdev_tc_txq"
  by (simp add: k_netdev_tc_txq_def wf_simps pow2_def)

definition k_net_device_members_1 :: "cmember list" where
  "k_net_device_members_1 =
    [Fld ''name'' (CArr (CInt 1) 16),
     Fld ''name_hlist'' k_hlist_node,
     Fld ''ifalias'' CPtr,
     Fld ''mem_end'' (CInt 8),
     Fld ''mem_start'' (CInt 8),
     Fld ''base_addr'' (CInt 8),
     Fld ''irq'' (CInt 4),
     Fld ''state'' (CInt 8),
     Fld ''dev_list'' k_list_head,
     Fld ''napi_list'' k_list_head,
     Fld ''unreg_list'' k_list_head,
     Fld ''close_list'' k_list_head,
     Fld ''ptype_all'' k_list_head,
     Fld ''ptype_specific'' k_list_head,
     Fld ''adj_list'' (CStruct False [Fld ''upper'' k_list_head, Fld ''lower'' k_list_head]),
     Fld ''features'' k_netdev_features_t,
     Fld ''hw_features'' k_netdev_features_t,
     Fld ''wanted_features'' k_netdev_features_t,
     Fld ''vlan_features'' k_netdev_features_t,
     Fld ''hw_enc_features'' k_netdev_features_t,
     Fld ''mpls_features'' k_netdev_features_t,
     Fld ''gso_partial_features'' k_netdev_features_t,
     Fld ''ifindex'' (CInt 4),
     Fld ''group'' (CInt 4),
     Fld ''stats'' k_net_device_stats,
     Fld ''rx_dropped'' k_atomic_long_t,
     Fld ''tx_dropped'' k_atomic_long_t,
     Fld ''rx_nohandler'' k_atomic_long_t,
     Fld ''carrier_up_count'' k_atomic_t,
     Fld ''carrier_down_count'' k_atomic_t,
     Fld ''netdev_ops'' CPtr,
     Fld ''ethtool_ops'' CPtr,
     Fld ''switchdev_ops'' CPtr,
     Fld ''l3mdev_ops'' CPtr,
     Fld ''ndisc_ops'' CPtr,
     Fld ''xfrmdev_ops'' CPtr,
     Fld ''tlsdev_ops'' CPtr,
     Fld ''header_ops'' CPtr,
     Fld ''flags'' (CInt 4),
     Fld ''priv_flags'' (CInt 4),
     Fld ''gflags'' (CInt 2),
     Fld ''padded'' (CInt 2),
     Fld ''operstate'' (CInt 1),
     Fld ''link_mode'' (CInt 1),
     Fld ''if_port'' (CInt 1),
     Fld ''dma'' (CInt 1),
     Fld ''mtu'' (CInt 4),
     Fld ''min_mtu'' (CInt 4),
     Fld ''max_mtu'' (CInt 4),
     Fld ''type'' (CInt 2),
     Fld ''hard_header_len'' (CInt 2),
     Fld ''min_header_len'' (CInt 1),
     Fld ''needed_headroom'' (CInt 2),
     Fld ''needed_tailroom'' (CInt 2),
     Fld ''perm_addr'' (CArr (CInt 1) 32),
     Fld ''addr_assign_type'' (CInt 1),
     Fld ''addr_len'' (CInt 1),
     Fld ''neigh_priv_len'' (CInt 2),
     Fld ''dev_id'' (CInt 2),
     Fld ''dev_port'' (CInt 2),
     Fld ''addr_list_lock'' k_spinlock_t,
     Fld ''name_assign_type'' (CInt 1),
     Fld ''uc_promisc'' (CInt 1),
     Fld ''uc'' k_netdev_hw_addr_list,
     Fld ''mc'' k_netdev_hw_addr_list,
     Fld ''dev_addrs'' k_netdev_hw_addr_list,
     Fld ''queues_kset'' CPtr,
     Fld ''promiscuity'' (CInt 4),
     Fld ''allmulti'' (CInt 4),
     Fld ''vlan_info'' CPtr,
     Fld ''tipc_ptr'' CPtr,
     Fld ''ip_ptr'' CPtr,
     Fld ''ip6_ptr'' CPtr,
     Fld ''ieee80211_ptr'' CPtr,
     Fld ''ieee802154_ptr'' CPtr,
     Fld ''dev_addr'' CPtr,
     Fld ''_rx'' CPtr,
     Fld ''num_rx_queues'' (CInt 4),
     Fld ''real_num_rx_queues'' (CInt 4),
     Fld ''xdp_prog'' CPtr,
     Fld ''gro_flush_timeout'' (CInt 8),
     Fld ''rx_handler'' CPtr,
     Fld ''rx_handler_data'' CPtr,
     Fld ''miniq_ingress'' CPtr,
     Fld ''ingress_queue'' CPtr,
     Fld ''nf_hooks_ingress'' CPtr,
     Fld ''broadcast'' (CArr (CInt 1) 32),
     Fld ''rx_cpu_rmap'' CPtr,
     Fld ''index_hlist'' k_hlist_node,
     Bits '''' 8 64,
     Bits '''' 8 64,
     Bits '''' 8 64,
     Bits '''' 8 64,
     Bits '''' 8 64]"

lemma k_net_device_members_1_layout [layout_simps]:
  "aligns k_net_device_members_1 = 8"
  "struct_end False 0 k_net_device_members_1 = 7616"
  by (simp_all add: k_net_device_members_1_def layout_simps place_def malign_def round_up_def)

lemma k_net_device_members_1_wf [wf_simps]: "wf_members k_net_device_members_1"
  by (simp add: k_net_device_members_1_def wf_simps pow2_def)

definition k_net_device_members_2 :: "cmember list" where
  "k_net_device_members_2 =
    [Bits '''' 8 64,
     Fld ''_tx'' CPtr,
     Fld ''num_tx_queues'' (CInt 4),
     Fld ''real_num_tx_queues'' (CInt 4),
     Fld ''qdisc'' CPtr,
     Fld ''qdisc_hash'' (CArr k_hlist_head 16),
     Fld ''tx_queue_len'' (CInt 4),
     Fld ''tx_global_lock'' k_spinlock_t,
     Fld ''watchdog_timeo'' (CInt 4),
     Fld ''xps_cpus_map'' CPtr,
     Fld ''xps_rxqs_map'' CPtr,
     Fld ''miniq_egress'' CPtr,
     Fld ''watchdog_timer'' k_timer_list,
     Fld ''pcpu_refcnt'' CPtr,
     Fld ''todo_list'' k_list_head,
     Fld ''link_watch_list'' k_list_head,
     Bits ''reg_state'' 4 8,
     Fld ''dismantle'' (CInt 1),
     Bits ''rtnl_link_state'' 4 16,
     Fld ''needs_free_netdev'' (CInt 1),
     Fld ''priv_destructor'' CPtr,
     Fld ''npinfo'' CPtr,
     Fld ''nd_net'' k_possible_net_t,
     Fld '''' (CUnion False [Fld ''ml_priv'' CPtr, Fld ''lstats'' CPtr, Fld ''tstats'' CPtr, Fld ''dstats'' CPtr, Fld ''rh_reserved_vstats'' CPtr]),
     Fld ''garp_port'' CPtr,
     Fld ''mrp_port'' CPtr,
     Fld ''dev'' k_device,
     Fld ''sysfs_groups'' (CArr CPtr 4),
     Fld ''sysfs_rx_queue_group'' CPtr,
     Fld ''rtnl_link_ops'' CPtr,
     Fld ''gso_max_size'' (CInt 4),
     Fld ''gso_max_segs'' k_u16,
     Fld ''dcbnl_ops'' CPtr,
     Fld ''num_tc'' k_s16,
     Fld ''tc_to_txq'' (CArr k_netdev_tc_txq 16),
     Fld ''prio_tc_map'' (CArr k_u8 16),
     Fld ''priomap'' CPtr,
     Fld ''phydev'' CPtr,
     Fld ''sfp_bus'' CPtr,
     Fld ''qdisc_tx_busylock'' CPtr,
     Fld ''qdisc_running_key'' CPtr,
     Fld ''proto_down'' (CInt 1),
     Bits ''wol_enabled'' 4 1,
     Fld '''' (CUnion False [Fld ''mpls_ptr'' CPtr, Fld ''rh_kabi_hidden_2184'' (CStruct False [Fld ''rh_reserved1'' (CInt 8)]), Fld '''' (CUnion False [])]),
     Fld ''rh_reserved2'' (CInt 8),
     Fld ''rh_reserved3'' (CInt 8),
     Fld ''rh_reserved4'' (CInt 8),
     Fld ''rh_reserved5'' (CInt 8),
     Fld ''rh_reserved6'' (CInt 8),
     Fld ''rh_reserved7'' (CInt 8),
     Fld ''rh_reserved8'' (CInt 8),
     Fld ''rh_reserved9'' (CInt 8),
     Fld ''rh_reserved10'' (CInt 8),
     Fld ''rh_reserved11'' (CInt 8),
     Fld ''rh_reserved12'' (CInt 8),
     Fld ''rh_reserved13'' (CInt 8),
     Fld ''rh_reserved14'' (CInt 8),
     Fld ''rh_reserved15'' (CInt 8),
     Fld ''rh_reserved16'' (CInt 8),
     Fld ''rh_reserved17'' (CInt 8),
     Fld ''rh_reserved18'' (CInt 8),
     Fld ''rh_reserved19'' (CInt 8),
     Fld ''rh_reserved20'' (CInt 8),
     Fld ''rh_reserved21'' (CInt 8),
     Fld ''rh_reserved22'' (CInt 8),
     Fld ''rh_reserved23'' (CInt 8),
     Fld ''rh_reserved24'' (CInt 8),
     Fld ''rh_reserved25'' (CInt 8),
     Fld ''rh_reserved26'' (CInt 8),
     Fld ''rh_reserved27'' (CInt 8),
     Fld ''rh_reserved28'' (CInt 8),
     Fld ''rh_reserved29'' (CInt 8),
     Fld ''rh_reserved30'' (CInt 8),
     Fld ''net_device_extended_size_rh'' k_size_t,
     Fld ''net_device_extended_rh'' CPtr]"

lemma k_net_device_members_2_layout [layout_simps]:
  "aligns k_net_device_members_2 = 8"
  "struct_end False 7616 k_net_device_members_2 = 22016"
  by (simp_all add: k_net_device_members_2_def layout_simps place_def malign_def round_up_def)

lemma k_net_device_members_2_wf [wf_simps]: "wf_members k_net_device_members_2"
  by (simp add: k_net_device_members_2_def wf_simps pow2_def)

definition k_net_device :: ctype where
  "k_net_device = CStruct False (k_net_device_members_1 @ k_net_device_members_2)"

lemma k_net_device_layout [layout_simps]: "alignof k_net_device = 8" "sizeof k_net_device = 2752"
  by (simp_all add: k_net_device_def layout_simps place_def malign_def round_up_def)

lemma k_net_device_wf [wf_simps]: "wf_type k_net_device"
  by (simp add: k_net_device_def wf_simps pow2_def)

definition k___sum16 :: ctype where
  "k___sum16 = k___u16"

lemma k___sum16_layout [layout_simps]: "alignof k___sum16 = 2" "sizeof k___sum16 = 2"
  by (simp_all add: k___sum16_def layout_simps place_def malign_def round_up_def)

lemma k___sum16_wf [wf_simps]: "wf_type k___sum16"
  by (simp add: k___sum16_def wf_simps pow2_def)

definition k_iphdr :: ctype where
  "k_iphdr = CStruct False
    [Bits ''ihl'' 1 4,
     Bits ''version'' 1 4,
     Fld ''tos'' k___u8,
     Fld ''tot_len'' k___be16,
     Fld ''id'' k___be16,
     Fld ''frag_off'' k___be16,
     Fld ''ttl'' k___u8,
     Fld ''protocol'' k___u8,
     Fld ''check'' k___sum16,
     Fld ''saddr'' k___be32,
     Fld ''daddr'' k___be32]"

lemma k_iphdr_layout [layout_simps]: "alignof k_iphdr = 4" "sizeof k_iphdr = 20"
  by (simp_all add: k_iphdr_def layout_simps place_def malign_def round_up_def)

lemma k_iphdr_wf [wf_simps]: "wf_type k_iphdr"
  by (simp add: k_iphdr_def wf_simps pow2_def)

definition k_tcphdr :: ctype where
  "k_tcphdr = CStruct False
    [Fld ''source'' k___be16,
     Fld ''dest'' k___be16,
     Fld ''seq'' k___be32,
     Fld ''ack_seq'' k___be32,
     Bits ''res1'' 2 4,
     Bits ''doff'' 2 4,
     Bits ''fin'' 2 1,
     Bits ''syn'' 2 1,
     Bits ''rst'' 2 1,
     Bits ''psh'' 2 1,
     Bits ''ack'' 2 1,
     Bits ''urg'' 2 1,
     Bits ''ece'' 2 1,
     Bits ''cwr'' 2 1,
     Fld ''window'' k___be16,
     Fld ''check'' k___sum16,
     Fld ''urg_ptr'' k___be16]"

lemma k_tcphdr_layout [layout_simps]: "alignof k_tcphdr = 4" "sizeof k_tcphdr = 20"
  by (simp_all add: k_tcphdr_def layout_simps place_def malign_def round_up_def)

lemma k_tcphdr_wf [wf_simps]: "wf_type k_tcphdr"
  by (simp add: k_tcphdr_def wf_simps pow2_def)

end
