(* ===== verification/Vmlinux_Cgroup.thy ===== *)
theory Vmlinux_Cgroup
  imports Vmlinux_Net
begin

text \<open>
  Kernel types of \<^verbatim>\<open>bpf/include/vmlinux.h\<close>: control groups and kernfs nodes (read by \<open>cgroup_css_events.c\<close>, \<open>cgroup_css_gather.c\<close>,
  and through \<open>task->cgroups\<close>) and \<open>struct oom_control\<close>.
  One definition per C type, in the order the types depend on each other, with its size and
  alignment.
\<close>

definition k_percpu_ref :: ctype where
  "k_percpu_ref = CStruct False
    [Fld ''count'' k_atomic_long_t,
     Fld ''percpu_count_ptr'' (CInt 8),
     Fld ''release'' CPtr,
     Fld ''confirm_switch'' CPtr,
     Bits ''force_atomic'' 1 1,
     Fld ''rcu'' k_callback_head]"

lemma k_percpu_ref_layout [layout_simps]: "alignof k_percpu_ref = 8" "sizeof k_percpu_ref = 56"
  by (simp_all add: k_percpu_ref_def layout_simps place_def malign_def round_up_def)

lemma k_percpu_ref_wf [wf_simps]: "wf_type k_percpu_ref"
  by (simp add: k_percpu_ref_def wf_simps pow2_def)

definition k_rcu_work :: ctype where
  "k_rcu_work = CStruct False
    [Fld ''work'' k_work_struct,
     Fld ''rcu'' k_callback_head,
     Fld ''wq'' CPtr]"

lemma k_rcu_work_layout [layout_simps]: "alignof k_rcu_work = 8" "sizeof k_rcu_work = 88"
  by (simp_all add: k_rcu_work_def layout_simps place_def malign_def round_up_def)

lemma k_rcu_work_wf [wf_simps]: "wf_type k_rcu_work"
  by (simp add: k_rcu_work_def wf_simps pow2_def)

definition k_cgroup_subsys_state :: ctype where
  "k_cgroup_subsys_state = CStruct False
    [Fld ''cgroup'' CPtr,
     Fld ''ss'' CPtr,
     Fld ''refcnt'' k_percpu_ref,
     Fld ''sibling'' k_list_head,
     Fld ''children'' k_list_head,
     Fld ''rstat_css_node'' k_list_head,
     Fld ''id'' (CInt 4),
     Fld ''flags'' (CInt 4),
     Fld ''serial_nr'' k_u64,
     Fld ''online_cnt'' k_atomic_t,
     Fld ''destroy_work'' k_work_struct,
     Fld ''destroy_rwork'' k_rcu_work,
     Fld ''parent'' CPtr]"

lemma k_cgroup_subsys_state_layout [layout_simps]: "alignof k_cgroup_subsys_state = 8" "sizeof k_cgroup_subsys_state = 304"
  by (simp_all add: k_cgroup_subsys_state_def layout_simps place_def malign_def round_up_def)

lemma k_cgroup_subsys_state_wf [wf_simps]: "wf_type k_cgroup_subsys_state"
  by (simp add: k_cgroup_subsys_state_def wf_simps pow2_def)

definition k_cgroup_file :: ctype where
  "k_cgroup_file = CStruct False
    [Fld ''kn'' CPtr,
     Fld ''notified_at'' (CInt 8),
     Fld ''notify_timer'' k_timer_list]"

lemma k_cgroup_file_layout [layout_simps]: "alignof k_cgroup_file = 8" "sizeof k_cgroup_file = 88"
  by (simp_all add: k_cgroup_file_def layout_simps place_def malign_def round_up_def)

lemma k_cgroup_file_wf [wf_simps]: "wf_type k_cgroup_file"
  by (simp add: k_cgroup_file_def wf_simps pow2_def)

definition k_cgroup_base_stat :: ctype where
  "k_cgroup_base_stat = CStruct False
    [Fld ''cputime'' k_task_cputime]"

lemma k_cgroup_base_stat_layout [layout_simps]: "alignof k_cgroup_base_stat = 8" "sizeof k_cgroup_base_stat = 24"
  by (simp_all add: k_cgroup_base_stat_def layout_simps place_def malign_def round_up_def)

lemma k_cgroup_base_stat_wf [wf_simps]: "wf_type k_cgroup_base_stat"
  by (simp add: k_cgroup_base_stat_def wf_simps pow2_def)

definition k_cgroup_bpf :: ctype where
  "k_cgroup_bpf = CStruct False
    [Fld ''effective'' (CArr CPtr 64),
     Fld ''progs'' (CArr k_list_head 64),
     Fld ''flags'' (CArr k_u32 64),
     Fld ''inactive'' CPtr,
     Fld ''refcnt'' k_percpu_ref,
     Fld ''release_work'' k_work_struct,
     Fld ''rh_reserved1'' (CInt 8),
     Fld ''rh_reserved2'' (CInt 8),
     Fld ''rh_reserved3'' (CInt 8),
     Fld ''rh_reserved4'' (CInt 8),
     Fld ''rh_reserved5'' (CInt 8),
     Fld ''rh_reserved6'' (CInt 8),
     Fld ''rh_reserved7'' (CInt 8),
     Fld ''rh_reserved8'' (CInt 8),
     Fld ''rh_reserved9'' (CInt 8),
     Fld ''rh_reserved10'' (CInt 8),
     Fld ''rh_reserved11'' (CInt 8),
     Fld ''rh_reserved12'' (CInt 8),
     Fld ''rh_reserved13'' (CInt 8),
     Fld ''rh_reserved14'' (CInt 8),
     Fld ''rh_reserved15'' (CInt 8),
     Fld ''rh_reserved16'' (CInt 8)]"

lemma k_cgroup_bpf_layout [layout_simps]: "alignof k_cgroup_bpf = 8" "sizeof k_cgroup_bpf = 2048"
  by (simp_all add: k_cgroup_bpf_def layout_simps place_def malign_def round_up_def)

lemma k_cgroup_bpf_wf [wf_simps]: "wf_type k_cgroup_bpf"
  by (simp add: k_cgroup_bpf_def wf_simps pow2_def)

definition k_cgroup_freezer_state :: ctype where
  "k_cgroup_freezer_state = CStruct False
    [Fld ''freeze'' (CInt 1),
     Fld ''e_freeze'' (CInt 4),
     Fld ''nr_frozen_descendants'' (CInt 4),
     Fld ''nr_frozen_tasks'' (CInt 4)]"

lemma k_cgroup_freezer_state_layout [layout_simps]: "alignof k_cgroup_freezer_state = 4" "sizeof k_cgroup_freezer_state = 16"
  by (simp_all add: k_cgroup_freezer_state_def layout_simps place_def malign_def round_up_def)

lemma k_cgroup_freezer_state_wf [wf_simps]: "wf_type k_cgroup_freezer_state"
  by (simp add: k_cgroup_freezer_state_def wf_simps pow2_def)

definition k_delayed_work :: ctype where
  "k_delayed_work = CStruct False
    [Fld ''work'' k_work_struct,
     Fld ''timer'' k_timer_list,
     Fld ''wq'' CPtr,
     Fld ''cpu'' (CInt 4),
     Fld ''rh_reserved1'' (CInt 8),
     Fld ''rh_reserved2'' (CInt 8),
     Fld ''rh_reserved3'' (CInt 8),
     Fld ''rh_reserved4'' (CInt 8)]"

lemma k_delayed_work_layout [layout_simps]: "alignof k_delayed_work = 8" "sizeof k_delayed_work = 184"
  by (simp_all add: k_delayed_work_def layout_simps place_def malign_def round_up_def)

lemma k_delayed_work_wf [wf_simps]: "wf_type k_delayed_work"
  by (simp add: k_delayed_work_def wf_simps pow2_def)

definition k_kthread_work_func_t :: ctype where
  "k_kthread_work_func_t = CPtr"

lemma k_kthread_work_func_t_layout [layout_simps]: "alignof k_kthread_work_func_t = 8" "sizeof k_kthread_work_func_t = 8"
  by (simp_all add: k_kthread_work_func_t_def layout_simps place_def malign_def round_up_def)

lemma k_kthread_work_func_t_wf [wf_simps]: "wf_type k_kthread_work_func_t"
  by (simp add: k_kthread_work_func_t_def wf_simps pow2_def)

definition k_kthread_work :: ctype where
  "k_kthread_work = CStruct False
    [Fld ''node'' k_list_head,
     Fld ''func'' k_kthread_work_func_t,
     Fld ''worker'' CPtr,
     Fld ''canceling'' (CInt 4)]"

lemma k_kthread_work_layout [layout_simps]: "alignof k_kthread_work = 8" "sizeof k_kthread_work = 40"
  by (simp_all add: k_kthread_work_def layout_simps place_def malign_def round_up_def)

lemma k_kthread_work_wf [wf_simps]: "wf_type k_kthread_work"
  by (simp add: k_kthread_work_def wf_simps pow2_def)

definition k_kthread_delayed_work :: ctype where
  "k_kthread_delayed_work = CStruct False
    [Fld ''work'' k_kthread_work,
     Fld ''timer'' k_timer_list]"

lemma k_kthread_delayed_work_layout [layout_simps]: "alignof k_kthread_delayed_work = 8" "sizeof k_kthread_delayed_work = 112"
  by (simp_all add: k_kthread_delayed_work_def layout_simps place_def malign_def round_up_def)

lemma k_kthread_delayed_work_wf [wf_simps]: "wf_type k_kthread_delayed_work"
  by (simp add: k_kthread_delayed_work_def wf_simps pow2_def)

definition k_psi_group :: ctype where
  "k_psi_group = CStruct False
    [Fld ''avgs_lock'' k_mutex,
     Fld ''pcpu'' CPtr,
     Fld ''avg_total'' (CArr k_u64 6),
     Fld ''avg_last_update'' k_u64,
     Fld ''avg_next_update'' k_u64,
     Fld ''avgs_work'' k_delayed_work,
     Fld ''total'' (CArr k_u64 12),
     Fld ''avg'' (CArr (CInt 8) 18),
     Fld ''poll_scheduled'' k_atomic_t,
     Fld ''poll_kworker'' CPtr,
     Fld ''poll_work'' k_kthread_delayed_work,
     Fld ''trigger_lock'' k_mutex,
     Fld ''triggers'' k_list_head,
     Fld ''nr_triggers'' (CArr k_u32 6),
     Fld ''poll_states'' k_u32,
     Fld ''poll_min_period'' k_u64,
     Fld ''polling_total'' (CArr k_u64 6),
     Fld ''polling_next_update'' k_u64,
     Fld ''polling_until'' k_u64]"

lemma k_psi_group_layout [layout_simps]: "alignof k_psi_group = 8" "sizeof k_psi_group = 808"
  by (simp_all add: k_psi_group_def layout_simps place_def malign_def round_up_def)

lemma k_psi_group_wf [wf_simps]: "wf_type k_psi_group"
  by (simp add: k_psi_group_def wf_simps pow2_def)

definition k_cgroup :: ctype where
  "k_cgroup = CStruct False
    [Fld ''self'' k_cgroup_subsys_state,
     Fld ''flags'' (CInt 8),
     Fld ''id'' (CInt 4),
     Fld ''level'' (CInt 4),
     Fld ''max_depth'' (CInt 4),
     Fld ''nr_descendants'' (CInt 4),
     Fld ''nr_dying_descendants'' (CInt 4),
     Fld ''max_descendants'' (CInt 4),
     Fld ''nr_populated_csets'' (CInt 4),
     Fld ''nr_populated_domain_children'' (CInt 4),
     Fld ''nr_populated_threaded_children'' (CInt 4),
     Fld ''nr_threaded_children'' (CInt 4),
     Fld ''kn'' CPtr,
     Fld ''procs_file'' k_cgroup_file,
     Fld ''events_file'' k_cgroup_file,
     Fld ''subtree_control'' k_u16,
     Fld ''subtree_ss_mask'' k_u16,
     Fld ''old_subtree_control'' k_u16,
     Fld ''old_subtree_ss_mask'' k_u16,
     Fld ''subsys'' (CArr CPtr 13),
     Fld ''root'' CPtr,
     Fld ''cset_links'' k_list_head,
     Fld ''e_csets'' (CArr k_list_head 13),
     Fld ''dom_cgrp'' CPtr,
     Fld ''rstat_cpu'' CPtr,
     Fld ''rstat_css_list'' k_list_head,
     Fld ''pending_bstat'' k_cgroup_base_stat,
     Fld ''bstat'' k_cgroup_base_stat,
     Fld ''prev_cputime'' k_prev_cputime,
     Fld ''pidlists'' k_list_head,
     Fld ''pidlist_mutex'' k_mutex,
     Fld ''offline_waitq'' k_wait_queue_head_t,
     Fld ''release_agent_work'' k_work_struct,
     Fld ''bpf'' k_cgroup_bpf,
     Fld ''congestion_count'' k_atomic_t,
     Fld ''old_dom_cgrp'' CPtr,
     Fld ''freezer'' k_cgroup_freezer_state,
     Fld ''psi'' k_psi_group,
     Fld ''ancestor_ids'' (CArr (CInt 4) 0)]"

lemma k_cgroup_layout [layout_simps]: "alignof k_cgroup = 8" "sizeof k_cgroup = 4008"
  by (simp_all add: k_cgroup_def layout_simps place_def malign_def round_up_def)

lemma k_cgroup_wf [wf_simps]: "wf_type k_cgroup"
  by (simp add: k_cgroup_def wf_simps pow2_def)

definition k_css_set :: ctype where
  "k_css_set = CStruct False
    [Fld ''subsys'' (CArr CPtr 13),
     Fld ''refcount'' k_refcount_t,
     Fld ''dom_cset'' CPtr,
     Fld ''dfl_cgrp'' CPtr,
     Fld ''nr_tasks'' (CInt 4),
     Fld ''tasks'' k_list_head,
     Fld ''mg_tasks'' k_list_head,
     Fld ''task_iters'' k_list_head,
     Fld ''e_cset_node'' (CArr k_list_head 13),
     Fld ''threaded_csets'' k_list_head,
     Fld ''threaded_csets_node'' k_list_head,
     Fld ''hlist'' k_hlist_node,
     Fld ''cgrp_links'' k_list_head,
     Fld ''mg_preload_node'' k_list_head,
     Fld ''mg_node'' k_list_head,
     Fld ''mg_src_cgrp'' CPtr,
     Fld ''mg_dst_cgrp'' CPtr,
     Fld ''mg_dst_cset'' CPtr,
     Fld ''dead'' (CInt 1),
     Fld ''callback_head'' k_callback_head]"

lemma k_css_set_layout [layout_simps]: "alignof k_css_set = 8" "sizeof k_css_set = 536"
  by (simp_all add: k_css_set_def layout_simps place_def malign_def round_up_def)

lemma k_css_set_wf [wf_simps]: "wf_type k_css_set"
  by (simp add: k_css_set_def wf_simps pow2_def)

definition k_kernfs_elem_dir :: ctype where
  "k_kernfs_elem_dir = CStruct False
    [Fld ''subdirs'' (CInt 8),
     Fld ''children'' k_rb_root,
     Fld ''root'' CPtr]"

lemma k_kernfs_elem_dir_layout [layout_simps]: "alignof k_kernfs_elem_dir = 8" "sizeof k_kernfs_elem_dir = 24"
  by (simp_all add: k_kernfs_elem_dir_def layout_simps place_def malign_def round_up_def)

lemma k_kernfs_elem_dir_wf [wf_simps]: "wf_type k_kernfs_elem_dir"
  by (simp add: k_kernfs_elem_dir_def wf_simps pow2_def)

definition k_kernfs_elem_symlink :: ctype where
  "k_kernfs_elem_symlink = CStruct False
    [Fld ''target_kn'' CPtr]"

lemma k_kernfs_elem_symlink_layout [layout_simps]: "alignof k_kernfs_elem_symlink = 8" "sizeof k_kernfs_elem_symlink = 8"
  by (simp_all add: k_kernfs_elem_symlink_def layout_simps place_def malign_def round_up_def)

lemma k_kernfs_elem_symlink_wf [wf_simps]: "wf_type k_kernfs_elem_symlink"
  by (simp add: k_kernfs_elem_symlink_def wf_simps pow2_def)

definition k___kernel_loff_t :: ctype where
  "k___kernel_loff_t = CInt 8"

lemma k___kernel_loff_t_layout [layout_simps]: "alignof k___kernel_loff_t = 8" "sizeof k___kernel_loff_t = 8"
  by (simp_all add: k___kernel_loff_t_def layout_simps place_def malign_def round_up_def)

lemma k___kernel_loff_t_wf [wf_simps]: "wf_type k___kernel_loff_t"
  by (simp add: k___kernel_loff_t_def wf_simps pow2_def)

definition k_loff_t :: ctype where
  "k_loff_t = k___kernel_loff_t"

lemma k_loff_t_layout [layout_simps]: "alignof k_loff_t = 8" "sizeof k_loff_t = 8"
  by (simp_all add: k_loff_t_def layout_simps place_def malign_def round_up_def)

lemma k_loff_t_wf [wf_simps]: "wf_type k_loff_t"
  by (simp add: k_loff_t_def wf_simps pow2_def)

definition k_kernfs_elem_attr :: ctype where
  "k_kernfs_elem_attr = CStruct False
    [Fld ''ops'' CPtr,
     Fld ''open'' CPtr,
     Fld ''size'' k_loff_t,
     Fld ''notify_next'' CPtr]"

lemma k_kernfs_elem_attr_layout [layout_simps]: "alignof k_kernfs_elem_attr = 8" "sizeof k_kernfs_elem_attr = 32"
  by (simp_all add: k_kernfs_elem_attr_def layout_simps place_def malign_def round_up_def)

lemma k_kernfs_elem_attr_wf [wf_simps]: "wf_type k_kernfs_elem_attr"
  by (simp add: k_kernfs_elem_attr_def wf_simps pow2_def)

definition k_kernfs_node_id_u :: ctype where
  "k_kernfs_node_id_u = CUnion False
    [Fld '''' (CStruct False [Fld ''ino'' k_u32, Fld ''generation'' k_u32]),
     Fld ''id'' k_u64]"

lemma k_kernfs_node_id_u_layout [layout_simps]: "alignof k_kernfs_node_id_u = 8" "sizeof k_kernfs_node_id_u = 8"
  by (simp_all add: k_kernfs_node_id_u_def layout_simps place_def malign_def round_up_def)

lemma k_kernfs_node_id_u_wf [wf_simps]: "wf_type k_kernfs_node_id_u"
  by (simp add: k_kernfs_node_id_u_def wf_simps pow2_def)

definition k_umode_t :: ctype where
  "k_umode_t = CInt 2"

lemma k_umode_t_layout [layout_simps]: "alignof k_umode_t = 2" "sizeof k_umode_t = 2"
  by (simp_all add: k_umode_t_def layout_simps place_def malign_def round_up_def)

lemma k_umode_t_wf [wf_simps]: "wf_type k_umode_t"
  by (simp add: k_umode_t_def wf_simps pow2_def)

definition k_kernfs_node :: ctype where
  "k_kernfs_node = CStruct False
    [Fld ''count'' k_atomic_t,
     Fld ''active'' k_atomic_t,
     Fld ''parent'' CPtr,
     Fld ''name'' CPtr,
     Fld ''rb'' k_rb_node,
     Fld ''ns'' CPtr,
     Fld ''hash'' (CInt 4),
     Fld '''' (CUnion False [Fld ''dir'' k_kernfs_elem_dir, Fld ''symlink'' k_kernfs_elem_symlink, Fld ''attr'' k_kernfs_elem_attr]),
     Fld ''priv'' CPtr,
     Fld ''id'' k_kernfs_node_id_u,
     Fld ''flags'' (CInt 2),
     Fld ''mode'' k_umode_t,
     Fld ''iattr'' CPtr]"

lemma k_kernfs_node_layout [layout_simps]: "alignof k_kernfs_node = 8" "sizeof k_kernfs_node = 128"
  by (simp_all add: k_kernfs_node_def layout_simps place_def malign_def round_up_def)

lemma k_kernfs_node_wf [wf_simps]: "wf_type k_kernfs_node"
  by (simp add: k_kernfs_node_def wf_simps pow2_def)

definition k_xarray_rh :: ctype where
  "k_xarray_rh = CStruct False
    []"

lemma k_xarray_rh_layout [layout_simps]: "alignof k_xarray_rh = 1" "sizeof k_xarray_rh = 0"
  by (simp_all add: k_xarray_rh_def layout_simps place_def malign_def round_up_def)

lemma k_xarray_rh_wf [wf_simps]: "wf_type k_xarray_rh"
  by (simp add: k_xarray_rh_def wf_simps pow2_def)

definition k_xarray :: ctype where
  "k_xarray = CStruct False
    [Fld ''xa_lock'' k_spinlock_t,
     Fld ''xa_flags'' k_gfp_t,
     Fld ''xa_head'' CPtr,
     Fld ''xarray_size_rh'' k_size_t,
     Fld ''xarray_rh'' k_xarray_rh]"

lemma k_xarray_layout [layout_simps]: "alignof k_xarray = 8" "sizeof k_xarray = 24"
  by (simp_all add: k_xarray_def layout_simps place_def malign_def round_up_def)

lemma k_xarray_wf [wf_simps]: "wf_type k_xarray"
  by (simp add: k_xarray_def wf_simps pow2_def)

definition k_idr :: ctype where
  "k_idr = CStruct False
    [Fld ''idr_rt'' k_xarray,
     Fld ''idr_base'' (CInt 4),
     Fld ''idr_next'' (CInt 4)]"

lemma k_idr_layout [layout_simps]: "alignof k_idr = 8" "sizeof k_idr = 32"
  by (simp_all add: k_idr_def layout_simps place_def malign_def round_up_def)

lemma k_idr_wf [wf_simps]: "wf_type k_idr"
  by (simp add: k_idr_def wf_simps pow2_def)

definition k_cgroup_root :: ctype where
  "k_cgroup_root = CStruct False
    [Fld ''kf_root'' CPtr,
     Fld ''subsys_mask'' (CInt 4),
     Fld ''hierarchy_id'' (CInt 4),
     Fld ''cgrp'' k_cgroup,
     Fld ''cgrp_ancestor_id_storage'' (CInt 4),
     Fld ''nr_cgrps'' k_atomic_t,
     Fld ''root_list'' k_list_head,
     Fld ''flags'' (CInt 4),
     Fld ''cgroup_idr'' k_idr,
     Fld ''release_agent_path'' (CArr (CInt 1) 4096),
     Fld ''name'' (CArr (CInt 1) 64)]"

lemma k_cgroup_root_layout [layout_simps]: "alignof k_cgroup_root = 8" "sizeof k_cgroup_root = 8248"
  by (simp_all add: k_cgroup_root_def layout_simps place_def malign_def round_up_def)

lemma k_cgroup_root_wf [wf_simps]: "wf_type k_cgroup_root"
  by (simp add: k_cgroup_root_def wf_simps pow2_def)

definition k_oom_control :: ctype where
  "k_oom_control = CStruct False
    [Fld ''zonelist'' CPtr,
     Fld ''nodemask'' CPtr,
     Fld ''memcg'' CPtr,
     Fld ''gfp_mask'' k_gfp_t,
     Fld ''order'' (CInt 4),
     Fld ''totalpages'' (CInt 8),
     Fld ''chosen'' CPtr,
     Fld ''chosen_points'' (CInt 8),
     Fld ''constraint'' (CInt 4)]"

lemma k_oom_control_layout [layout_simps]: "alignof k_oom_control = 8" "sizeof k_oom_control = 64"
  by (simp_all add: k_oom_control_def layout_simps place_def malign_def round_up_def)

lemma k_oom_control_wf [wf_simps]: "wf_type k_oom_control"
  by (simp add: k_oom_control_def wf_simps pow2_def)

end
