(* ===== verification/Vmlinux_Trace.thy ===== *)
theory Vmlinux_Trace
  imports Vmlinux_Cgroup
begin

text \<open>
  Kernel types of \<^verbatim>\<open>bpf/include/vmlinux.h\<close>: the contexts the kernel hands to tracepoint, raw tracepoint and kprobe programs.
  One definition per C type, in the order the types depend on each other, with its size and
  alignment.
\<close>

definition k_trace_entry :: ctype where
  "k_trace_entry = CStruct False
    [Fld ''type'' (CInt 2),
     Fld ''flags'' (CInt 1),
     Fld ''preempt_count'' (CInt 1),
     Fld ''pid'' (CInt 4)]"

lemma k_trace_entry_layout [layout_simps]: "alignof k_trace_entry = 4" "sizeof k_trace_entry = 8"
  by (simp_all add: k_trace_entry_def layout_simps place_def malign_def round_up_def)

lemma k_trace_entry_wf [wf_simps]: "wf_type k_trace_entry"
  by (simp add: k_trace_entry_def wf_simps pow2_def)

definition k_trace_event_raw_kfree_skb :: ctype where
  "k_trace_event_raw_kfree_skb = CStruct False
    [Fld ''ent'' k_trace_entry,
     Fld ''skbaddr'' CPtr,
     Fld ''location'' CPtr,
     Fld ''protocol'' (CInt 2),
     Fld ''__data'' (CArr (CInt 1) 0)]"

lemma k_trace_event_raw_kfree_skb_layout [layout_simps]: "alignof k_trace_event_raw_kfree_skb = 8" "sizeof k_trace_event_raw_kfree_skb = 32"
  by (simp_all add: k_trace_event_raw_kfree_skb_def layout_simps place_def malign_def round_up_def)

lemma k_trace_event_raw_kfree_skb_wf [wf_simps]: "wf_type k_trace_event_raw_kfree_skb"
  by (simp add: k_trace_event_raw_kfree_skb_def wf_simps pow2_def)

definition k_trace_event_raw_softirq :: ctype where
  "k_trace_event_raw_softirq = CStruct False
    [Fld ''ent'' k_trace_entry,
     Fld ''vec'' (CInt 4),
     Fld ''__data'' (CArr (CInt 1) 0)]"

lemma k_trace_event_raw_softirq_layout [layout_simps]: "alignof k_trace_event_raw_softirq = 4" "sizeof k_trace_event_raw_softirq = 12"
  by (simp_all add: k_trace_event_raw_softirq_def layout_simps place_def malign_def round_up_def)

lemma k_trace_event_raw_softirq_wf [wf_simps]: "wf_type k_trace_event_raw_softirq"
  by (simp add: k_trace_event_raw_softirq_def wf_simps pow2_def)

definition k_trace_event_raw_tick_stop :: ctype where
  "k_trace_event_raw_tick_stop = CStruct False
    [Fld ''ent'' k_trace_entry,
     Fld ''success'' (CInt 4),
     Fld ''dependency'' (CInt 4),
     Fld ''__data'' (CArr (CInt 1) 0)]"

lemma k_trace_event_raw_tick_stop_layout [layout_simps]: "alignof k_trace_event_raw_tick_stop = 4" "sizeof k_trace_event_raw_tick_stop = 16"
  by (simp_all add: k_trace_event_raw_tick_stop_def layout_simps place_def malign_def round_up_def)

lemma k_trace_event_raw_tick_stop_wf [wf_simps]: "wf_type k_trace_event_raw_tick_stop"
  by (simp add: k_trace_event_raw_tick_stop_def wf_simps pow2_def)

definition k_trace_event_raw_sched_wakeup_template :: ctype where
  "k_trace_event_raw_sched_wakeup_template = CStruct False
    [Fld ''ent'' k_trace_entry,
     Fld ''comm'' (CArr (CInt 1) 16),
     Fld ''pid'' k_pid_t,
     Fld ''prio'' (CInt 4),
     Fld ''success'' (CInt 4),
     Fld ''target_cpu'' (CInt 4),
     Fld ''__data'' (CArr (CInt 1) 0)]"

lemma k_trace_event_raw_sched_wakeup_template_layout [layout_simps]: "alignof k_trace_event_raw_sched_wakeup_template = 4" "sizeof k_trace_event_raw_sched_wakeup_template = 40"
  by (simp_all add: k_trace_event_raw_sched_wakeup_template_def layout_simps place_def malign_def round_up_def)

lemma k_trace_event_raw_sched_wakeup_template_wf [wf_simps]: "wf_type k_trace_event_raw_sched_wakeup_template"
  by (simp add: k_trace_event_raw_sched_wakeup_template_def wf_simps pow2_def)

definition k_trace_event_raw_net_dev_template :: ctype where
  "k_trace_event_raw_net_dev_template = CStruct False
    [Fld ''ent'' k_trace_entry,
     Fld ''skbaddr'' CPtr,
     Fld ''len'' (CInt 4),
     Fld ''__data_loc_name'' k_u32,
     Fld ''__data'' (CArr (CInt 1) 0)]"

lemma k_trace_event_raw_net_dev_template_layout [layout_simps]: "alignof k_trace_event_raw_net_dev_template = 8" "sizeof k_trace_event_raw_net_dev_template = 24"
  by (simp_all add: k_trace_event_raw_net_dev_template_def layout_simps place_def malign_def round_up_def)

lemma k_trace_event_raw_net_dev_template_wf [wf_simps]: "wf_type k_trace_event_raw_net_dev_template"
  by (simp add: k_trace_event_raw_net_dev_template_def wf_simps pow2_def)

definition k_trace_event_raw_skb_copy_datagram_iovec :: ctype where
  "k_trace_event_raw_skb_copy_datagram_iovec = CStruct False
    [Fld ''ent'' k_trace_entry,
     Fld ''skbaddr'' CPtr,
     Fld ''len'' (CInt 4),
     Fld ''__data'' (CArr (CInt 1) 0)]"

lemma k_trace_event_raw_skb_copy_datagram_iovec_layout [layout_simps]: "alignof k_trace_event_raw_skb_copy_datagram_iovec = 8" "sizeof k_trace_event_raw_skb_copy_datagram_iovec = 24"
  by (simp_all add: k_trace_event_raw_skb_copy_datagram_iovec_def layout_simps place_def malign_def round_up_def)

lemma k_trace_event_raw_skb_copy_datagram_iovec_wf [wf_simps]: "wf_type k_trace_event_raw_skb_copy_datagram_iovec"
  by (simp add: k_trace_event_raw_skb_copy_datagram_iovec_def wf_simps pow2_def)

definition k_trace_event_raw_sched_process_hang :: ctype where
  "k_trace_event_raw_sched_process_hang = CStruct False
    [Fld ''ent'' k_trace_entry,
     Fld ''comm'' (CArr (CInt 1) 16),
     Fld ''pid'' k_pid_t,
     Fld ''__data'' (CArr (CInt 1) 0)]"

lemma k_trace_event_raw_sched_process_hang_layout [layout_simps]: "alignof k_trace_event_raw_sched_process_hang = 4" "sizeof k_trace_event_raw_sched_process_hang = 28"
  by (simp_all add: k_trace_event_raw_sched_process_hang_def layout_simps place_def malign_def round_up_def)

lemma k_trace_event_raw_sched_process_hang_wf [wf_simps]: "wf_type k_trace_event_raw_sched_process_hang"
  by (simp add: k_trace_event_raw_sched_process_hang_def wf_simps pow2_def)

definition k_pt_regs :: ctype where
  "k_pt_regs = CStruct False
    [Fld ''r15'' (CInt 8),
     Fld ''r14'' (CInt 8),
     Fld ''r13'' (CInt 8),
     Fld ''r12'' (CInt 8),
     Fld ''bp'' (CInt 8),
     Fld ''bx'' (CInt 8),
     Fld ''r11'' (CInt 8),
     Fld ''r10'' (CInt 8),
     Fld ''r9'' (CInt 8),
     Fld ''r8'' (CInt 8),
     Fld ''ax'' (CInt 8),
     Fld ''cx'' (CInt 8),
     Fld ''dx'' (CInt 8),
     Fld ''si'' (CInt 8),
     Fld ''di'' (CInt 8),
     Fld ''orig_ax'' (CInt 8),
     Fld ''ip'' (CInt 8),
     Fld ''cs'' (CInt 8),
     Fld ''flags'' (CInt 8),
     Fld ''sp'' (CInt 8),
     Fld ''ss'' (CInt 8)]"

lemma k_pt_regs_layout [layout_simps]: "alignof k_pt_regs = 8" "sizeof k_pt_regs = 168"
  by (simp_all add: k_pt_regs_def layout_simps place_def malign_def round_up_def)

lemma k_pt_regs_wf [wf_simps]: "wf_type k_pt_regs"
  by (simp add: k_pt_regs_def wf_simps pow2_def)

definition k_bpf_raw_tracepoint_args :: ctype where
  "k_bpf_raw_tracepoint_args = CStruct False
    [Fld ''args'' (CArr k___u64 0)]"

lemma k_bpf_raw_tracepoint_args_layout [layout_simps]: "alignof k_bpf_raw_tracepoint_args = 8" "sizeof k_bpf_raw_tracepoint_args = 0"
  by (simp_all add: k_bpf_raw_tracepoint_args_def layout_simps place_def malign_def round_up_def)

lemma k_bpf_raw_tracepoint_args_wf [wf_simps]: "wf_type k_bpf_raw_tracepoint_args"
  by (simp add: k_bpf_raw_tracepoint_args_def wf_simps pow2_def)

end
