(* ===== verification/Vmlinux_Env.thy ===== *)
theory Vmlinux_Env
  imports Vmlinux_Trace Bpf_Runtime
begin

text \<open>
  Member offsets that the layout of \<^verbatim>\<open>bpf/include/vmlinux.h\<close> gives to the accesses the
  programs make, and environments whose kernel has this layout. The programs themselves take
  the offsets from the loader, since CO-RE relocations follow the running kernel.
\<close>

section \<open>Offsets of the members the programs read\<close>

definition kernel_structs :: "(string \<times> ctype) list" where
  "kernel_structs =
    [(''task_struct'', k_task_struct),
     (''css_set'', k_css_set),
     (''sk_buff'', k_sk_buff),
     (''sock'', k_sock),
     (''sock_common'', k_sock_common),
     (''net_device'', k_net_device),
     (''iphdr'', k_iphdr),
     (''tcphdr'', k_tcphdr),
     (''cgroup'', k_cgroup),
     (''kernfs_node'', k_kernfs_node),
     (''cgroup_root'', k_cgroup_root),
     (''cgroup_subsys_state'', k_cgroup_subsys_state),
     (''oom_control'', k_oom_control)]"

definition vmlinux_offset :: "string \<Rightarrow> string list \<Rightarrow> u64" where
  "vmlinux_offset s fs =
     (case map_of kernel_structs s of
        None \<Rightarrow> 0
      | Some t \<Rightarrow> (case offsetof t fs of None \<Rightarrow> 0 | Some d \<Rightarrow> of_nat d))"

lemmas layout_eval = layout_simps place_def malign_def round_up_def

lemma find_task_struct_state_1:
  "find_struct False 0 k_task_struct_members_1 ''state'' = Some (128, Fld ''state'' (CInt 8))"
  by (simp add: k_task_struct_members_1_def layout_eval)

lemma find_task_struct_flags_1:
  "find_struct False 0 k_task_struct_members_1 ''flags'' = Some (288, Fld ''flags'' (CInt 4))"
  by (simp add: k_task_struct_members_1_def layout_eval)

lemma find_task_struct_pid_1:
  "find_struct False 0 k_task_struct_members_1 ''pid'' = Some (18432, Fld ''pid'' k_pid_t)"
  by (simp add: k_task_struct_members_1_def layout_eval)

lemma find_task_struct_comm_1: "find_struct False b k_task_struct_members_1 ''comm'' = None"
  by (rule find_struct_skip) (simp add: k_task_struct_members_1_def)

lemma find_task_struct_comm_2:
  "find_struct False 19584 k_task_struct_members_2 ''comm'' = Some (22272, Fld ''comm'' (CArr (CInt 1) 16))"
  by (simp add: k_task_struct_members_2_def layout_eval)

lemma find_task_struct_cgroups_1: "find_struct False b k_task_struct_members_1 ''cgroups'' = None"
  by (rule find_struct_skip) (simp add: k_task_struct_members_1_def)

lemma find_task_struct_cgroups_2: "find_struct False b k_task_struct_members_2 ''cgroups'' = None"
  by (rule find_struct_skip) (simp add: k_task_struct_members_2_def)

lemma find_task_struct_cgroups_3:
  "find_struct False 25472 k_task_struct_members_3 ''cgroups'' = Some (26688, Fld ''cgroups'' CPtr)"
  by (simp add: k_task_struct_members_3_def layout_eval)

lemma find_task_struct_sched_task_group_1:
  "find_struct False 0 k_task_struct_members_1 ''sched_task_group'' = Some (5696, Fld ''sched_task_group'' CPtr)"
  by (simp add: k_task_struct_members_1_def layout_eval)

lemma offsetof_task_struct:
  "offsetof k_task_struct [''state''] = Some 16"
  "offsetof k_task_struct [''flags''] = Some 36"
  "offsetof k_task_struct [''pid''] = Some 2304"
  "offsetof k_task_struct [''comm''] = Some 2784"
  "offsetof k_task_struct [''cgroups''] = Some 3336"
  "offsetof k_task_struct [''sched_task_group''] = Some 712"
  by (simp_all add: k_task_struct_def find_task_struct_state_1 find_task_struct_flags_1 find_task_struct_pid_1 find_task_struct_comm_1 find_task_struct_comm_2 find_task_struct_cgroups_1 find_task_struct_cgroups_2 find_task_struct_cgroups_3 find_task_struct_sched_task_group_1 layout_eval)

lemma offsetof_css_set:
  "offsetof k_css_set [''subsys''] = Some 0"
  by (simp_all add: k_css_set_def layout_eval)

lemma offsetof_sk_buff:
  "offsetof k_sk_buff [''head''] = Some 224"
  "offsetof k_sk_buff [''sk''] = Some 24"
  "offsetof k_sk_buff [''network_header''] = Some 196"
  "offsetof k_sk_buff [''transport_header''] = Some 194"
  "offsetof k_sk_buff [''len''] = Some 128"
  "offsetof k_sk_buff [''queue_mapping''] = Some 140"
  "offsetof k_sk_buff [''protocol''] = Some 192"
  "offsetof k_sk_buff [''tstamp''] = Some 32"
  by (simp_all add: k_sk_buff_def layout_eval)

lemma offsetof_sock:
  "offsetof k_sock [''__sk_common'', ''skc_state''] = Some 18"
  "offsetof k_sock [''__sk_flags_offset''] = Some 536"
  by (simp_all add: k_sock_def k_sock_common_def layout_eval)

lemma offsetof_sock_common:
  "offsetof k_sock_common [''skc_family''] = Some 16"
  "offsetof k_sock_common [''skc_state''] = Some 18"
  by (simp_all add: k_sock_common_def layout_eval)

lemma find_net_device_ifindex_1:
  "find_struct False 0 k_net_device_members_1 ''ifindex'' = Some (2112, Fld ''ifindex'' (CInt 4))"
  by (simp add: k_net_device_members_1_def layout_eval)

lemma find_net_device_rx_dropped_1:
  "find_struct False 0 k_net_device_members_1 ''rx_dropped'' = Some (3648, Fld ''rx_dropped'' k_atomic_long_t)"
  by (simp add: k_net_device_members_1_def layout_eval)

lemma find_net_device_dev_1: "find_struct False b k_net_device_members_1 ''dev'' = None"
  by (rule find_struct_skip) (simp add: k_net_device_members_1_def)

lemma find_net_device_dev_2:
  "find_struct False 7616 k_net_device_members_2 ''dev'' = Some (10560, Fld ''dev'' k_device)"
  by (simp add: k_net_device_members_2_def layout_eval)

lemma offsetof_net_device:
  "offsetof k_net_device [''ifindex''] = Some 264"
  "offsetof k_net_device [''rx_dropped'', ''counter''] = Some 456"
  "offsetof k_net_device [''dev''] = Some 1320"
  by (simp_all add: k_net_device_def find_net_device_ifindex_1 find_net_device_rx_dropped_1 find_net_device_dev_1 find_net_device_dev_2 k_atomic_long_t_def k_atomic64_t_def layout_eval)

lemma offsetof_iphdr:
  "offsetof k_iphdr [''protocol''] = Some 9"
  "offsetof k_iphdr [''saddr''] = Some 12"
  "offsetof k_iphdr [''daddr''] = Some 16"
  by (simp_all add: k_iphdr_def layout_eval)

lemma offsetof_tcphdr:
  "offsetof k_tcphdr [''source''] = Some 0"
  "offsetof k_tcphdr [''dest''] = Some 2"
  "offsetof k_tcphdr [''seq''] = Some 4"
  "offsetof k_tcphdr [''ack_seq''] = Some 8"
  by (simp_all add: k_tcphdr_def layout_eval)

lemma offsetof_cgroup:
  "offsetof k_cgroup [''kn''] = Some 352"
  "offsetof k_cgroup [''root''] = Some 648"
  "offsetof k_cgroup [''level''] = Some 316"
  "offsetof k_cgroup [''subsys''] = Some 544"
  by (simp_all add: k_cgroup_def layout_eval)

lemma offsetof_kernfs_node:
  "offsetof k_kernfs_node [''name''] = Some 16"
  by (simp_all add: k_kernfs_node_def layout_eval)

lemma offsetof_cgroup_root:
  "offsetof k_cgroup_root [''hierarchy_id''] = Some 12"
  by (simp_all add: k_cgroup_root_def layout_eval)

lemma offsetof_cgroup_subsys_state:
  "offsetof k_cgroup_subsys_state [''cgroup''] = Some 0"
  by (simp_all add: k_cgroup_subsys_state_def layout_eval)

lemma offsetof_oom_control:
  "offsetof k_oom_control [''chosen''] = Some 40"
  by (simp_all add: k_oom_control_def layout_eval)

lemmas offsetof_kernel = offsetof_task_struct offsetof_css_set offsetof_sk_buff offsetof_sock offsetof_sock_common offsetof_net_device offsetof_iphdr offsetof_tcphdr offsetof_cgroup offsetof_kernfs_node offsetof_cgroup_root offsetof_cgroup_subsys_state offsetof_oom_control

lemma vmlinux_offsets [simp]:
  "vmlinux_offset ''task_struct'' [''state''] = 16"
  "vmlinux_offset ''task_struct'' [''flags''] = 36"
  "vmlinux_offset ''task_struct'' [''pid''] = 2304"
  "vmlinux_offset ''task_struct'' [''comm''] = 2784"
  "vmlinux_offset ''task_struct'' [''cgroups''] = 3336"
  "vmlinux_offset ''task_struct'' [''sched_task_group''] = 712"
  "vmlinux_offset ''css_set'' [''subsys''] = 0"
  "vmlinux_offset ''sk_buff'' [''head''] = 224"
  "vmlinux_offset ''sk_buff'' [''sk''] = 24"
  "vmlinux_offset ''sk_buff'' [''network_header''] = 196"
  "vmlinux_offset ''sk_buff'' [''transport_header''] = 194"
  "vmlinux_offset ''sk_buff'' [''len''] = 128"
  "vmlinux_offset ''sk_buff'' [''queue_mapping''] = 140"
  "vmlinux_offset ''sk_buff'' [''protocol''] = 192"
  "vmlinux_offset ''sk_buff'' [''tstamp''] = 32"
  "vmlinux_offset ''sock'' [''__sk_common'', ''skc_state''] = 18"
  "vmlinux_offset ''sock'' [''__sk_flags_offset''] = 536"
  "vmlinux_offset ''sock_common'' [''skc_family''] = 16"
  "vmlinux_offset ''sock_common'' [''skc_state''] = 18"
  "vmlinux_offset ''net_device'' [''ifindex''] = 264"
  "vmlinux_offset ''net_device'' [''rx_dropped'', ''counter''] = 456"
  "vmlinux_offset ''net_device'' [''dev''] = 1320"
  "vmlinux_offset ''iphdr'' [''protocol''] = 9"
  "vmlinux_offset ''iphdr'' [''saddr''] = 12"
  "vmlinux_offset ''iphdr'' [''daddr''] = 16"
  "vmlinux_offset ''tcphdr'' [''source''] = 0"
  "vmlinux_offset ''tcphdr'' [''dest''] = 2"
  "vmlinux_offset ''tcphdr'' [''seq''] = 4"
  "vmlinux_offset ''tcphdr'' [''ack_seq''] = 8"
  "vmlinux_offset ''cgroup'' [''kn''] = 352"
  "vmlinux_offset ''cgroup'' [''root''] = 648"
  "vmlinux_offset ''cgroup'' [''level''] = 316"
  "vmlinux_offset ''cgroup'' [''subsys''] = 544"
  "vmlinux_offset ''kernfs_node'' [''name''] = 16"
  "vmlinux_offset ''cgroup_root'' [''hierarchy_id''] = 12"
  "vmlinux_offset ''cgroup_subsys_state'' [''cgroup''] = 0"
  "vmlinux_offset ''oom_control'' [''chosen''] = 40"
  by (simp_all add: vmlinux_offset_def kernel_structs_def offsetof_kernel del: offsetof.simps)

section \<open>Reads stay inside the object\<close>

lemma kernel_structs_wf: "(s, t) \<in> set kernel_structs \<Longrightarrow> wf_type t"
  by (auto simp: kernel_structs_def wf_simps)

lemma kernel_structs_lookup: "(s, t) \<in> set kernel_structs \<Longrightarrow> map_of kernel_structs s = Some t"
  by (rule map_of_is_SomeI) (simp_all add: kernel_structs_def)

lemma member_inside:
  assumes "(s, t) \<in> set kernel_structs" "find_member t f = Some (d, Fld g u)"
  shows "d div 8 + sizeof u \<le> sizeof t"
  using find_bounds(1) [OF kernel_structs_wf [OF assms(1)] assms(2)] by simp

lemma sizeof_word_bound: "(s, t) \<in> set kernel_structs \<Longrightarrow> sizeof t < 2 ^ 64"
  by (auto simp: kernel_structs_def layout_simps)


section \<open>Control group subsystems\<close>

text \<open>\<open>enum cgroup_subsys_id\<close> of \<^verbatim>\<open>bpf/include/vmlinux.h\<close>, as far as the programs use it.\<close>

definition cpu_cgrp_id :: nat where "cpu_cgrp_id = 1"
definition memory_cgrp_id :: nat where "memory_cgrp_id = 4"
definition CGROUP_SUBSYS_COUNT :: nat where [simp]: "CGROUP_SUBSYS_COUNT = 13"

text \<open>\<open>BPF_CORE_READ(task, cgroups, subsys[i])\<close>\<close>

definition task_css :: "bpf_env \<Rightarrow> u64 \<Rightarrow> nat \<Rightarrow> u64" where
  "task_css e task i =
     read64_at e (read64 e task ''task_struct'' [''cgroups'']) ''css_set'' [''subsys''] i"



section \<open>Example environments\<close>

text \<open>
  A kernel with the layout of \<open>vmlinux.h\<close> whose memory holds the given cells (a start address
  and the bytes from there) and is zero elsewhere; the other helpers return zeros.
\<close>

definition cells_read :: "(u64 \<times> byte list) list \<Rightarrow> u64 \<Rightarrow> nat \<Rightarrow> byte list" where
  "cells_read cs a n =
     (case map_of cs a of None \<Rightarrow> replicate n 0 | Some bs \<Rightarrow> take n (bs @ replicate n 0))"

definition kernel_env :: "(u64 \<times> byte list) list \<Rightarrow> u64 \<Rightarrow> u64 \<Rightarrow> u64 \<Rightarrow> bpf_env" where
  "kernel_env cs task pid now =
     \<lparr>ktime_get_ns = (\<lambda>_. now), current_pid_tgid = pid, current_task = task,
      current_comm = replicate 16 0, smp_processor_id = 0,
      get_stack = (\<lambda>_ n. (0, replicate n 0)), probe_read = cells_read cs,
      probe_read_str = (\<lambda>a n. let str = takeWhile (\<lambda>b. b \<noteq> 0) (cells_read cs a (n - 1))
                             in (of_nat (Suc (length str)), str @ replicate (n - length str) 0)),
      field_offset = vmlinux_offset, field_exists = (\<lambda>s f. f = [''state''])\<rparr>"

lemma kernel_env_sel [simp]:
  "ktime_get_ns (kernel_env cs task pid now) i = now"
  "current_pid_tgid (kernel_env cs task pid now) = pid"
  "current_task (kernel_env cs task pid now) = task"
  "probe_read (kernel_env cs task pid now) = cells_read cs"
  "field_offset (kernel_env cs task pid now) = vmlinux_offset"
  "field_exists (kernel_env cs task pid now) s f = (f = [''state''])"
  "current_comm (kernel_env cs task pid now) = replicate 16 0"
  "smp_processor_id (kernel_env cs task pid now) = 0"
  by (simp_all add: kernel_env_def)

lemmas kernel_env_eval = core_read_def core_addr_def read8_def read16_def read32_def read64_def
  read64_at_def cells_read_def dec_def

lemma find_iphdr_saddr: "find_member k_iphdr ''saddr'' = Some (96, Fld ''saddr'' k___be32)"
  by (simp add: k_iphdr_def layout_eval)


end
