(* ===== verification/Softirq.thy ===== *)
theory Softirq
  imports Bpf_Ratelimit Vmlinux_Env
begin

text \<open>
  \<^verbatim>\<open>bpf/softirq.c\<close>, the histogram of the delay between raising and running a soft interrupt,
  and \<^verbatim>\<open>bpf/softirq_tracing.c\<close>, which reports the gaps between two timer ticks of a CPU. Both
  keep their state in per-CPU array maps: a function from the CPU to that CPU's array.
\<close>

section \<open>softirq.c\<close>

datatype lat_zone = LAT_ZONE0 | LAT_ZONE1 | LAT_ZONE2 | LAT_ZONE3

fun zone_index :: "lat_zone \<Rightarrow> nat" where
  "zone_index LAT_ZONE0 = 0"
| "zone_index LAT_ZONE1 = 1"
| "zone_index LAT_ZONE2 = 2"
| "zone_index LAT_ZONE3 = 3"

definition LAT_ZONE_MAX :: nat where [simp]: "LAT_ZONE_MAX = 4"
definition NR_SOFTIRQS :: u32 where [simp]: "NR_SOFTIRQS = 10"

record softirq_lat =
  timestamp :: u64
  total_latency :: "u64 list"

type_synonym 'm percpu = "u32 \<Rightarrow> 'm"

definition probe_softirq_raise ::
    "(u32, softirq_lat, 'm) map_ops \<Rightarrow> bpf_env \<Rightarrow> u32 \<Rightarrow> 'm percpu \<Rightarrow> 'm percpu" where
  "probe_softirq_raise M e vec m =
     (let lat = \<lparr>timestamp = ktime_get_ns e 0, total_latency = replicate LAT_ZONE_MAX 0\<rparr>;
          cpu = smp_processor_id e
      in if vec \<ge> NR_SOFTIRQS then m
         else m(cpu := update_elem' M (m cpu) vec lat COMPAT_BPF_ANY))"

definition lat_zone_of :: "u64 \<Rightarrow> lat_zone" where
  "lat_zone_of latency =
     (if latency < 10 * NSEC_PER_USEC then LAT_ZONE0
      else if latency < 100 * NSEC_PER_USEC then LAT_ZONE1
      else if latency < 1 * NSEC_PER_MSEC then LAT_ZONE2
      else LAT_ZONE3)"

definition probe_softirq_entry ::
    "(u32, softirq_lat, 'm) map_ops \<Rightarrow> bpf_env \<Rightarrow> u32 \<Rightarrow> 'm percpu \<Rightarrow> 'm percpu" where
  "probe_softirq_entry M e vec m =
     (let cpu = smp_processor_id e in
      if vec \<ge> NR_SOFTIRQS then m
      else case lookup_elem M (m cpu) vec of
        None \<Rightarrow> m
      | Some lat \<Rightarrow>
          let latency = ktime_get_ns e 0 - timestamp lat;
              z = zone_index (lat_zone_of latency)
          in m(cpu := store_elem M (m cpu) vec
                (lat\<lparr>total_latency := bump z (total_latency lat)\<rparr>)))"

datatype softirq_hook = Softirq_raise bpf_env u32 | Softirq_entry bpf_env u32

fun softirq_step :: "(u32, softirq_lat, 'm) map_ops \<Rightarrow> 'm percpu \<Rightarrow> softirq_hook \<Rightarrow> 'm percpu" where
  "softirq_step M m (Softirq_raise e vec) = probe_softirq_raise M e vec m"
| "softirq_step M m (Softirq_entry e vec) = probe_softirq_entry M e vec m"

text \<open>
  The zone of a time in nanoseconds, by the comments of \<open>lat_zone\<close>: up to 10us, 100us and
  1ms. The delays of one vector on one CPU after it was raised at \<open>t0\<close>.
\<close>

definition delay_zone :: "nat \<Rightarrow> nat" where
  "delay_zone ns =
     (if ns < 10 * 1000 then 0 else if ns < 100 * 1000 then 1 else if ns < 1000 * 1000 then 2 else 3)"

fun delays :: "u32 \<Rightarrow> u32 \<Rightarrow> u64 \<Rightarrow> softirq_hook list \<Rightarrow> nat list" where
  "delays cpu vec t0 [] = []"
| "delays cpu vec t0 (Softirq_raise e v # hs) = delays cpu vec t0 hs"
| "delays cpu vec t0 (Softirq_entry e v # hs) =
     (if smp_processor_id e = cpu \<and> v = vec
      then unat (ktime_get_ns e 0 - t0) # delays cpu vec t0 hs else delays cpu vec t0 hs)"

fun raises :: "u32 \<Rightarrow> u32 \<Rightarrow> softirq_hook \<Rightarrow> bool" where
  "raises cpu vec (Softirq_raise e v) = (smp_processor_id e = cpu \<and> v = vec)"
| "raises cpu vec (Softirq_entry e v) = False"

lemma zone_index_of: "zone_index (lat_zone_of d) = delay_zone (unat d)"
  by (simp add: lat_zone_of_def delay_zone_def word_less_nat_alt)

lemma delay_zone_less: "delay_zone n < 4"
  by (simp add: delay_zone_def)

lemma softirq_run:
  assumes M: "bpf_array_map M NR_SOFTIRQS_MAX" and v: "vec < NR_SOFTIRQS"
  shows "\<forall>h\<in>set hs. \<not> raises cpu vec h \<Longrightarrow>
    lookup_elem M (m cpu) vec = Some \<lparr>timestamp = t0, total_latency = histogram 4 zs\<rparr> \<Longrightarrow>
    lookup_elem M (foldl (softirq_step M) m hs cpu) vec =
      Some \<lparr>timestamp = t0, total_latency = histogram 4 (zs @ map delay_zone (delays cpu vec t0 hs))\<rparr>"
proof (induction hs arbitrary: m zs)
  case Nil
  then show ?case by simp
next
  case (Cons h hs)
  note Mm = bpf_array_map.axioms(1) [OF M]
  define zs' where "zs' = zs @ (case h of Softirq_raise e w \<Rightarrow> []
      | Softirq_entry e w \<Rightarrow> if smp_processor_id e = cpu \<and> w = vec
          then [delay_zone (unat (ktime_get_ns e 0 - t0))] else [])"
  have "lookup_elem M (softirq_step M m h cpu) vec =
      Some \<lparr>timestamp = t0, total_latency = histogram 4 zs'\<rparr>"
  proof (cases h)
    case (Softirq_raise e w)
    with Cons.prems show ?thesis
      by (auto simp: zs'_def probe_softirq_raise_def Let_def bpf_map.lookup_update_other [OF Mm])
  next
    case (Softirq_entry e w)
    with Cons.prems v show ?thesis
      by (auto simp: zs'_def probe_softirq_entry_def Let_def bpf_map.store_present [OF Mm] zone_index_of
          histogram_bump delay_zone_less split: option.split)
  qed
  from Cons.IH [of "softirq_step M m h", OF _ this] Cons.prems(1) show ?case
    by (cases h) (auto simp: zs'_def)
qed

text \<open>
  C17. Soft interrupt histogram: after the last raise of a vector on a CPU, the four counters
  are the numbers of entries since that raise whose delay lies in each zone. Nothing that
  was counted before the raise survives it, whatever happened.
\<close>

theorem softirq_histogram_since_raise:
  assumes "bpf_array_map M NR_SOFTIRQS_MAX" "vec < NR_SOFTIRQS" "smp_processor_id e = cpu"
    and "\<forall>h\<in>set post. \<not> raises cpu vec h"
  shows "lookup_elem M (foldl (softirq_step M) m (pre @ Softirq_raise e vec # post) cpu) vec =
     Some \<lparr>timestamp = ktime_get_ns e 0,
           total_latency = histogram 4 (map delay_zone (delays cpu vec (ktime_get_ns e 0) post))\<rparr>"
proof -
  note Mm = bpf_array_map.axioms(1) [OF assms(1)]
  let ?m = "foldl (softirq_step M) m pre" and ?v = "\<lparr>timestamp = ktime_get_ns e 0, total_latency = replicate 4 0\<rparr>"
  have "unat vec < NR_SOFTIRQS_MAX" using assms(2) by (simp add: word_less_nat_alt)
  then have "lookup_elem M (?m cpu) vec \<noteq> None"
    using bpf_array_map.array_keys [OF assms(1)] by blast
  then have "snd (update_elem M (?m cpu) vec ?v COMPAT_BPF_ANY) = 0"
    by (intro bpf_map.update_present [OF Mm]) simp_all
  then have "lookup_elem M (softirq_step M ?m (Softirq_raise e vec) cpu) vec =
      Some \<lparr>timestamp = ktime_get_ns e 0, total_latency = histogram 4 []\<rparr>"
    using assms(2,3) leD [of NR_SOFTIRQS vec]
    by (auto simp: probe_softirq_raise_def Let_def bpf_map.update_done [OF Mm])
  from softirq_run [OF assms(1,2,4), of "softirq_step M ?m (Softirq_raise e vec)", OF this] show ?thesis by simp
qed

theorem softirq_histogram_since_raise_witness:
  "lookup_elem (array_ops 16) (foldl (softirq_step (array_ops 16))
     (\<lambda>_ _. \<lparr>timestamp = 0, total_latency = [9, 9, 9, 9]\<rparr>)
     [Softirq_entry (kernel_env [] 0 0 50) 3, Softirq_raise (kernel_env [] 0 0 1000) 3,
      Softirq_entry (kernel_env [] 0 0 51000) 3] 0) 3 =
   Some \<lparr>timestamp = 1000, total_latency = [0, 1, 0, 0]\<rparr>"
proof -
  have h: "bpf_array_map (array_ops 16 :: (u32, softirq_lat, _) map_ops) NR_SOFTIRQS_MAX"
    "(3 :: u32) < NR_SOFTIRQS" "smp_processor_id (kernel_env [] 0 0 1000) = 0"
    "\<forall>h\<in>set [Softirq_entry (kernel_env [] 0 0 51000) 3]. \<not> raises 0 3 h"
    by simp_all
  from softirq_histogram_since_raise [OF h, of "\<lambda>_ _. \<lparr>timestamp = 0, total_latency = [9, 9, 9, 9]\<rparr>"
      "[Softirq_entry (kernel_env [] 0 0 50) 3]"]
  show ?thesis by (simp add: histogram_def delay_zone_def upt_conv_Cons del: softirq_step.simps)
qed

section \<open>softirq\_tracing.c\<close>

definition softirq_tracing_rate :: bpf_ratelimit where
  "softirq_tracing_rate = BPF_RATELIMIT 1 (COMPAT_CPU_NUM * 1000 * 1000)"

record timer_softirq_run_ts =
  start_trace :: u32
  restarting_tick :: u32
  soft_ts :: u64

record report_event =
  rep_stack :: "byte list"
  rep_stack_size :: s64
  rep_now :: u64
  rep_stall_time :: u64
  rep_comm :: "byte list"
  rep_pid :: u32
  rep_cpu :: u32

record ('a, 'b) tick_state =
  tk_rate :: bpf_ratelimit
  timerts_map :: "'a percpu"
  report_map :: "'b percpu"
  irqoff_event_map :: "report_event list"

type_synonym 'a timerts_ops = "(u32, timer_softirq_run_ts, 'a) map_ops"
type_synonym 'b report_ops = "(u32, report_event, 'b) map_ops"

text \<open>Storing through the pointer to the running CPU's \<open>timer_softirq_run_ts\<close>.\<close>

definition put_timerts ::
    "'a timerts_ops \<Rightarrow> u32 \<Rightarrow> timer_softirq_run_ts \<Rightarrow> ('a, 'b) tick_state \<Rightarrow> ('a, 'b) tick_state" where
  "put_timerts A cpu ts s =
     s\<lparr>timerts_map := (timerts_map s)(cpu := store_elem A (timerts_map s cpu) 0 ts)\<rparr>"

text \<open>The fields of the report, filled over what the CPU's buffer held.\<close>

definition fill_report :: "bpf_env \<Rightarrow> u64 \<Rightarrow> u64 \<Rightarrow> report_event \<Rightarrow> report_event" where
  "fill_report e now delta event =
     event\<lparr>rep_now := now, rep_stall_time := delta, rep_comm := current_comm e,
           rep_pid := ucast (current_pid_tgid e), rep_cpu := smp_processor_id e,
           rep_stack_size := fst (get_stack e 0 (8 * PERF_MAX_STACK_DEPTH)),
           rep_stack := snd (get_stack e 0 (8 * PERF_MAX_STACK_DEPTH))\<rparr>"

text \<open>The limiter reads the clock first; the program reads it again afterwards.\<close>

definition probe_account_process_tick ::
    "'a timerts_ops \<Rightarrow> 'b report_ops \<Rightarrow> u64 \<Rightarrow> bpf_env \<Rightarrow> ('a, 'b) tick_state \<Rightarrow> ('a, 'b) tick_state" where
  "probe_account_process_tick A B softirq_thresh e s =
     (let cpu = smp_processor_id e;
          (rate, limited) = ratelimited (ktime_get_ns e 0) (tk_rate s);
          s = s\<lparr>tk_rate := rate\<rparr> in
      if limited then s
      else case lookup_elem A (timerts_map s cpu) 0 of
        None \<Rightarrow> s
      | Some ts \<Rightarrow>
          if start_trace ts = 0 then s
          else if soft_ts ts = 0 then put_timerts A cpu (ts\<lparr>soft_ts := ktime_get_ns e 1\<rparr>) s
          else case lookup_elem B (report_map s cpu) 0 of
            None \<Rightarrow> s
          | Some event \<Rightarrow>
              if restarting_tick ts \<noteq> 0
              then put_timerts A cpu (ts\<lparr>restarting_tick := 0, soft_ts := ktime_get_ns e 1\<rparr>) s
              else
                let now = ktime_get_ns e 1;
                    delta = now - soft_ts ts;
                    event' = fill_report e now delta event;
                    s' = (if delta \<ge> softirq_thresh
                          then s\<lparr>report_map := (report_map s)(cpu := store_elem B (report_map s cpu) 0 event'),
                                 irqoff_event_map := irqoff_event_map s @ [event']\<rparr>
                          else s)
                in put_timerts A cpu (ts\<lparr>soft_ts := now\<rparr>) s')"

definition probe_tick_stop ::
    "'a timerts_ops \<Rightarrow> bpf_env \<Rightarrow> s32 \<Rightarrow> s32 \<Rightarrow> ('a, 'b) tick_state \<Rightarrow> ('a, 'b) tick_state" where
  "probe_tick_stop A e success dependency s =
     (let cpu = smp_processor_id e in
      case lookup_elem A (timerts_map s cpu) 0 of
        None \<Rightarrow> s
      | Some ts \<Rightarrow>
          if success = 1 \<and> dependency = 0 then put_timerts A cpu (ts\<lparr>start_trace := 0\<rparr>) s else s)"

definition probe_tick_nohz_restart_sched_tick ::
    "'a timerts_ops \<Rightarrow> bpf_env \<Rightarrow> ('a, 'b) tick_state \<Rightarrow> ('a, 'b) tick_state" where
  "probe_tick_nohz_restart_sched_tick A e s =
     (let cpu = smp_processor_id e in
      case lookup_elem A (timerts_map s cpu) 0 of
        None \<Rightarrow> s
      | Some ts \<Rightarrow>
          put_timerts A cpu
            (ts\<lparr>soft_ts := ktime_get_ns e 0, start_trace := 1, restarting_tick := 1\<rparr>) s)"

datatype tick_hook = Tick bpf_env | Tick_stop bpf_env s32 s32 | Tick_restart bpf_env

fun tick_step :: "'a timerts_ops \<Rightarrow> 'b report_ops \<Rightarrow> u64 \<Rightarrow> ('a, 'b) tick_state \<Rightarrow> tick_hook \<Rightarrow>
    ('a, 'b) tick_state" where
  "tick_step A B th s (Tick e) = probe_account_process_tick A B th e s"
| "tick_step A B th s (Tick_stop e ok dep) = probe_tick_stop A e ok dep s"
| "tick_step A B th s (Tick_restart e) = probe_tick_nohz_restart_sched_tick A e s"

text \<open>
  What the three programs compute together. A CPU is idle, has just restarted its tick, or
  ticks and was last seen at a given time. Only the second and later ticks of a busy period
  measure a gap; a gap of at least the threshold is reported. \<open>bs\<close> are the limiter's answers.
\<close>

datatype tick_phase = Tick_idle | Tick_restarted | Tick_running u64

definition stall_report :: "bpf_env \<Rightarrow> u64 \<Rightarrow> u64 \<Rightarrow> report_event" where
  "stall_report e now d =
     \<lparr>rep_stack = snd (get_stack e 0 (8 * PERF_MAX_STACK_DEPTH)),
      rep_stack_size = fst (get_stack e 0 (8 * PERF_MAX_STACK_DEPTH)), rep_now = now,
      rep_stall_time = d, rep_comm = current_comm e, rep_pid = ucast (current_pid_tgid e),
      rep_cpu = smp_processor_id e\<rparr>"

fun tick_spec :: "u64 \<Rightarrow> (u32 \<Rightarrow> tick_phase) \<Rightarrow> tick_hook list \<Rightarrow> bool list \<Rightarrow> report_event list" where
  "tick_spec th P (Tick_stop e ok dep # hs) bs =
     tick_spec th (if ok = 1 \<and> dep = 0 then P(smp_processor_id e := Tick_idle) else P) hs bs"
| "tick_spec th P (Tick_restart e # hs) bs = tick_spec th (P(smp_processor_id e := Tick_restarted)) hs bs"
| "tick_spec th P (Tick e # hs) (True # bs) = tick_spec th P hs bs"
| "tick_spec th P (Tick e # hs) (False # bs) =
     (let now = ktime_get_ns e 1; P' = P(smp_processor_id e := Tick_running now) in
      case P (smp_processor_id e) of
        Tick_idle \<Rightarrow> tick_spec th P hs bs
      | Tick_restarted \<Rightarrow> tick_spec th P' hs bs
      | Tick_running seen \<Rightarrow>
          (if now - seen \<ge> th then [stall_report e now (now - seen)] else []) @ tick_spec th P' hs bs)"
| "tick_spec th P (Tick e # hs) [] = []"
| "tick_spec th P [] bs = []"

fun limiter_clocks :: "tick_hook list \<Rightarrow> u64 list" where
  "limiter_clocks [] = []"
| "limiter_clocks (Tick e # hs) = ktime_get_ns e 0 # limiter_clocks hs"
| "limiter_clocks (Tick_stop e ok dep # hs) = limiter_clocks hs"
| "limiter_clocks (Tick_restart e # hs) = limiter_clocks hs"

fun clock_started :: "tick_hook \<Rightarrow> bool" where
  "clock_started (Tick e) = (ktime_get_ns e 1 \<noteq> 0)"
| "clock_started (Tick_stop e ok dep) = True"
| "clock_started (Tick_restart e) = (ktime_get_ns e 0 \<noteq> 0)"

definition phase_of :: "timer_softirq_run_ts \<Rightarrow> tick_phase" where
  "phase_of ts =
     (if start_trace ts = 0 then Tick_idle
      else if restarting_tick ts \<noteq> 0 then Tick_restarted else Tick_running (soft_ts ts))"

text \<open>The map is in the phases \<open>P\<close>, and every CPU that is traced has a time stamp.\<close>

definition in_phases :: "'a timerts_ops \<Rightarrow> ('a, 'b) tick_state \<Rightarrow> (u32 \<Rightarrow> tick_phase) \<Rightarrow> bool" where
  "in_phases A s P \<longleftrightarrow> (\<forall>c. \<exists>ts. lookup_elem A (timerts_map s c) 0 = Some ts \<and>
     P c = phase_of ts \<and> (start_trace ts \<noteq> 0 \<longrightarrow> soft_ts ts \<noteq> 0))"

lemma fill_report_eq: "fill_report e now d ev = stall_report e now d"
  by (cases ev) (simp add: fill_report_def stall_report_def)

lemma in_phases_put:
  assumes "bpf_array_map A 1" "in_phases A s P" "start_trace ts \<noteq> 0 \<longrightarrow> soft_ts ts \<noteq> 0"
  shows "in_phases A (put_timerts A c ts s) (P(c := phase_of ts))"
proof -
  have "lookup_elem A (timerts_map s c) 0 \<noteq> None"
    using bpf_array_map.array_keys [OF assms(1), of _ 0] by simp
  with assms(2,3) show ?thesis
    by (auto simp: in_phases_def put_timerts_def
        bpf_map.store_present [OF bpf_array_map.axioms(1) [OF assms(1)]])
qed

lemma in_phases_irrelevant [simp]:
  "in_phases A (s\<lparr>tk_rate := r\<rparr>) P = in_phases A s P"
  "in_phases A (s\<lparr>report_map := m, irqoff_event_map := x\<rparr>) P = in_phases A s P"
  by (simp_all add: in_phases_def)

lemma put_timerts_sel [simp]:
  "tk_rate (put_timerts A c ts s) = tk_rate s"
  "irqoff_event_map (put_timerts A c ts s) = irqoff_event_map s"
  "report_map (put_timerts A c ts s) = report_map s"
  by (simp_all add: put_timerts_def)

text \<open>One tick the limiter lets through, in each phase.\<close>

definition tick_phase_after :: "(u32 \<Rightarrow> tick_phase) \<Rightarrow> bpf_env \<Rightarrow> u32 \<Rightarrow> tick_phase" where
  "tick_phase_after P e =
     (if P (smp_processor_id e) = Tick_idle then P
      else P(smp_processor_id e := Tick_running (ktime_get_ns e 1)))"

definition tick_reports :: "u64 \<Rightarrow> (u32 \<Rightarrow> tick_phase) \<Rightarrow> bpf_env \<Rightarrow> report_event list" where
  "tick_reports th P e =
     (case P (smp_processor_id e) of
        Tick_running seen \<Rightarrow>
          if ktime_get_ns e 1 - seen \<ge> th
          then [stall_report e (ktime_get_ns e 1) (ktime_get_ns e 1 - seen)] else []
      | _ \<Rightarrow> [])"

lemma tick_spec_pass:
  "tick_spec th P (Tick e # hs) (False # bs) = tick_reports th P e @ tick_spec th (tick_phase_after P e) hs bs"
  by (simp add: tick_reports_def tick_phase_after_def Let_def split: tick_phase.split)

lemma tick_passed:
  fixes th :: u64 and s :: "('a, 'b) tick_state"
  assumes "bpf_array_map A 1" "bpf_array_map B 1" "in_phases A s P" "ktime_get_ns e 1 \<noteq> 0"
    and "\<not> snd (ratelimited (ktime_get_ns e 0) (tk_rate s))"
  defines "s' \<equiv> probe_account_process_tick A B th e s"
  shows "in_phases A s' (tick_phase_after P e)"
    and "irqoff_event_map s' = irqoff_event_map s @ tick_reports th P e"
    and "tk_rate s' = fst (ratelimited (ktime_get_ns e 0) (tk_rate s))"
proof -
  let ?c = "smp_processor_id e"
  obtain r where rl: "ratelimited (ktime_get_ns e 0) (tk_rate s) = (r, False)"
    using assms(5) by (cases "ratelimited (ktime_get_ns e 0) (tk_rate s)") simp
  obtain ts where ts: "lookup_elem A (timerts_map s ?c) 0 = Some ts" "P ?c = phase_of ts"
    "start_trace ts \<noteq> 0 \<Longrightarrow> soft_ts ts \<noteq> 0"
    using assms(3) unfolding in_phases_def by blast
  obtain ev where ev: "lookup_elem B (report_map s ?c) 0 = Some ev"
    using bpf_array_map.array_present [OF assms(2), of 0] by auto
  have put: "in_phases A (put_timerts A ?c t s1) (P(?c := Tick_running (ktime_get_ns e 1)))"
    if "in_phases A s1 P" "soft_ts t = ktime_get_ns e 1" "start_trace t \<noteq> 0" "restarting_tick t = 0"
    for s1 :: "('a, 'b) tick_state" and t
    using in_phases_put [OF assms(1) that(1), of t ?c] that(2-4) assms(4) by (simp add: phase_of_def)
  note def = s'_def probe_account_process_tick_def rl Let_def ts ev
  show "tk_rate s' = fst (ratelimited (ktime_get_ns e 0) (tk_rate s))"
    by (simp add: def)
  show "irqoff_event_map s' = irqoff_event_map s @ tick_reports th P e"
    using ts(3) by (simp add: def tick_reports_def fill_report_eq phase_of_def)
  show "in_phases A s' (tick_phase_after P e)"
    using ts(3) assms(3) by (auto simp: def tick_phase_after_def phase_of_def intro!: put [unfolded One_nat_def])
qed

lemma tick_limited:
  assumes "snd (ratelimited (ktime_get_ns e 0) (tk_rate s))"
  shows "probe_account_process_tick A B th e s =
           s\<lparr>tk_rate := fst (ratelimited (ktime_get_ns e 0) (tk_rate s))\<rparr>"
  using assms by (cases "ratelimited (ktime_get_ns e 0) (tk_rate s)")
    (simp add: probe_account_process_tick_def)

lemma in_phases_lookup:
  assumes "bpf_array_map A 1"
  obtains ts where "lookup_elem A (timerts_map s c) 0 = Some ts"
  using bpf_array_map.array_present [OF assms, of 0] by auto

lemma tick_other:
  assumes "bpf_array_map A 1" "in_phases A s P"
  shows "ktime_get_ns e 0 \<noteq> 0 \<Longrightarrow>
      in_phases A (probe_tick_nohz_restart_sched_tick A e s) (P(smp_processor_id e := Tick_restarted))"
    and "in_phases A (probe_tick_stop A e ok dep s)
      (if ok = 1 \<and> dep = 0 then P(smp_processor_id e := Tick_idle) else P)"
    and "tk_rate (probe_tick_nohz_restart_sched_tick A e s) = tk_rate s"
    and "tk_rate (probe_tick_stop A e ok dep s) = tk_rate s"
    and "irqoff_event_map (probe_tick_nohz_restart_sched_tick A e s) = irqoff_event_map s"
    and "irqoff_event_map (probe_tick_stop A e ok dep s) = irqoff_event_map s"
proof -
  obtain ts where ts: "lookup_elem A (timerts_map s (smp_processor_id e)) 0 = Some ts"
    using in_phases_lookup [OF assms(1)] .
  let ?t1 = "ts\<lparr>soft_ts := ktime_get_ns e 0, start_trace := 1, restarting_tick := 1\<rparr>"
    and ?t2 = "ts\<lparr>start_trace := 0\<rparr>"
  show "in_phases A (probe_tick_nohz_restart_sched_tick A e s) (P(smp_processor_id e := Tick_restarted))"
    if "ktime_get_ns e 0 \<noteq> 0"
    using in_phases_put [OF assms, of ?t1 "smp_processor_id e"] that
    by (simp add: probe_tick_nohz_restart_sched_tick_def ts phase_of_def)
  show "in_phases A (probe_tick_stop A e ok dep s)
      (if ok = 1 \<and> dep = 0 then P(smp_processor_id e := Tick_idle) else P)"
    using in_phases_put [OF assms, of ?t2 "smp_processor_id e"] assms(2)
    by (simp add: probe_tick_stop_def ts phase_of_def)
qed (simp_all add: probe_tick_nohz_restart_sched_tick_def probe_tick_stop_def Let_def split: option.split)

lemma tick_run:
  assumes "bpf_array_map A 1" "bpf_array_map B 1"
  shows "in_phases A s P \<Longrightarrow> \<forall>h\<in>set hs. clock_started h \<Longrightarrow>
     irqoff_event_map (foldl (tick_step A B th) s hs) =
       irqoff_event_map s @ tick_spec th P hs (snd (ratelimit_run (tk_rate s) (limiter_clocks hs)))"
proof (induction hs arbitrary: s P)
  case Nil
  then show ?case by simp
next
  case (Cons h hs)
  show ?case
  proof (cases h)
    case (Tick e)
    let ?rl = "ratelimited (ktime_get_ns e 0) (tk_rate s)"
    have e: "ktime_get_ns e 1 \<noteq> 0" using Cons.prems(2) Tick by simp
    show ?thesis
    proof (cases "snd ?rl")
      case True
      have "in_phases A (s\<lparr>tk_rate := fst ?rl\<rparr>) P" using Cons.prems(1) by simp
      from Cons.IH [OF this] Cons.prems(2) Tick True show ?thesis by (simp add: tick_limited)
    next
      case False
      note step = tick_passed [OF assms Cons.prems(1) e False]
      from Cons.IH [OF step(1)] Cons.prems(2) Tick False show ?thesis
        by (simp add: step(2,3) tick_spec_pass del: tick_spec.simps)
    qed
  next
    case (Tick_stop e ok dep)
    from Cons.IH [OF tick_other(2) [OF assms(1) Cons.prems(1)]] Cons.prems(2) Tick_stop
    show ?thesis by (simp add: tick_other [OF assms(1) Cons.prems(1)])
  next
    case (Tick_restart e)
    then have "ktime_get_ns e 0 \<noteq> 0" using Cons.prems(2) by simp
    from Cons.IH [OF tick_other(1) [OF assms(1) Cons.prems(1) this]] Cons.prems(2) Tick_restart
    show ?thesis by (simp add: tick_other [OF assms(1) Cons.prems(1)] fun_upd_def)
  qed
qed

text \<open>
  C18. Tick stalls: from maps that are all zero, for every sequence of ticks, tick stops and
  tick restarts on any number of CPUs, the events sent to user space are exactly the gaps of
  at least \<open>softirq_thresh\<close> between two successive ticks of one busy period of one CPU, among
  the ticks the rate limiter lets through. The first tick after a restart is never reported.
\<close>

theorem tick_stalls_reported:
  assumes "bpf_array_map A 1" "bpf_array_map B 1"
    and "\<forall>c. lookup_elem A (m c) 0 = Some \<lparr>start_trace = 0, restarting_tick = 0, soft_ts = 0\<rparr>"
    and "\<forall>h\<in>set hs. clock_started h"
  shows "irqoff_event_map (foldl (tick_step A B softirq_thresh)
      \<lparr>tk_rate = softirq_tracing_rate, timerts_map = m, report_map = m', irqoff_event_map = []\<rparr> hs) =
    tick_spec softirq_thresh (\<lambda>_. Tick_idle) hs
      (snd (ratelimit_run softirq_tracing_rate (limiter_clocks hs)))"
proof -
  have "in_phases A \<lparr>tk_rate = softirq_tracing_rate, timerts_map = m, report_map = m', irqoff_event_map = []\<rparr>
      (\<lambda>_. Tick_idle)"
    using assms(3) by (simp add: in_phases_def phase_of_def)
  from tick_run [OF assms(1,2) this assms(4)] show ?thesis by simp
qed

definition zero_report :: report_event where
  "zero_report = \<lparr>rep_stack = replicate 1016 0, rep_stack_size = 0, rep_now = 0, rep_stall_time = 0,
     rep_comm = replicate 16 0, rep_pid = 0, rep_cpu = 0\<rparr>"

abbreviation (input) tick_at :: "u64 \<Rightarrow> tick_hook" where
  "tick_at t \<equiv> Tick (kernel_env [] 0 0 t)"

theorem tick_stalls_reported_witness:
  "map rep_stall_time (irqoff_event_map (foldl (tick_step (array_ops 1) (array_ops 1) 5000000)
     \<lparr>tk_rate = softirq_tracing_rate,
      timerts_map = (\<lambda>_ _. \<lparr>start_trace = 0, restarting_tick = 0, soft_ts = 0\<rparr>),
      report_map = (\<lambda>_ _. zero_report), irqoff_event_map = []\<rparr>
     [tick_at 2000000000, Tick_restart (kernel_env [] 0 0 2100000000), tick_at 2200000000,
      tick_at 2201000000, tick_at 2208000000])) = [7000000]"
proof -
  let ?hs = "[tick_at 2000000000, Tick_restart (kernel_env [] 0 0 2100000000), tick_at 2200000000,
      tick_at 2201000000, tick_at 2208000000]"
  have h: "bpf_array_map (array_ops 1 :: (u32, timer_softirq_run_ts, _) map_ops) 1"
    "bpf_array_map (array_ops 1 :: (u32, report_event, _) map_ops) 1"
    "\<forall>c :: u32. lookup_elem (array_ops 1) ((\<lambda>_ _. \<lparr>start_trace = 0, restarting_tick = 0, soft_ts = 0\<rparr>) c) 0 =
       Some \<lparr>start_trace = 0, restarting_tick = 0, soft_ts = 0\<rparr>"
    "\<forall>h\<in>set ?hs. clock_started h"
    by (simp_all only: array_ops_map) (simp_all add: array_simps)
  have "snd (ratelimit_run softirq_tracing_rate (limiter_clocks ?hs)) = [False, False, False, False]"
    by (simp add: softirq_tracing_rate_def BPF_RATELIMIT_def ratelimited_simp ratelimit_window_def
        ratelimit_take_def)
  then show ?thesis
    using tick_stalls_reported [OF h, of 5000000 "\<lambda>_ _. zero_report"] by (simp add: Let_def stall_report_def)
qed

end
