(* ===== verification/Skb.thy ===== *)
theory Skb
  imports Vmlinux_Env
begin

unbundle bit_operations_syntax

text \<open>
  \<^verbatim>\<open>bpf/include/vmlinux_net.h\<close>, the protocol numbers the network programs compare with, and
  the headers they copy out of a packet: a copy is a list of bytes, its members are read at
  the offsets the structure of \<^verbatim>\<open>vmlinux.h\<close> gives them.
\<close>

definition ETH_P_IP :: u16 where [simp]: "ETH_P_IP = 0x0800"
definition AF_INET :: u16 where [simp]: "AF_INET = 2"
definition IPPROTO_TCP :: u8 where [simp]: "IPPROTO_TCP = 6"
definition SOCK_STREAM :: u16 where [simp]: "SOCK_STREAM = 1"

datatype tcp_state =
    TCP_ESTABLISHED | TCP_SYN_SENT | TCP_SYN_RECV | TCP_FIN_WAIT1 | TCP_FIN_WAIT2 | TCP_TIME_WAIT
  | TCP_CLOSE | TCP_CLOSE_WAIT | TCP_LAST_ACK | TCP_LISTEN | TCP_CLOSING | TCP_NEW_SYN_RECV

fun tcp_state_val :: "tcp_state \<Rightarrow> u8" where
  "tcp_state_val TCP_ESTABLISHED = 1"
| "tcp_state_val TCP_SYN_SENT = 2"
| "tcp_state_val TCP_SYN_RECV = 3"
| "tcp_state_val TCP_FIN_WAIT1 = 4"
| "tcp_state_val TCP_FIN_WAIT2 = 5"
| "tcp_state_val TCP_TIME_WAIT = 6"
| "tcp_state_val TCP_CLOSE = 7"
| "tcp_state_val TCP_CLOSE_WAIT = 8"
| "tcp_state_val TCP_LAST_ACK = 9"
| "tcp_state_val TCP_LISTEN = 10"
| "tcp_state_val TCP_CLOSING = 11"
| "tcp_state_val TCP_NEW_SYN_RECV = 12"

definition bpf_ntohs :: "u16 \<Rightarrow> u16" where
  "bpf_ntohs x = push_bit 8 x OR drop_bit 8 x"

section \<open>Headers of a packet\<close>

definition skb_network_header :: "bpf_env \<Rightarrow> u64 \<Rightarrow> u64" where
  "skb_network_header e skb =
     read64 e skb ''sk_buff'' [''head''] + ucast (read16 e skb ''sk_buff'' [''network_header''])"

definition skb_transport_header :: "bpf_env \<Rightarrow> u64 \<Rightarrow> u64" where
  "skb_transport_header e skb =
     read64 e skb ''sk_buff'' [''head''] + ucast (read16 e skb ''sk_buff'' [''transport_header''])"

text \<open>A member of \<open>n\<close> bytes of a structure held in a local variable.\<close>

definition local_member :: "ctype \<Rightarrow> byte list \<Rightarrow> string \<Rightarrow> nat \<Rightarrow> byte list" where
  "local_member t bs f n = take n (drop (the (offsetof t [f])) bs)"

definition read_iphdr :: "bpf_env \<Rightarrow> u64 \<Rightarrow> byte list" where
  "read_iphdr e skb = probe_read e (skb_network_header e skb) (sizeof k_iphdr)"

definition read_tcphdr :: "bpf_env \<Rightarrow> u64 \<Rightarrow> byte list" where
  "read_tcphdr e skb = probe_read e (skb_transport_header e skb) (sizeof k_tcphdr)"

definition ip_protocol :: "byte list \<Rightarrow> u8" where
  "ip_protocol bs = dec (local_member k_iphdr bs ''protocol'' 1)"

definition ip_saddr :: "byte list \<Rightarrow> u32" where
  "ip_saddr bs = dec (local_member k_iphdr bs ''saddr'' 4)"

definition ip_daddr :: "byte list \<Rightarrow> u32" where
  "ip_daddr bs = dec (local_member k_iphdr bs ''daddr'' 4)"

definition tcp_source :: "byte list \<Rightarrow> u16" where
  "tcp_source bs = dec (local_member k_tcphdr bs ''source'' 2)"

definition tcp_dest :: "byte list \<Rightarrow> u16" where
  "tcp_dest bs = dec (local_member k_tcphdr bs ''dest'' 2)"

definition tcp_seq :: "byte list \<Rightarrow> u32" where
  "tcp_seq bs = dec (local_member k_tcphdr bs ''seq'' 4)"

definition tcp_ack_seq :: "byte list \<Rightarrow> u32" where
  "tcp_ack_seq bs = dec (local_member k_tcphdr bs ''ack_seq'' 4)"

lemmas header_defs = ip_protocol_def ip_saddr_def ip_daddr_def tcp_source_def tcp_dest_def
  tcp_seq_def tcp_ack_seq_def local_member_def

lemma ip_tcp_bytes:
  "ip_protocol bs = dec (take 1 (drop 9 bs))" "ip_saddr bs = dec (take 4 (drop 12 bs))"
  "ip_daddr bs = dec (take 4 (drop 16 bs))" "tcp_source bs = dec (take 2 bs)"
  "tcp_dest bs = dec (take 2 (drop 2 bs))" "tcp_seq bs = dec (take 4 (drop 4 bs))"
  "tcp_ack_seq bs = dec (take 4 (drop 8 bs))"
  by (simp_all only: header_defs offsetof_iphdr offsetof_tcphdr option.sel drop_0)

section \<open>Example packets\<close>

text \<open>
  A TCP packet at 4096 whose data starts at 65536, the network header at offset 16 and the
  transport header at offset 36, with the given socket, protocol number and receive time.
\<close>

definition ip_bytes :: "u8 \<Rightarrow> byte list" where
  "ip_bytes proto = replicate 9 0 @ [proto] @ [0, 0] @ [10, 0, 0, 1] @ [10, 0, 0, 2]"

definition tcp_bytes :: "byte list" where
  "tcp_bytes = [0, 80, 0x1f, 0x90] @ [0, 0, 0, 1] @ [0, 0, 0, 2] @ replicate 8 0"

definition skb_cells :: "u64 \<Rightarrow> u8 \<Rightarrow> u64 \<Rightarrow> (u64 \<times> byte list) list" where
  "skb_cells sk proto tstamp =
     [(4096 + 224, enc 8 (65536 :: u64)), (4096 + 196, enc 2 (16 :: u16)), (4096 + 194, enc 2 (36 :: u16)),
      (4096 + 24, enc 8 sk), (4096 + 32, enc 8 tstamp), (4096 + 192, enc 2 (8 :: u16)),
      (65536 + 16, ip_bytes proto), (65536 + 36, tcp_bytes)]"

lemma dec_byte: "dec [b] = (b :: byte)"
  by (simp add: dec_def)

lemma dec_enc_at:
  "dec (enc 8 (x :: u64)) = x" "dec (enc 4 (y :: u32)) = y" "dec (enc 2 (z :: u16)) = z"
  "dec (enc (Suc 0) (w :: u8)) = w"
  by (rule dec_enc; simp)+

end
