(* ===== verification/Dropwatch.thy ===== *)
theory Dropwatch
  imports Bpf_Ratelimit Skb
begin

unbundle bit_operations_syntax

text \<open>
  \<^verbatim>\<open>bpf/dropwatch.c\<close>: reports the TCP packets the kernel drops. The program is shown to report
  exactly the packets that pass its filter and the rate limiter; the type and protocol of a
  socket are shown to be the bit fields of the structure in \<^verbatim>\<open>vmlinux.h\<close>.
\<close>

section \<open>Program\<close>

definition TYPE_TCP_COMMON_DROP :: u8 where [simp]: "TYPE_TCP_COMMON_DROP = 1"
definition SK_FL_PROTO_SHIFT :: nat where [simp]: "SK_FL_PROTO_SHIFT = 8"
definition SK_FL_TYPE_SHIFT :: nat where [simp]: "SK_FL_TYPE_SHIFT = 16"

record drop_event =
  dw_tgid_pid :: u64
  dw_saddr :: u32
  dw_daddr :: u32
  dw_sport :: u16
  dw_dport :: u16
  dw_seq :: u32
  dw_ack_seq :: u32
  dw_queue_mapping :: u32
  dw_pkt_len :: u64
  dw_stack_size :: s64
  dw_stack :: "byte list"
  dw_sk_max_ack_backlog :: u32
  dw_state :: u8
  dw_type :: u8
  dw_comm :: "byte list"

definition zero_data :: drop_event where
  "zero_data = \<lparr>dw_tgid_pid = 0, dw_saddr = 0, dw_daddr = 0, dw_sport = 0, dw_dport = 0, dw_seq = 0,
     dw_ack_seq = 0, dw_queue_mapping = 0, dw_pkt_len = 0, dw_stack_size = 0,
     dw_stack = replicate (8 * PERF_MAX_STACK_DEPTH) 0, dw_sk_max_ack_backlog = 0, dw_state = 0,
     dw_type = 0, dw_comm = replicate COMPAT_TASK_COMM_LEN 0\<rparr>"

definition dropwatch_rate :: bpf_ratelimit where
  "dropwatch_rate = BPF_RATELIMIT 1 100"

record 'm drop_state =
  drop_rate :: bpf_ratelimit
  dropwatch_stackmap :: "u32 \<Rightarrow> 'm"
  perf_events :: "drop_event list"

text \<open>The protocol and the type of a socket.\<close>

definition sk_get_type_and_protocol :: "bpf_env \<Rightarrow> u64 \<Rightarrow> u16 \<times> u16" where
  "sk_get_type_and_protocol e sk =
     (if field_exists e ''sock'' [''__sk_flags_offset'']
      then let sk_flags = read32 e sk ''sock'' [''__sk_flags_offset'']
           in (ucast (drop_bit SK_FL_PROTO_SHIFT sk_flags), ucast (drop_bit SK_FL_TYPE_SHIFT sk_flags))
      else (read16 e sk ''sock___5_10'' [''sk_protocol''], read16 e sk ''sock___5_10'' [''sk_type'']))"

text \<open>The event, filled over what the CPU's buffer held.\<close>

definition fill_drop_event :: "bpf_env \<Rightarrow> u64 \<Rightarrow> u8 \<Rightarrow> drop_event \<Rightarrow> drop_event" where
  "fill_drop_event e skb state data =
     (let iphdr = read_iphdr e skb; tcphdr = read_tcphdr e skb;
          (stack_size, stack) = get_stack e 0 (8 * PERF_MAX_STACK_DEPTH)
      in data\<lparr>dw_tgid_pid := current_pid_tgid e, dw_comm := current_comm e,
              dw_type := TYPE_TCP_COMMON_DROP, dw_state := state,
              dw_saddr := ip_saddr iphdr, dw_daddr := ip_daddr iphdr,
              dw_sport := tcp_source tcphdr, dw_dport := tcp_dest tcphdr,
              dw_seq := tcp_seq tcphdr, dw_ack_seq := tcp_ack_seq tcphdr,
              dw_pkt_len := ucast (read32 e skb ''sk_buff'' [''len'']),
              dw_queue_mapping := ucast (read16 e skb ''sk_buff'' [''queue_mapping'']),
              dw_stack_size := stack_size, dw_stack := stack,
              dw_sk_max_ack_backlog := 0\<rparr>)"

text \<open>The arguments after the environment are the tracepoint's \<open>skbaddr\<close> and \<open>protocol\<close>.\<close>

definition bpf_kfree_skb_prog ::
    "(u32, drop_event, 'm) map_ops \<Rightarrow> bpf_env \<Rightarrow> u64 \<Rightarrow> u16 \<Rightarrow> 'm drop_state \<Rightarrow> 'm drop_state" where
  "bpf_kfree_skb_prog M e skb ctx_protocol s =
     (if ctx_protocol \<noteq> ETH_P_IP then s
      else if ip_protocol (read_iphdr e skb) \<noteq> IPPROTO_TCP then s
      else
        let sk = read64 e skb ''sk_buff'' [''sk''] in
        if sk = 0 then s
        else if read16 e sk ''sock_common'' [''skc_family''] \<noteq> AF_INET then s
        else
          let (protocol, type) = sk_get_type_and_protocol e sk in
          if (ucast protocol :: u8) \<noteq> IPPROTO_TCP \<or> type \<noteq> SOCK_STREAM then s
          else
            let state = read8 e sk ''sock_common'' [''skc_state''] in
            if state = tcp_state_val TCP_CLOSE \<or> state = 0 then s
            else
              let (rate, limited) = ratelimited (ktime_get_ns e 0) (drop_rate s);
                  s = s\<lparr>drop_rate := rate\<rparr>;
                  cpu = smp_processor_id e in
              if limited then s
              else case lookup_elem M (dropwatch_stackmap s cpu) 0 of
                None \<Rightarrow> s
              | Some data \<Rightarrow>
                  let data' = fill_drop_event e skb state data;
                      m = store_elem M (dropwatch_stackmap s cpu) 0 data';
                      m = update_elem' M m 0 zero_data COMPAT_BPF_EXIST
                  in s\<lparr>dropwatch_stackmap := (dropwatch_stackmap s)(cpu := m),
                       perf_events := perf_events s @ [data']\<rparr>)"

datatype drop_hook = Kfree_skb (drop_env: bpf_env) (drop_skb: u64) (drop_protocol: u16)

fun drop_step :: "(u32, drop_event, 'm) map_ops \<Rightarrow> 'm drop_state \<Rightarrow> drop_hook \<Rightarrow> 'm drop_state" where
  "drop_step M s (Kfree_skb e skb proto) = bpf_kfree_skb_prog M e skb proto s"

section \<open>Which packets are reported\<close>

text \<open>
  The packets of interest: IPv4 and TCP, of an IPv4 stream socket whose protocol number ends
  in the byte 6 and which is neither closed nor without a state.
\<close>

definition watched :: "drop_hook \<Rightarrow> bool" where
  "watched h =
     (let e = drop_env h; skb = drop_skb h; sk = read64 e skb ''sk_buff'' [''sk''];
          state = read8 e sk ''sock_common'' [''skc_state'']
      in drop_protocol h = 0x0800 \<and> ip_protocol (read_iphdr e skb) = 6 \<and> sk \<noteq> 0 \<and>
         read16 e sk ''sock_common'' [''skc_family''] = 2 \<and>
         (ucast (fst (sk_get_type_and_protocol e sk)) :: u8) = 6 \<and>
         snd (sk_get_type_and_protocol e sk) = 1 \<and> state \<noteq> 7 \<and> state \<noteq> 0)"

definition drop_report :: "drop_hook \<Rightarrow> drop_event" where
  "drop_report h =
     (let e = drop_env h; skb = drop_skb h; sk = read64 e skb ''sk_buff'' [''sk'']
      in fill_drop_event e skb (read8 e sk ''sock_common'' [''skc_state'']) zero_data)"

definition drop_clock :: "drop_hook \<Rightarrow> u64" where
  "drop_clock h = ktime_get_ns (drop_env h) 0"

definition buffers_zero :: "(u32, drop_event, 'm) map_ops \<Rightarrow> 'm drop_state \<Rightarrow> bool" where
  "buffers_zero M s \<longleftrightarrow> (\<forall>c. lookup_elem M (dropwatch_stackmap s c) 0 = Some zero_data)"

lemma drop_step_ignored: "\<not> watched h \<Longrightarrow> drop_step M s h = s"
  by (cases h) (auto simp: watched_def bpf_kfree_skb_prog_def Let_def split: prod.splits)

lemma drop_step_watched:
  assumes "bpf_array_map M 1" "buffers_zero M s" "watched h"
  defines "l \<equiv> ratelimited (drop_clock h) (drop_rate s)"
  shows "drop_rate (drop_step M s h) = fst l"
    and "buffers_zero M (drop_step M s h)"
    and "perf_events (drop_step M s h) = perf_events s @ (if snd l then [] else [drop_report h])"
proof -
  note Mm = bpf_array_map.axioms(1) [OF assms(1)]
  obtain e skb proto where h: "h = Kfree_skb e skb proto" by (cases h)
  obtain r b where l: "ratelimited (ktime_get_ns e 0) (drop_rate s) = (r, b)"
    by (cases "ratelimited (ktime_get_ns e 0) (drop_rate s)")
  have lk: "lookup_elem M (dropwatch_stackmap s c) 0 = Some zero_data" for c
    using assms(2) by (simp add: buffers_zero_def)
  have z: "lookup_elem M (update_elem' M m 0 zero_data COMPAT_BPF_EXIST) 0 = Some zero_data" for m
  proof -
    have "lookup_elem M m 0 \<noteq> None" using bpf_array_map.array_keys [OF assms(1), of m 0] by simp
    then have "snd (update_elem M m 0 zero_data COMPAT_BPF_EXIST) = 0"
      by (intro bpf_map.update_present [OF Mm]) simp_all
    then show ?thesis by (simp add: bpf_map.update_done [OF Mm])
  qed
  note def = h bpf_kfree_skb_prog_def Let_def l_def drop_clock_def l lk
  show "drop_rate (drop_step M s h) = fst l" "buffers_zero M (drop_step M s h)"
    "perf_events (drop_step M s h) = perf_events s @ (if snd l then [] else [drop_report h])"
    using assms(3) lk z
    by (auto simp: def watched_def drop_report_def buffers_zero_def split: prod.splits)
qed

lemma drop_run:
  assumes "bpf_array_map M 1" "buffers_zero M s0"
  shows "perf_events (foldl (drop_step M) s0 hs) =
      perf_events s0 @ map drop_report (let_through drop_clock (drop_rate s0) (filter watched hs)) \<and>
    buffers_zero M (foldl (drop_step M) s0 hs)"
  using assms(2)
proof (induction hs arbitrary: s0)
  case Nil
  then show ?case by simp
next
  case (Cons h hs)
  show ?case
  proof (cases "watched h")
    case True
    note step = drop_step_watched [OF assms(1) Cons.prems True]
    from Cons.IH [OF step(2)] True show ?thesis by (simp add: step(1,3) del: drop_step.simps)
  next
    case False
    with Cons show ?thesis by (simp add: drop_step_ignored del: drop_step.simps)
  qed
qed

text \<open>
  C19. Dropped packets: for every sequence of dropped packets, the events sent to user space
  are those of the packets that pass the filter and that the rate limiter, asked for these
  packets only, lets through, in order and with the fields of their own packet and socket;
  the per-CPU buffers are zero again after each event.
\<close>

theorem dropwatch_reports:
  fixes hs :: "drop_hook list"
  assumes "bpf_array_map M 1"
    and "\<forall>c. lookup_elem M (m c) 0 = Some zero_data"
  defines "s \<equiv> foldl (drop_step M) \<lparr>drop_rate = dropwatch_rate, dropwatch_stackmap = m, perf_events = []\<rparr> hs"
  shows "perf_events s = map drop_report (let_through drop_clock dropwatch_rate (filter watched hs)) \<and>
         (\<forall>c. lookup_elem M (dropwatch_stackmap s c) 0 = Some zero_data)"
  using drop_run [OF assms(1), of "\<lparr>drop_rate = dropwatch_rate, dropwatch_stackmap = m, perf_events = []\<rparr>"]
    assms(2) by (simp add: s_def buffers_zero_def)

lemma limited_drops:
  assumes "sorted (map drop_clock hs)" "\<forall>h\<in>set hs. t0 \<le> drop_clock h \<and> drop_clock h \<le> t1"
    and "1000000000 \<le> t0"
  shows "length (let_through drop_clock dropwatch_rate (filter watched hs)) \<le> 100 * (1 + (secs t1 - secs t0) div 2)"
proof (cases "map drop_clock (filter watched hs)")
  case Nil
  then show ?thesis by simp
next
  case (Cons ns nss)
  have "sorted (map drop_clock (filter watched hs))" using assms(1) by (rule sorted_filter)
  moreover have rng: "\<forall>n\<in>set (ns # nss). t0 \<le> n \<and> n \<le> t1"
    using assms(2) Cons [symmetric] by auto
  ultimately have "admitted (snd (ratelimit_run (BPF_RATELIMIT 1 100) (ns # nss)))
      \<le> unat (100 :: u64) * (1 + (secs (last (ns # nss)) - secs ns) div (unat (1 :: u64) + 1))"
    using assms(3) by (intro ratelimit_run_bound) (auto simp: Cons)
  also have "\<dots> \<le> 100 * (1 + (secs t1 - secs t0) div 2)"
  proof -
    have "last (ns # nss) \<in> set (ns # nss)" by (rule last_in_set) simp
    with rng have "secs (last (ns # nss)) \<le> secs t1" "secs t0 \<le> secs ns"
      by (auto simp: secs_def word_le_nat_alt intro!: div_le_mono)
    moreover define a where "a = secs (last (ns # nss)) - secs ns"
    ultimately have "a div 2 \<le> (secs t1 - secs t0) div 2" by (intro div_le_mono) linarith
    moreover have n: "unat (100 :: u64) = 100" "unat (1 :: u64) + 1 = 2" by simp_all
    ultimately show ?thesis unfolding a_def [symmetric] n by simp
  qed
  finally show ?thesis by (simp add: length_let_through Cons dropwatch_rate_def)
qed

text \<open>
  Volume of drop reports: between the clock readings \<open>t0\<close> and \<open>t1\<close>, however many packets
  are dropped, at most 100 events are sent per started window of two seconds.
\<close>

theorem dropwatch_rate_bound:
  assumes "bpf_array_map M 1" "\<forall>c. lookup_elem M (m c) 0 = Some zero_data"
    and "sorted (map drop_clock hs)" "\<forall>h\<in>set hs. t0 \<le> drop_clock h \<and> drop_clock h \<le> t1"
    and "1000000000 \<le> t0"
  shows "length (perf_events (foldl (drop_step M)
             \<lparr>drop_rate = dropwatch_rate, dropwatch_stackmap = m, perf_events = []\<rparr> hs))
           \<le> 100 * (1 + (secs t1 - secs t0) div 2)"
  using drop_run [OF assms(1), of "\<lparr>drop_rate = dropwatch_rate, dropwatch_stackmap = m, perf_events = []\<rparr>" hs]
    limited_drops [OF assms(3-5)] assms(2) by (simp add: buffers_zero_def)

section \<open>Socket type and protocol\<close>

lemma find_sock_bits:
  "find_member k_sock ''sk_protocol'' = Some (4296, Bits ''sk_protocol'' 4 8)"
  "find_member k_sock ''sk_type'' = Some (4304, Bits ''sk_type'' 4 16)"
  by (simp_all add: k_sock_def k_sock_common_def layout_eval)

text \<open>
  C21. Kernels with \<open>__sk_flags_offset\<close>: for a \<open>struct sock\<close> in memory with the layout of
  \<open>vmlinux.h\<close>, the byte compared with \<open>IPPROTO_TCP\<close> and the type compared with \<open>SOCK_STREAM\<close>
  are the bit fields \<open>sk_protocol\<close> and \<open>sk_type\<close>, at the place and of the width the C layout
  gives them.
\<close>

theorem sock_bit_fields:
  assumes "length img = sizeof k_sock" "field_offset e = vmlinux_offset"
    and "field_exists e ''sock'' [''__sk_flags_offset'']"
    and "\<forall>k n. k + n \<le> length img \<longrightarrow> probe_read e (sk + of_nat k) n = take n (drop k img)"
    and "find_member k_sock ''sk_protocol'' = Some (dp, Bits gp up wp)"
    and "find_member k_sock ''sk_type'' = Some (dt, Bits gt ut wt)"
  shows "unat (ucast (fst (sk_get_type_and_protocol e sk)) :: u8) = bit_field img dp wp \<and>
         unat (snd (sk_get_type_and_protocol e sk)) = bit_field img dt wt"
proof -
  define w where "w = take 4 (drop 536 img)"
  have len: "536 + 4 \<le> length img" using assms(1) by (simp add: layout_simps)
  then have "probe_read e (sk + 536) 4 = w"
    using assms(4) [rule_format, of 536 4] by (simp add: w_def)
  then have fl: "read32 e sk ''sock'' [''__sk_flags_offset''] = of_nat (le_val w)"
    using assms(2) by (simp add: read32_def core_read_def core_addr_def dec_def)
  have "le_val w < 2 ^ 32" using le_val_bound [of w] len by (simp add: w_def)
  then have u: "unat (of_nat (le_val w) :: u32) = le_val w" by (simp add: unat_of_nat)
  have "bit_field w 8 8 = bit_field img 4296 8" "bit_field w 16 16 = bit_field img 4304 16"
    by (simp_all add: w_def bit_field_slice)
  moreover have "bit_field w d n = take_bit n (drop_bit d (le_val w))" for d n
    by (simp add: bit_field_def take_bit_eq_mod drop_bit_eq_div)
  moreover have "unat (ucast (ucast x :: u16) :: u8) = take_bit 8 (unat x)"
    "unat (ucast x :: u16) = take_bit 16 (unat x)" for x :: u32
    unfolding unsigned_ucast_eq by (simp_all add: unsigned_take_bit_eq unsigned_ucast_eq)
  ultimately show ?thesis
    using assms(3,5,6) by (simp add: find_sock_bits sk_get_type_and_protocol_def Let_def fl unat_drop_bit_eq u)
qed

text \<open>The events of one packet that the limiter lets through.\<close>

lemma drop_step_event:
  assumes "bpf_array_map M 1" "\<forall>c. lookup_elem M (dropwatch_stackmap s c) 0 = Some zero_data"
    and "\<not> snd (ratelimited (drop_clock h) (drop_rate s))"
  shows "perf_events (drop_step M s h) = perf_events s @ (if watched h then [drop_report h] else [])"
  using drop_step_watched(3) [of M s h] drop_step_ignored [of h M s] assms
  by (auto simp: buffers_zero_def simp del: drop_step.simps)


section \<open>Instances\<close>

text \<open>A TCP packet of an established IPv4 stream socket at 8192, with the given flags word.\<close>

definition sock_cells :: "u32 \<Rightarrow> (u64 \<times> byte list) list" where
  "sock_cells flags =
     [(8192 + 16, enc 2 (2 :: u16)), (8192 + 18, enc 1 (1 :: u8)), (8192 + 536, enc 4 flags)]"

definition drop_example :: "u64 \<Rightarrow> drop_hook" where
  "drop_example now =
     Kfree_skb (kernel_env (skb_cells 8192 6 0 @ sock_cells 0x00010600) 0 7 now
       \<lparr>field_exists := \<lambda>s f. f = [''__sk_flags_offset'']\<rparr>) 4096 0x0800"

lemmas drop_eval = kernel_env_eval skb_cells_def sock_cells_def read_iphdr_def read_tcphdr_def
  skb_network_header_def skb_transport_header_def sk_get_type_and_protocol_def

lemma skb_example_headers:
  assumes "cs = skb_cells sk proto t @ cs'"
  shows "read_iphdr (kernel_env cs task pid now\<lparr>field_exists := fe\<rparr>) 4096 = ip_bytes proto"
    and "read_tcphdr (kernel_env cs task pid now\<lparr>field_exists := fe\<rparr>) 4096 = tcp_bytes"
proof -
  have n: "sizeof k_iphdr = 20" "sizeof k_tcphdr = 20" by (simp_all add: layout_simps)
  show "read_iphdr (kernel_env cs task pid now\<lparr>field_exists := fe\<rparr>) 4096 = ip_bytes proto"
    "read_tcphdr (kernel_env cs task pid now\<lparr>field_exists := fe\<rparr>) 4096 = tcp_bytes"
    by (simp_all add: read_iphdr_def read_tcphdr_def n skb_network_header_def skb_transport_header_def
        read64_def read16_def core_read_def core_addr_def cells_read_def assms skb_cells_def
        ip_bytes_def tcp_bytes_def dec_enc_at)
qed

lemma watched_example: "watched (drop_example now)"
  by (simp add: watched_def drop_example_def skb_example_headers ip_tcp_bytes ip_bytes_def
      sk_get_type_and_protocol_def Let_def read64_def read32_def read16_def read8_def core_read_def core_addr_def
      cells_read_def skb_cells_def sock_cells_def dec_enc_at dec_byte)

theorem dropwatch_reports_witness:
  "map dw_saddr (perf_events (foldl (drop_step (array_ops 1))
      \<lparr>drop_rate = dropwatch_rate, dropwatch_stackmap = (\<lambda>_ _. zero_data), perf_events = []\<rparr>
      [drop_example 2000000000, Kfree_skb (kernel_env [] 0 0 0) 4096 0x86dd])) = [0x0100000a]"
proof -
  let ?hs = "[drop_example 2000000000, Kfree_skb (kernel_env [] 0 0 0) 4096 0x86dd]"
  have h: "bpf_array_map (array_ops 1 :: (u32, drop_event, _) map_ops) 1"
    "\<forall>c :: u32. lookup_elem (array_ops 1) ((\<lambda>_ _. zero_data) c) 0 = Some zero_data"
    by (simp_all only: array_ops_map) (simp_all add: array_simps)
  have "let_through drop_clock dropwatch_rate (filter watched ?hs) = [drop_example 2000000000]"
    by (simp add: watched_example) (simp add: watched_def drop_example_def drop_clock_def
        dropwatch_rate_def BPF_RATELIMIT_def ratelimited_simp ratelimit_window_def ratelimit_take_def)
  moreover have "dw_saddr (drop_report (drop_example 2000000000)) = 0x0100000a"
    by (simp add: drop_report_def drop_example_def fill_drop_event_def Let_def skb_example_headers
        ip_tcp_bytes ip_bytes_def dec_def split: prod.split)
  ultimately show ?thesis
    using conjunct1 [OF dropwatch_reports [OF h, of ?hs]] by simp
qed

theorem dropwatch_rate_bound_witness:
  "length (perf_events (foldl (drop_step (array_ops 1))
     \<lparr>drop_rate = dropwatch_rate, dropwatch_stackmap = (\<lambda>_ _. zero_data), perf_events = []\<rparr>
     (replicate 500 (drop_example 2000000000)))) \<le> 100"
proof -
  have z: "bpf_array_map (array_ops 1 :: (u32, drop_event, _) map_ops) 1"
    "\<forall>c :: u32. lookup_elem (array_ops 1) ((\<lambda>_ _. zero_data) c) 0 = Some zero_data"
    by (simp_all only: array_ops_map) (simp_all add: array_simps)
  have h: "sorted (map drop_clock (replicate 500 (drop_example 2000000000)))"
    "\<forall>h\<in>set (replicate 500 (drop_example 2000000000)).
       (2000000000 :: u64) \<le> drop_clock h \<and> drop_clock h \<le> 2000000000"
    "(1000000000 :: u64) \<le> 2000000000"
    by (simp_all add: drop_clock_def drop_example_def)
  from dropwatch_rate_bound [OF z h] show ?thesis by simp
qed

definition sock_image :: "byte list" where
  "sock_image = replicate 537 0 @ [6, 1, 0] @ replicate (sizeof k_sock - 540) 0"

definition image_env :: "byte list \<Rightarrow> bpf_env" where
  "image_env img = kernel_env [] 0 0 0
     \<lparr>probe_read := \<lambda>a n. take n (drop (unat a) img), field_exists := \<lambda>s f. f = [''__sk_flags_offset'']\<rparr>"

theorem sock_bit_fields_witness:
  "unat (ucast (fst (sk_get_type_and_protocol (image_env sock_image) 0)) :: u8) = bit_field sock_image 4296 8 \<and>
   unat (snd (sk_get_type_and_protocol (image_env sock_image) 0)) = bit_field sock_image 4304 16"
proof -
  have n: "sizeof k_sock = 888" by (simp add: layout_simps)
  have len: "length sock_image = 888" by (simp add: sock_image_def n)
  have r: "\<forall>k m. k + m \<le> length sock_image \<longrightarrow>
      probe_read (image_env sock_image) (0 + of_nat k) m = take m (drop k sock_image)"
    by (simp add: image_env_def len unat_of_nat)
  show ?thesis
    using sock_bit_fields [OF _ _ _ r find_sock_bits] len n by (simp add: image_env_def)
qed

definition mptcp_example :: drop_hook where
  "mptcp_example =
     Kfree_skb (kernel_env (skb_cells 8192 6 0 @ sock_cells 0 @
        [(8192, enc 2 (1 :: u16)), (8194, enc 2 (262 :: u16))]) 0 7 2000000000
      \<lparr>field_exists := \<lambda>_ _. False,
       field_offset := \<lambda>s f. if s = ''sock___5_10'' then if f = [''sk_type''] then 0 else 2
                             else vmlinux_offset s f\<rparr>) 4096 0x0800"

lemma mptcp_example_fields:
  "read64 (drop_env mptcp_example) (drop_skb mptcp_example) ''sk_buff'' [''sk''] = 8192"
  "\<not> field_exists (drop_env mptcp_example) ''sock'' [''__sk_flags_offset'']"
  "drop_protocol mptcp_example = ETH_P_IP"
  "ip_protocol (read_iphdr (drop_env mptcp_example) (drop_skb mptcp_example)) = IPPROTO_TCP"
  "read16 (drop_env mptcp_example) 8192 ''sock_common'' [''skc_family''] = AF_INET"
  "read8 (drop_env mptcp_example) 8192 ''sock_common'' [''skc_state''] \<notin> {0, tcp_state_val TCP_CLOSE}"
  "read16 (drop_env mptcp_example) 8192 ''sock___5_10'' [''sk_type''] = SOCK_STREAM"
  "read16 (drop_env mptcp_example) 8192 ''sock___5_10'' [''sk_protocol''] = 262"
proof -
  have n: "sizeof k_iphdr = 20" by (simp add: layout_simps)
  note defs = mptcp_example_def read_iphdr_def n skb_network_header_def read64_def read16_def read8_def
    core_read_def core_addr_def cells_read_def skb_cells_def sock_cells_def dec_enc_at dec_byte
    ip_tcp_bytes ip_bytes_def
  show "read64 (drop_env mptcp_example) (drop_skb mptcp_example) ''sk_buff'' [''sk''] = 8192"
    "\<not> field_exists (drop_env mptcp_example) ''sock'' [''__sk_flags_offset'']"
    "drop_protocol mptcp_example = ETH_P_IP"
    "ip_protocol (read_iphdr (drop_env mptcp_example) (drop_skb mptcp_example)) = IPPROTO_TCP"
    "read16 (drop_env mptcp_example) 8192 ''sock_common'' [''skc_family''] = AF_INET"
    "read8 (drop_env mptcp_example) 8192 ''sock_common'' [''skc_state''] \<notin> {0, tcp_state_val TCP_CLOSE}"
    "read16 (drop_env mptcp_example) 8192 ''sock___5_10'' [''sk_type''] = SOCK_STREAM"
    "read16 (drop_env mptcp_example) 8192 ''sock___5_10'' [''sk_protocol''] = 262"
    by (simp_all add: defs)
qed


end
