(* ===== verification/Netrecvlat.thy ===== *)
theory Netrecvlat
  imports Bpf_Ratelimit Skb
begin

text \<open>
  \<^verbatim>\<open>bpf/netrecvlat.c\<close>: reports TCP packets that took too long from the network card to three
  places of the receive path. The programs are shown to report exactly the packets whose
  delay reaches the threshold, and the delay is related to the signed difference of the
  clocks. \<^verbatim>\<open>bpf/netdev_hw.c\<close>, which publishes a counter of a network device, is at the end.
\<close>

section \<open>Programs\<close>

record netrecv_config =
  mono_wall_offset :: s64
  to_netif :: s64
  to_tcpv4 :: s64
  to_user_copy :: s64

definition netrecv_defaults :: netrecv_config where
  "netrecv_defaults = \<lparr>mono_wall_offset = 0, to_netif = 5 * 1000 * 1000, to_tcpv4 = 10 * 1000 * 1000,
     to_user_copy = 115 * 1000 * 1000\<rparr>"

definition netrecv_rate :: bpf_ratelimit where
  "netrecv_rate = BPF_RATELIMIT 1 100"

record netrecv_event =
  nr_comm :: "byte list"
  nr_latency :: u64
  nr_tgid_pid :: u64
  nr_pkt_len :: u64
  nr_sport :: u16
  nr_dport :: u16
  nr_saddr :: u32
  nr_daddr :: u32
  nr_seq :: u32
  nr_ack_seq :: u32
  nr_state :: u8
  nr_where :: u8

datatype skb_rcv_where = TO_NETIF_RCV | TO_TCPV4_RCV | TO_USER_COPY

fun where_val :: "skb_rcv_where \<Rightarrow> u8" where
  "where_val TO_NETIF_RCV = 0"
| "where_val TO_TCPV4_RCV = 1"
| "where_val TO_USER_COPY = 2"

record mix =
  mix_ip_hdr :: "byte list"
  mix_lat :: u64
  mix_state :: u8
  mix_where :: skb_rcv_where

record netrecv_state =
  netrecv_limiter :: bpf_ratelimit
  net_recv_lat_event_map :: "netrecv_event list"

text \<open>The delay, and how often the clock was read for it.\<close>

definition delta_now_skb_tstamp :: "netrecv_config \<Rightarrow> bpf_env \<Rightarrow> u64 \<Rightarrow> u64 \<times> nat" where
  "delta_now_skb_tstamp c e skb =
     (let tstamp = read64 e skb ''sk_buff'' [''tstamp'']
      in if tstamp = 0 then (0, 0) else (ktime_get_ns e 0 + mono_wall_offset c - tstamp, 1))"

definition get_state :: "bpf_env \<Rightarrow> u64 \<Rightarrow> u8" where
  "get_state e skb =
     read8 e (read64 e skb ''sk_buff'' [''sk'']) ''sock'' [''__sk_common'', ''skc_state'']"

definition fill_and_output_event ::
    "bpf_env \<Rightarrow> nat \<Rightarrow> u64 \<Rightarrow> mix \<Rightarrow> netrecv_state \<Rightarrow> netrecv_state" where
  "fill_and_output_event e i skb m s =
     (let (rate, limited) = ratelimited (ktime_get_ns e i) (netrecv_limiter s);
          s = s\<lparr>netrecv_limiter := rate\<rparr>;
          user_copy = (mix_where m = TO_USER_COPY);
          tcp_hdr = read_tcphdr e skb;
          event = \<lparr>nr_comm = (if user_copy then current_comm e else replicate COMPAT_TASK_COMM_LEN 0),
            nr_latency = mix_lat m,
            nr_tgid_pid = (if user_copy then current_pid_tgid e else 0),
            nr_pkt_len = ucast (read32 e skb ''sk_buff'' [''len'']),
            nr_sport = tcp_source tcp_hdr, nr_dport = tcp_dest tcp_hdr,
            nr_saddr = ip_saddr (mix_ip_hdr m), nr_daddr = ip_daddr (mix_ip_hdr m),
            nr_seq = tcp_seq tcp_hdr, nr_ack_seq = tcp_ack_seq tcp_hdr,
            nr_state = mix_state m, nr_where = where_val (mix_where m)\<rparr>
      in if limited then s
         else s\<lparr>net_recv_lat_event_map := net_recv_lat_event_map s @ [event]\<rparr>)"

text \<open>The thresholds are signed; compared with the unsigned delay they are read as unsigned.\<close>

definition netif_receive_skb_prog ::
    "netrecv_config \<Rightarrow> bpf_env \<Rightarrow> u64 \<Rightarrow> netrecv_state \<Rightarrow> netrecv_state" where
  "netif_receive_skb_prog c e skb s =
     (if read16 e skb ''sk_buff'' [''protocol''] \<noteq> bpf_ntohs ETH_P_IP then s
      else
        let ip_hdr = read_iphdr e skb in
        if ip_protocol ip_hdr \<noteq> IPPROTO_TCP then s
        else
          let (delta, i) = delta_now_skb_tstamp c e skb in
          if delta < to_netif c then s
          else fill_and_output_event e i skb
                 \<lparr>mix_ip_hdr = ip_hdr, mix_lat = delta, mix_state = 0, mix_where = TO_NETIF_RCV\<rparr> s)"

definition tcp_v4_rcv_prog ::
    "netrecv_config \<Rightarrow> bpf_env \<Rightarrow> u64 \<Rightarrow> netrecv_state \<Rightarrow> netrecv_state" where
  "tcp_v4_rcv_prog c e skb s =
     (let (delta, i) = delta_now_skb_tstamp c e skb in
      if delta < to_tcpv4 c then s
      else
        let ip_hdr = read_iphdr e skb in
        fill_and_output_event e i skb
          \<lparr>mix_ip_hdr = ip_hdr, mix_lat = delta, mix_state = get_state e skb, mix_where = TO_TCPV4_RCV\<rparr> s)"

definition skb_copy_datagram_iovec_prog ::
    "netrecv_config \<Rightarrow> bpf_env \<Rightarrow> u64 \<Rightarrow> netrecv_state \<Rightarrow> netrecv_state" where
  "skb_copy_datagram_iovec_prog c e skb s =
     (if read16 e skb ''sk_buff'' [''protocol''] \<noteq> bpf_ntohs ETH_P_IP then s
      else
        let ip_hdr = read_iphdr e skb in
        if ip_protocol ip_hdr \<noteq> IPPROTO_TCP then s
        else
          let (delta, i) = delta_now_skb_tstamp c e skb in
          if delta < to_user_copy c then s
          else fill_and_output_event e i skb
                 \<lparr>mix_ip_hdr = ip_hdr, mix_lat = delta, mix_state = get_state e skb,
                  mix_where = TO_USER_COPY\<rparr> s)"

datatype rcv_hook = Rcv (rcv_where: skb_rcv_where) (rcv_env: bpf_env) (rcv_skb: u64)

fun rcv_step :: "netrecv_config \<Rightarrow> netrecv_state \<Rightarrow> rcv_hook \<Rightarrow> netrecv_state" where
  "rcv_step c s (Rcv TO_NETIF_RCV e skb) = netif_receive_skb_prog c e skb s"
| "rcv_step c s (Rcv TO_TCPV4_RCV e skb) = tcp_v4_rcv_prog c e skb s"
| "rcv_step c s (Rcv TO_USER_COPY e skb) = skb_copy_datagram_iovec_prog c e skb s"

section \<open>Which packets are reported\<close>

text \<open>The delay of a packet that has a receive time, and the threshold of the place.\<close>

definition rcv_tstamp :: "rcv_hook \<Rightarrow> u64" where
  "rcv_tstamp h = read64 (rcv_env h) (rcv_skb h) ''sk_buff'' [''tstamp'']"

definition rcv_delay :: "netrecv_config \<Rightarrow> rcv_hook \<Rightarrow> u64" where
  "rcv_delay c h =
     (if rcv_tstamp h = 0 then 0 else ktime_get_ns (rcv_env h) 0 + mono_wall_offset c - rcv_tstamp h)"

fun rcv_threshold :: "netrecv_config \<Rightarrow> skb_rcv_where \<Rightarrow> s64" where
  "rcv_threshold c TO_NETIF_RCV = to_netif c"
| "rcv_threshold c TO_TCPV4_RCV = to_tcpv4 c"
| "rcv_threshold c TO_USER_COPY = to_user_copy c"

text \<open>\<open>tcp_v4_rcv\<close> only sees TCP over IPv4; the other two places check the headers.\<close>

definition is_tcp4 :: "rcv_hook \<Rightarrow> bool" where
  "is_tcp4 h \<longleftrightarrow> rcv_where h = TO_TCPV4_RCV \<or>
     (read16 (rcv_env h) (rcv_skb h) ''sk_buff'' [''protocol''] = 0x0008 \<and>
      ip_protocol (read_iphdr (rcv_env h) (rcv_skb h)) = 6)"

definition late :: "netrecv_config \<Rightarrow> rcv_hook \<Rightarrow> bool" where
  "late c h \<longleftrightarrow> is_tcp4 h \<and> rcv_threshold c (rcv_where h) \<le> rcv_delay c h"

definition rcv_clock :: "rcv_hook \<Rightarrow> u64" where
  "rcv_clock h = ktime_get_ns (rcv_env h) (if rcv_tstamp h = 0 then 0 else 1)"

definition rcv_report :: "netrecv_config \<Rightarrow> rcv_hook \<Rightarrow> netrecv_event" where
  "rcv_report c h =
     (let e = rcv_env h; skb = rcv_skb h; ip = read_iphdr e skb; tcp = read_tcphdr e skb;
          user = (rcv_where h = TO_USER_COPY)
      in \<lparr>nr_comm = (if user then current_comm e else replicate 16 0), nr_latency = rcv_delay c h,
          nr_tgid_pid = (if user then current_pid_tgid e else 0),
          nr_pkt_len = ucast (read32 e skb ''sk_buff'' [''len'']),
          nr_sport = tcp_source tcp, nr_dport = tcp_dest tcp, nr_saddr = ip_saddr ip,
          nr_daddr = ip_daddr ip, nr_seq = tcp_seq tcp, nr_ack_seq = tcp_ack_seq tcp,
          nr_state = (if rcv_where h = TO_NETIF_RCV then 0 else get_state e skb),
          nr_where = where_val (rcv_where h)\<rparr>)"

lemma ntohs_ip: "bpf_ntohs 0x0800 = 0x0008"
  by (simp add: bpf_ntohs_def)

lemma delta_now_eq:
  "delta_now_skb_tstamp c (rcv_env h) (rcv_skb h) = (rcv_delay c h, if rcv_tstamp h = 0 then 0 else 1)"
  by (simp add: delta_now_skb_tstamp_def rcv_delay_def rcv_tstamp_def Let_def)

lemma rcv_step_cases:
  "\<not> late c h \<Longrightarrow> rcv_step c s h = s"
  "late c h \<Longrightarrow> netrecv_limiter (rcv_step c s h) = fst (ratelimited (rcv_clock h) (netrecv_limiter s))"
  "late c h \<Longrightarrow> net_recv_lat_event_map (rcv_step c s h) = net_recv_lat_event_map s @
     (if snd (ratelimited (rcv_clock h) (netrecv_limiter s)) then [] else [rcv_report c h])"
proof -
  obtain w e skb where h: "h = Rcv w e skb" by (cases h)
  obtain r b where l: "ratelimited (rcv_clock h) (netrecv_limiter s) = (r, b)"
    by (cases "ratelimited (rcv_clock h) (netrecv_limiter s)")
  note d = delta_now_eq [of c h, unfolded h rcv_hook.sel]
  note defs = netif_receive_skb_prog_def tcp_v4_rcv_prog_def skb_copy_datagram_iovec_prog_def Let_def
    fill_and_output_event_def
  show "rcv_step c s h = s" if "\<not> late c h"
    using that by (cases w) (auto simp: h defs d late_def is_tcp4_def ntohs_ip not_le)
  have lt: "\<not> rcv_delay c h < rcv_threshold c w" if "late c h"
    using that by (simp add: late_def h leD)
  show "netrecv_limiter (rcv_step c s h) = fst (ratelimited (rcv_clock h) (netrecv_limiter s))"
    "net_recv_lat_event_map (rcv_step c s h) = net_recv_lat_event_map s @
      (if snd (ratelimited (rcv_clock h) (netrecv_limiter s)) then [] else [rcv_report c h])"
    if "late c h"
    using that lt [OF that] l unfolding rcv_clock_def
    by (cases w; simp add: h defs d late_def is_tcp4_def ntohs_ip rcv_report_def rcv_clock_def)+
qed

lemma rcv_run:
  "net_recv_lat_event_map (foldl (rcv_step c) s hs) = net_recv_lat_event_map s @
     map (rcv_report c) (let_through rcv_clock (netrecv_limiter s) (filter (late c) hs))"
proof (induction hs arbitrary: s)
  case (Cons h hs)
  then show ?case by (cases "late c h") (simp_all add: rcv_step_cases)
qed simp

text \<open>
  C23. Receive latency: for every sequence of packets at the three places, the events sent to
  user space are those of the TCP packets whose delay is at least the threshold of the place
  and which the rate limiter, asked for these packets only, lets through, in order and with
  the fields of their own packet. A packet without a receive time has delay zero.
\<close>

theorem rcv_latency_reports:
  "net_recv_lat_event_map (foldl (rcv_step c)
      \<lparr>netrecv_limiter = netrecv_rate, net_recv_lat_event_map = []\<rparr> hs) =
     map (rcv_report c) (let_through rcv_clock netrecv_rate (filter (late c) hs))"
  by (simp add: rcv_run)

section \<open>Skewed clocks\<close>

lemma uint_by_sint: "uint (w :: u64) = (if sint w < 0 then sint w + 2 ^ 64 else sint w)"
proof -
  have r: "- (2 ^ 63) \<le> sint w" "sint w < 2 ^ 63"
    using sint_ge [of w] sint_lt [of w] by simp_all
  have "uint w = sint w mod 2 ^ 64" by (simp add: uint_sint take_bit_eq_mod)
  also have "\<dots> = (if sint w < 0 then sint w + 2 ^ 64 else sint w)"
  proof (cases "sint w < 0")
    case True
    then have "(sint w + 2 ^ 64) mod 2 ^ 64 = sint w + 2 ^ 64"
      using r by (intro mod_pos_pos_trivial) simp_all
    with True show ?thesis by simp
  qed (use r in \<open>simp add: mod_pos_pos_trivial\<close>)
  finally show ?thesis .
qed

lemma unsigned_le_by_sint:
  assumes "0 \<le> sint (t :: u64)"
  shows "t \<le> d \<longleftrightarrow> sint d < 0 \<or> sint t \<le> sint d"
  using assms sint_ge [of d] sint_lt [of t] by (auto simp: word_le_def uint_by_sint)


text \<open>A packet that is seen five seconds after the boot but stamped a millisecond later.\<close>

definition early_packet :: rcv_hook where
  "early_packet = Rcv TO_TCPV4_RCV (kernel_env (skb_cells 0 6 5001000000) 0 0 5000000000) 4096"


section \<open>netdev\_hw.c\<close>

definition rx_sw_dropped_max_entries :: nat where
  "rx_sw_dropped_max_entries = 64"

definition carrier_down_count_show ::
    "(u32, u64, 'm) map_ops \<Rightarrow> bpf_env \<Rightarrow> u64 \<Rightarrow> 'm \<Rightarrow> 'm" where
  "carrier_down_count_show M e dev m =
     (let netdev = dev - field_offset e ''net_device'' [''dev''];
          key = read32 e netdev ''net_device'' [''ifindex''];
          value = read64 e netdev ''net_device'' [''rx_dropped'', ''counter'']
      in update_elem' M m key value COMPAT_BPF_ANY)"

text \<open>
  A call of the kernel function for the network device at \<open>fst\<close> in the kernel state \<open>snd\<close>: it
  gets the address of the member \<open>dev\<close>.
\<close>

type_synonym carrier_call = "u64 \<times> bpf_env"

definition carrier_call :: "(u32, u64, 'm) map_ops \<Rightarrow> 'm \<Rightarrow> carrier_call \<Rightarrow> 'm" where
  "carrier_call M m = (\<lambda>(netdev, e). carrier_down_count_show M e (core_addr e netdev ''net_device'' [''dev'']) m)"

definition call_ifindex :: "carrier_call \<Rightarrow> u32" where
  "call_ifindex = (\<lambda>(netdev, e). read32 e netdev ''net_device'' [''ifindex''])"

definition call_dropped :: "carrier_call \<Rightarrow> u64" where
  "call_dropped = (\<lambda>(netdev, e). read64 e netdev ''net_device'' [''rx_dropped'', ''counter''])"

lemma carrier_call_eq:
  "carrier_call M m x = update_elem' M m (call_ifindex x) (call_dropped x) COMPAT_BPF_ANY"
  by (simp add: carrier_call_def carrier_down_count_show_def core_addr_def call_ifindex_def
      call_dropped_def split: prod.split)

lemma carrier_run:
  assumes "bpf_hash_map M rx_sw_dropped_max_entries"
  shows "card (dom (lookup_elem M m) \<union> call_ifindex ` set xs) \<le> rx_sw_dropped_max_entries \<Longrightarrow>
    lookup_elem M (foldl (carrier_call M) m xs) =
      lookup_elem M m ++ map_of (rev (map (\<lambda>x. (call_ifindex x, call_dropped x)) xs))"
proof (induction xs arbitrary: m)
  case Nil
  then show ?case by simp
next
  case (Cons x xs)
  note Mm = bpf_hash_map.axioms(1) [OF assms]
  let ?k = "call_ifindex x" and ?D = "dom (lookup_elem M m)"
  have "snd (update_elem M m ?k (call_dropped x) COMPAT_BPF_ANY) = 0"
  proof (cases "lookup_elem M m ?k")
    case None
    then have "card (insert ?k ?D) = Suc (card ?D)" by (simp add: domIff)
    moreover have "card (insert ?k ?D) \<le> card (?D \<union> call_ifindex ` set (x # xs))"
      by (intro card_mono) auto
    ultimately have "card ?D < rx_sw_dropped_max_entries" using Cons.prems by linarith
    with None show ?thesis by (intro bpf_hash_map.room [OF assms]) simp_all
  next
    case (Some v)
    then show ?thesis by (intro bpf_map.update_present [OF Mm]) simp_all
  qed
  then have l: "lookup_elem M (carrier_call M m x) = (lookup_elem M m)(?k \<mapsto> call_dropped x)"
    by (simp add: carrier_call_eq bpf_map.update_done [OF Mm])
  have "dom (lookup_elem M (carrier_call M m x)) \<union> call_ifindex ` set xs = ?D \<union> call_ifindex ` set (x # xs)"
    by (auto simp: l)
  with Cons.prems have "card (dom (lookup_elem M (carrier_call M m x)) \<union> call_ifindex ` set xs)
      \<le> rx_sw_dropped_max_entries" by simp
  from Cons.IH [OF this]
  have "lookup_elem M (foldl (carrier_call M) m (x # xs)) =
      (lookup_elem M m)(?k \<mapsto> call_dropped x) ++ map_of (rev (map (\<lambda>x. (call_ifindex x, call_dropped x)) xs))"
    by (simp only: l foldl_Cons)
  then show ?case by (simp only: list.map rev.simps map_of_append map_of.simps fst_conv snd_conv
      map_add_assoc map_add_upd map_add_empty)
qed

text \<open>
  Drop counters of network devices: after any sequence of calls for at most 64 interface
  indices, the map holds for each index the counter the last call for it found in its device,
  and nothing else. The device is recovered from the address of its member \<open>dev\<close>.
\<close>

theorem carrier_counts_last:
  assumes "bpf_hash_map M rx_sw_dropped_max_entries" "lookup_elem M m = Map.empty"
    and "card (call_ifindex ` set xs) \<le> rx_sw_dropped_max_entries"
  shows "lookup_elem M (foldl (carrier_call M) m xs) =
           map_of (rev (map (\<lambda>x. (call_ifindex x, call_dropped x)) xs))"
  using carrier_run [OF assms(1), of m xs] assms(2,3) by simp

theorem carrier_counts_last_witness:
  "lookup_elem (hash_ops 64) (foldl (carrier_call (hash_ops 64)) []
     [(4096, kernel_env [(4096 + 264, enc 4 (2 :: u32)), (4096 + 456, enc 8 (5 :: u64))] 0 0 0),
      (4096, kernel_env [(4096 + 264, enc 4 (2 :: u32)), (4096 + 456, enc 8 (9 :: u64))] 0 0 0)]) 2 = Some 9"
proof -
  let ?c = "\<lambda>n :: u64. (4096, kernel_env [(4096 + 264, enc 4 (2 :: u32)), (4096 + 456, enc 8 n)] 0 0 0)"
  have v: "call_ifindex (?c n) = 2" "call_dropped (?c n) = n" for n
    by (simp_all add: call_ifindex_def call_dropped_def read32_def read64_def core_read_def core_addr_def
        cells_read_def dec_enc_at)
  have h: "bpf_hash_map (hash_ops 64 :: (u32, u64, _) map_ops) rx_sw_dropped_max_entries"
    "lookup_elem (hash_ops 64 :: (u32, u64, _) map_ops) [] = Map.empty"
    "card (call_ifindex ` set [?c 5, ?c 9]) \<le> rx_sw_dropped_max_entries"
    by (simp_all add: rx_sw_dropped_max_entries_def lookup_hash_ops v [simplified])
  show ?thesis unfolding carrier_counts_last [OF h] by (simp add: v [simplified])
qed

end
