(* ===== verification/Cgroup.thy ===== *)
theory Cgroup
  imports Vmlinux_Env
begin

text \<open>
  \<^verbatim>\<open>bpf/cgroup_css_events.c\<close> and \<^verbatim>\<open>bpf/cgroup_css_gather.c\<close>, which tell user space about the
  subsystem states of container cgroups, and the table user space builds from their events
  (\<^verbatim>\<open>internal/pod/container_css_default.go\<close>). Container cgroups are recognised by the length of
  their name; the theorems show which names pass and what the table holds.
\<close>

section \<open>Programs\<close>

definition CGROUP_KNODE_NAME_MAXLEN :: nat where [simp]: "CGROUP_KNODE_NAME_MAXLEN = 64"

record cgroup_event =
  cg_cgroup :: u64
  cg_ops_type :: u64
  cg_root :: s32
  cg_level :: s32
  cg_css :: "u64 list"
  cg_knode_name :: "byte list"

text \<open>The words of an array in memory.\<close>

definition words_of :: "nat \<Rightarrow> byte list \<Rightarrow> u64 list" where
  "words_of n bs = map (\<lambda>i. dec (take 8 (drop (8 * i) bs))) [0..<n]"

definition read_knode_name :: "bpf_env \<Rightarrow> u64 \<Rightarrow> s64 \<times> byte list" where
  "read_knode_name e cgrp =
     probe_read_str e (read64 e (read64 e cgrp ''cgroup'' [''kn'']) ''kernfs_node'' [''name''])
       (CGROUP_KNODE_NAME_MAXLEN + 2)"

definition bpf_cgroup_event_class_prog :: "bpf_env \<Rightarrow> u64 \<Rightarrow> u64 \<Rightarrow> cgroup_event list" where
  "bpf_cgroup_event_class_prog e cgrp type =
     (let (knode_len, name) = read_knode_name e cgrp in
      if knode_len \<noteq> of_nat (CGROUP_KNODE_NAME_MAXLEN + 1) then []
      else [\<lparr>cg_cgroup = cgrp, cg_ops_type = type,
             cg_root = read32 e (read64 e cgrp ''cgroup'' [''root'']) ''cgroup_root'' [''hierarchy_id''],
             cg_level = read32 e cgrp ''cgroup'' [''level''],
             cg_css = words_of CGROUP_SUBSYS_COUNT
               (core_read e cgrp ''cgroup'' [''subsys''] (8 * CGROUP_SUBSYS_COUNT)),
             cg_knode_name = name\<rparr>])"

definition bpf_cgroup_mkdir_prog :: "bpf_env \<Rightarrow> u64 \<Rightarrow> cgroup_event list" where
  "bpf_cgroup_mkdir_prog e cgrp = bpf_cgroup_event_class_prog e cgrp 0"

definition bpf_cgroup_rmdir_prog :: "bpf_env \<Rightarrow> u64 \<Rightarrow> cgroup_event list" where
  "bpf_cgroup_rmdir_prog e cgrp = bpf_cgroup_event_class_prog e cgrp 1"

definition bpf_cgroup_subsys_state_prog :: "bpf_env \<Rightarrow> u64 \<Rightarrow> cgroup_event list" where
  "bpf_cgroup_subsys_state_prog e css =
     (let cgrp = read64 e css ''cgroup_subsys_state'' [''cgroup''];
          (knode_len, name) = read_knode_name e cgrp in
      if knode_len \<noteq> of_nat (CGROUP_KNODE_NAME_MAXLEN + 1) then []
      else [\<lparr>cg_cgroup = cgrp, cg_ops_type = 0,
             cg_root = read32 e (read64 e cgrp ''cgroup'' [''root'']) ''cgroup_root'' [''hierarchy_id''],
             cg_level = read32 e cgrp ''cgroup'' [''level''],
             cg_css = words_of CGROUP_SUBSYS_COUNT
               (core_read e cgrp ''cgroup'' [''subsys''] (8 * CGROUP_SUBSYS_COUNT)),
             cg_knode_name = name\<rparr>])"

datatype cgroup_hook = Cgroup_mkdir bpf_env u64 | Cgroup_rmdir bpf_env u64 | Css_read bpf_env u64

fun cgroup_events :: "cgroup_hook \<Rightarrow> cgroup_event list" where
  "cgroup_events (Cgroup_mkdir e cgrp) = bpf_cgroup_mkdir_prog e cgrp"
| "cgroup_events (Cgroup_rmdir e cgrp) = bpf_cgroup_rmdir_prog e cgrp"
| "cgroup_events (Css_read e css) = bpf_cgroup_subsys_state_prog e css"

section \<open>Which cgroups are reported\<close>

text \<open>
  The documented behaviour of \<open>bpf_probe_read_str\<close> on a destination that was zero, for the
  string \<open>name\<close> at address \<open>a\<close>: at most \<open>n - 1\<close> characters are copied, a terminating zero
  follows, and the result counts both.
\<close>

definition string_at :: "bpf_env \<Rightarrow> u64 \<Rightarrow> byte list \<Rightarrow> bool" where
  "string_at e a name \<longleftrightarrow> 0 \<notin> set name \<and>
     (\<forall>n>0. probe_read_str e a n =
        (of_nat (Suc (length (take (n - 1) name))),
         take (n - 1) name @ replicate (n - length (take (n - 1) name)) 0))"

definition knode_addr :: "bpf_env \<Rightarrow> u64 \<Rightarrow> u64" where
  "knode_addr e cgrp = read64 e (read64 e cgrp ''cgroup'' [''kn'']) ''kernfs_node'' [''name'']"

fun hook_cgroup :: "cgroup_hook \<Rightarrow> bpf_env \<times> u64" where
  "hook_cgroup (Cgroup_mkdir e cgrp) = (e, cgrp)"
| "hook_cgroup (Cgroup_rmdir e cgrp) = (e, cgrp)"
| "hook_cgroup (Css_read e css) = (e, read64 e css ''cgroup_subsys_state'' [''cgroup''])"

text \<open>\<open>strings.TrimRight(s, "\\x00")\<close>\<close>

definition trim_nul :: "byte list \<Rightarrow> byte list" where
  "trim_nul bs = rev (dropWhile (\<lambda>b. b = 0) (rev bs))"

lemma trim_nul_padded: "0 \<notin> set name \<Longrightarrow> trim_nul (name @ replicate n 0) = name"
proof -
  assume "0 \<notin> set name"
  then have "dropWhile (\<lambda>b. b = 0) (rev name) = rev name"
    by (cases "rev name") (auto simp: dropWhile_eq_self_iff simp flip: set_rev [of name])
  moreover have "dropWhile (\<lambda>b. b = 0) (replicate n 0 @ xs) = dropWhile (\<lambda>b. b = 0) xs" for xs :: "byte list"
    by (induction n) simp_all
  ultimately show ?thesis by (simp add: trim_nul_def)
qed

lemma read_knode_name_string:
  assumes "string_at e (knode_addr e cgrp) name"
  shows "fst (read_knode_name e cgrp) = of_nat 65 \<longleftrightarrow> length name = 64"
    and "length name = 64 \<Longrightarrow> snd (read_knode_name e cgrp) = name @ [0, 0]"
proof -
  let ?l = "Suc (min (length name) 65)"
  have r: "read_knode_name e cgrp =
      (of_nat ?l, take 65 name @ replicate (66 - min (length name) 65) 0)"
    using assms by (simp add: read_knode_name_def string_at_def knode_addr_def)
  have "(of_nat ?l :: s64) = of_nat 65 \<longleftrightarrow> ?l = 65"
  proof
    assume "(of_nat ?l :: s64) = of_nat 65"
    then have "unat (of_nat ?l :: s64) = unat (of_nat 65 :: s64)" by (rule arg_cong)
    moreover have "unat (of_nat ?l :: s64) = ?l" "unat (of_nat 65 :: s64) = 65"
      by (simp_all only: unat_of_nat) simp_all
    ultimately show "?l = 65" by metis
  qed simp
  then show "fst (read_knode_name e cgrp) = of_nat 65 \<longleftrightarrow> length name = 64"
    by (simp only: r fst_conv) linarith
  show "snd (read_knode_name e cgrp) = name @ [0, 0]" if "length name = 64"
    using that by (simp add: r numeral_2_eq_2)
qed

text \<open>
  C26. Container cgroups: a cgroup that is made, removed or read is reported exactly if its
  name has 64 characters; longer names are not taken for their prefixes. The event carries
  the cgroup and a name from which user space recovers the name unchanged, and says 1 for a
  removal and 0 otherwise.
\<close>

theorem cgroup_reported_iff:
  assumes "hook_cgroup h = (e, cgrp)" "string_at e (knode_addr e cgrp) name"
  shows "(cgroup_events h \<noteq> [] \<longleftrightarrow> length name = 64) \<and>
    (\<forall>ev\<in>set (cgroup_events h). trim_nul (cg_knode_name ev) = name \<and> length (cg_knode_name ev) = 66 \<and>
       cg_cgroup ev = cgrp \<and> cg_ops_type ev = (case h of Cgroup_rmdir _ _ \<Rightarrow> 1 | _ \<Rightarrow> 0))"
proof -
  note k = read_knode_name_string [OF assms(2)]
  have nz: "0 \<notin> set name" using assms(2) by (simp add: string_at_def)
  have t: "trim_nul (name @ [0, 0]) = name"
    using trim_nul_padded [OF nz, of 2] by (simp add: numeral_2_eq_2)
  obtain l s where ls: "read_knode_name e cgrp = (l, s)" by (cases "read_knode_name e cgrp")
  have s: "s = name @ [0, 0]" if "length name = 64" using k(2) [OF that] by (simp add: ls)
  have l: "l = 65 \<longleftrightarrow> length name = 64" using k(1) by (simp add: ls)
  show ?thesis
    using assms(1) l s t
    by (cases h) (auto simp: bpf_cgroup_mkdir_prog_def bpf_cgroup_rmdir_prog_def ls Let_def
        bpf_cgroup_event_class_prog_def bpf_cgroup_subsys_state_prog_def)
qed

section \<open>The table of user space\<close>

record css_meta =
  cm_css :: u64
  cm_subsys :: string
  cm_cgroup :: u64
  cm_root :: s32
  cm_level :: s32
  cm_container :: "byte list"

type_synonym css_table = "u64 \<rightharpoonup> css_meta"

datatype css_error = Not_container_id

text \<open>No character of the name matches \<open>[^a-zA-Z0-9]\<close>.\<close>

definition alnum :: "byte \<Rightarrow> bool" where
  "alnum b \<longleftrightarrow> (48 \<le> b \<and> b \<le> 57) \<or> (65 \<le> b \<and> b \<le> 90) \<or> (97 \<le> b \<and> b \<le> 122)"

definition isValidKnodeName :: "byte list \<Rightarrow> bool" where
  "isValidKnodeName name \<longleftrightarrow> list_all alnum name"

text \<open>\<open>names\<close> is \<open>cgroupCssID2SubSysNameMap\<close>, filled from \<^verbatim>\<open>/proc/cgroups\<close>.\<close>

definition store_css :: "(nat \<rightharpoonup> string) \<Rightarrow> cgroup_event \<Rightarrow> nat \<times> u64 \<Rightarrow> css_table \<Rightarrow> css_table" where
  "store_css names data = (\<lambda>(index, css) T.
     if css = 0 then T
     else case names index of
       None \<Rightarrow> T
     | Some sysName \<Rightarrow>
         T(css \<mapsto> \<lparr>cm_css = css, cm_subsys = sysName, cm_cgroup = cg_cgroup data,
            cm_root = cg_root data, cm_level = cg_level data,
            cm_container = trim_nul (cg_knode_name data)\<rparr>))"

definition cgroupUpdateOrCreateCssData ::
    "(nat \<rightharpoonup> string) \<Rightarrow> cgroup_event \<Rightarrow> css_table \<Rightarrow> css_error + css_table" where
  "cgroupUpdateOrCreateCssData names data T =
     (if \<not> isValidKnodeName (trim_nul (cg_knode_name data)) then Inl Not_container_id
      else Inr (fold (store_css names data) (enumerate 0 (cg_css data)) T))"

definition drop_css :: "(nat \<rightharpoonup> string) \<Rightarrow> nat \<times> u64 \<Rightarrow> css_table \<Rightarrow> css_table" where
  "drop_css names = (\<lambda>(index, css) T.
     if css = 0 then T else if names index \<noteq> None then T(css := None) else T)"

definition cgroupDeleteCssData ::
    "(nat \<rightharpoonup> string) \<Rightarrow> cgroup_event \<Rightarrow> css_table \<Rightarrow> css_error + css_table" where
  "cgroupDeleteCssData names data T =
     (if \<not> isValidKnodeName (trim_nul (cg_knode_name data)) then Inl Not_container_id
      else Inr (fold (drop_css names) (enumerate 0 (cg_css data)) T))"

text \<open>One round of the loop of \<open>cgroupCssEventSyncHandler\<close>, which ignores the errors.\<close>

definition cgroupCssEventSyncHandler :: "(nat \<rightharpoonup> string) \<Rightarrow> css_table \<Rightarrow> cgroup_event \<Rightarrow> css_table" where
  "cgroupCssEventSyncHandler names T data =
     (if cg_ops_type data = 0
      then case cgroupUpdateOrCreateCssData names data T of Inl _ \<Rightarrow> T | Inr T' \<Rightarrow> T'
      else if cg_ops_type data = 1
      then case cgroupDeleteCssData names data T of Inl _ \<Rightarrow> T | Inr T' \<Rightarrow> T'
      else T)"

text \<open>\<open>order\<close> is the order in which \<open>sync.Map.Range\<close> visits the keys.\<close>

definition cgroupListCssDataByKnode :: "u64 list \<Rightarrow> css_table \<Rightarrow> byte list \<Rightarrow> css_meta list" where
  "cgroupListCssDataByKnode order T containerID =
     filter (\<lambda>m. cm_container m = containerID) (List.map_filter T order)"

definition parseContainerCSS :: "u64 list \<Rightarrow> css_table \<Rightarrow> byte list \<Rightarrow> (string \<rightharpoonup> u64)" where
  "parseContainerCSS order T containerID =
     foldl (\<lambda>msg css. msg(cm_subsys css \<mapsto> cm_css css)) Map.empty
       (cgroupListCssDataByKnode order T containerID)"

section \<open>What the table holds\<close>

text \<open>An entry of the event's array that user space knows a subsystem for.\<close>

definition known_css :: "(nat \<rightharpoonup> string) \<Rightarrow> u64 \<Rightarrow> nat \<times> u64 \<Rightarrow> bool" where
  "known_css names c = (\<lambda>(i, css). css = c \<and> c \<noteq> 0 \<and> names i \<noteq> None)"

definition mentions :: "(nat \<rightharpoonup> string) \<Rightarrow> u64 \<Rightarrow> cgroup_event \<Rightarrow> bool" where
  "mentions names c ev \<longleftrightarrow> isValidKnodeName (trim_nul (cg_knode_name ev)) \<and> cg_ops_type ev \<in> {0, 1} \<and>
     (\<exists>p\<in>set (enumerate 0 (cg_css ev)). known_css names c p)"

text \<open>What a mention makes of the entry for \<open>c\<close>.\<close>

definition outcome :: "(nat \<rightharpoonup> string) \<Rightarrow> u64 \<Rightarrow> cgroup_event \<Rightarrow> css_meta option" where
  "outcome names c ev =
     (if cg_ops_type ev = 1 then None
      else Some \<lparr>cm_css = c,
        cm_subsys = the (names (fst (last (filter (known_css names c) (enumerate 0 (cg_css ev)))))),
        cm_cgroup = cg_cgroup ev, cm_root = cg_root ev, cm_level = cg_level ev,
        cm_container = trim_nul (cg_knode_name ev)\<rparr>)"

lemma css_update_at:
  "store_css names ev p T c =
     (if known_css names c p
      then Some \<lparr>cm_css = c, cm_subsys = the (names (fst p)), cm_cgroup = cg_cgroup ev,
        cm_root = cg_root ev, cm_level = cg_level ev, cm_container = trim_nul (cg_knode_name ev)\<rparr>
      else T c)"
  "drop_css names p T c = (if known_css names c p then None else T c)"
  by (cases p; cases "names (fst p)"; auto simp: store_css_def drop_css_def known_css_def)+

lemma fold_store_css:
  "fold (store_css names ev) ps T c =
     (if \<exists>p\<in>set ps. known_css names c p
      then Some \<lparr>cm_css = c, cm_subsys = the (names (fst (last (filter (known_css names c) ps)))),
        cm_cgroup = cg_cgroup ev, cm_root = cg_root ev, cm_level = cg_level ev,
        cm_container = trim_nul (cg_knode_name ev)\<rparr>
      else T c)"
  by (induction ps rule: rev_induct) (auto simp: css_update_at)

lemma fold_drop_css:
  "fold (drop_css names) ps T c = (if \<exists>p\<in>set ps. known_css names c p then None else T c)"
  by (induction ps rule: rev_induct) (auto simp: css_update_at)

lemma handler_at:
  "cgroupCssEventSyncHandler names T ev c = (if mentions names c ev then outcome names c ev else T c)"
  by (auto simp: cgroupCssEventSyncHandler_def cgroupUpdateOrCreateCssData_def cgroupDeleteCssData_def
      mentions_def outcome_def fold_store_css fold_drop_css)

lemma handler_run:
  "foldl (cgroupCssEventSyncHandler names) T evs c =
     (case filter (mentions names c) evs of [] \<Rightarrow> T c
      | m # ms \<Rightarrow> outcome names c (last (m # ms)))"
proof (induction evs rule: rev_induct)
  case (snoc ev evs)
  then show ?case by (simp add: handler_at split: list.splits)
qed simp

lemma handler_run_last:
  "filter (mentions names c) evs = ms @ [ev] \<Longrightarrow>
   foldl (cgroupCssEventSyncHandler names) T evs c = outcome names c ev"
  by (cases ms) (simp_all add: handler_run)

text \<open>The subsystem states of a cgroup, and the event of a container cgroup.\<close>

definition css_array :: "bpf_env \<Rightarrow> u64 \<Rightarrow> u64 list" where
  "css_array e cgrp = words_of 13 (core_read e cgrp ''cgroup'' [''subsys''] (8 * 13))"

definition container_event :: "cgroup_hook \<Rightarrow> byte list \<Rightarrow> cgroup_event" where
  "container_event h name = (case hook_cgroup h of (e, cgrp) \<Rightarrow>
     \<lparr>cg_cgroup = cgrp, cg_ops_type = (case h of Cgroup_rmdir _ _ \<Rightarrow> 1 | _ \<Rightarrow> 0),
      cg_root = read32 e (read64 e cgrp ''cgroup'' [''root'']) ''cgroup_root'' [''hierarchy_id''],
      cg_level = read32 e cgrp ''cgroup'' [''level''], cg_css = css_array e cgrp,
      cg_knode_name = name @ [0, 0]\<rparr>)"

lemma cgroup_events_container:
  assumes "hook_cgroup h = (e, cgrp)" "string_at e (knode_addr e cgrp) name" "length name = 64"
  shows "cgroup_events h = [container_event h name]"
proof -
  have "read_knode_name e cgrp = (65, name @ [0, 0])"
    using read_knode_name_string [OF assms(2)] assms(3) by (simp add: prod_eq_iff)
  then show ?thesis
    using assms(1)
    by (cases h) (simp_all add: bpf_cgroup_mkdir_prog_def bpf_cgroup_rmdir_prog_def Let_def
        bpf_cgroup_event_class_prog_def bpf_cgroup_subsys_state_prog_def container_event_def css_array_def)
qed

lemma filter_singleton: "distinct xs \<Longrightarrow> x \<in> set xs \<Longrightarrow> filter (\<lambda>y. y = x) xs = [x]"
  by (induction xs) (auto simp: filter_empty_conv)

lemma filter_known_css:
  assumes "i < length cs" "cs ! i = c" "c \<noteq> 0" "names i \<noteq> None" "\<forall>j<length cs. cs ! j = c \<longrightarrow> j = i"
  shows "filter (known_css names c) (enumerate 0 cs) = [(i, c)]"
proof -
  have "known_css names c p = (p = (i, c))" if p: "p \<in> set (enumerate 0 cs)" for p
  proof (cases p)
    case (Pair j d)
    with p have "j < length cs" "d = cs ! j" by (simp_all add: in_set_enumerate_eq)
    with assms(5) have "d = c \<Longrightarrow> j = i" by blast
    with assms(3,4) Pair show ?thesis by (auto simp: known_css_def)
  qed
  then have "filter (known_css names c) (enumerate 0 cs) = filter (\<lambda>p. p = (i, c)) (enumerate 0 cs)"
    by (intro filter_cong refl)
  also have "\<dots> = [(i, c)]"
    by (rule filter_singleton) (simp_all add: in_set_enumerate_eq assms(1,2))
  finally show ?thesis .
qed

lemma container_event_at:
  assumes "hook_cgroup h = (e, cgrp)" "0 \<notin> set name" "isValidKnodeName name"
    and "i < length (css_array e cgrp)" "css_array e cgrp ! i = c" "c \<noteq> 0" "names i = Some sys"
    and "\<forall>j<length (css_array e cgrp). css_array e cgrp ! j = c \<longrightarrow> j = i"
  shows "mentions names c (container_event h name)"
    and "outcome names c (container_event h name) =
      (case h of Cgroup_rmdir _ _ \<Rightarrow> None
       | _ \<Rightarrow> Some \<lparr>cm_css = c, cm_subsys = sys, cm_cgroup = cgrp,
           cm_root = read32 e (read64 e cgrp ''cgroup'' [''root'']) ''cgroup_root'' [''hierarchy_id''],
           cm_level = read32 e cgrp ''cgroup'' [''level''], cm_container = name\<rparr>)"
proof -
  have t: "trim_nul (name @ [0, 0]) = name"
    using trim_nul_padded [OF assms(2), of 2] by (simp add: numeral_2_eq_2)
  have "names i \<noteq> None" using assms(7) by simp
  note f = filter_known_css [of i "css_array e cgrp" c names, OF assms(4-6) this assms(8)]
  then have "\<exists>p\<in>set (enumerate 0 (css_array e cgrp)). known_css names c p"
    by (metis filter_False list.distinct(1))
  then show "mentions names c (container_event h name)"
    using assms(1,3) t by (cases h) (simp_all add: mentions_def container_event_def)
  show "outcome names c (container_event h name) =
      (case h of Cgroup_rmdir _ _ \<Rightarrow> None
       | _ \<Rightarrow> Some \<lparr>cm_css = c, cm_subsys = sys, cm_cgroup = cgrp,
           cm_root = read32 e (read64 e cgrp ''cgroup'' [''root'']) ''cgroup_root'' [''hierarchy_id''],
           cm_level = read32 e cgrp ''cgroup'' [''level''], cm_container = name\<rparr>)"
    using assms(1,7) t f by (cases h) (simp_all add: outcome_def container_event_def)
qed

text \<open>
  C27. The table of containers, end to end: whatever happened before, once a cgroup with a
  64-character alphanumeric name is made or read, user space knows each of its subsystem
  states under the name of its container and of its subsystem until another event mentions
  that state, and once the cgroup is removed user space knows it no more.
\<close>

theorem css_table_tracks_containers:
  assumes "hook_cgroup h = (e, cgrp)" "string_at e (knode_addr e cgrp) name"
    and "length name = 64" "isValidKnodeName name"
    and "i < length (css_array e cgrp)" "css_array e cgrp ! i = c" "c \<noteq> 0" "names i = Some sys"
    and "\<forall>j<length (css_array e cgrp). css_array e cgrp ! j = c \<longrightarrow> j = i"
    and "\<forall>h'\<in>set post. \<forall>ev\<in>set (cgroup_events h'). \<not> mentions names c ev"
  shows "foldl (cgroupCssEventSyncHandler names) T (concat (map cgroup_events (pre @ h # post))) c =
    (case h of Cgroup_rmdir _ _ \<Rightarrow> None
     | _ \<Rightarrow> Some \<lparr>cm_css = c, cm_subsys = sys, cm_cgroup = cgrp,
         cm_root = read32 e (read64 e cgrp ''cgroup'' [''root'']) ''cgroup_root'' [''hierarchy_id''],
         cm_level = read32 e cgrp ''cgroup'' [''level''], cm_container = name\<rparr>)"
proof -
  have nz: "0 \<notin> set name" using assms(2) by (simp add: string_at_def)
  note at = container_event_at [of h e cgrp name i c names sys, OF assms(1) nz assms(4-9)]
  have "filter (mentions names c) (concat (map cgroup_events post)) = []"
    using assms(10) by (auto simp: filter_empty_conv)
  then have "filter (mentions names c) (concat (map cgroup_events (pre @ h # post))) =
      filter (mentions names c) (concat (map cgroup_events pre)) @ [container_event h name]"
    using at(1) by (simp add: cgroup_events_container [OF assms(1-3)])
  then show ?thesis unfolding at(2) [symmetric] by (rule handler_run_last)
qed

text \<open>Every entry is stored under its own state.\<close>

definition table_wf :: "css_table \<Rightarrow> bool" where
  "table_wf T \<longleftrightarrow> (\<forall>c m. T c = Some m \<longrightarrow> cm_css m = c)"

lemma table_wf_run: "table_wf T \<Longrightarrow> table_wf (foldl (cgroupCssEventSyncHandler names) T evs)"
proof (induction evs arbitrary: T)
  case (Cons ev evs)
  have "table_wf (cgroupCssEventSyncHandler names T ev)"
    using Cons.prems by (simp add: table_wf_def handler_at outcome_def)
  then show ?case by (simp add: Cons.IH)
qed simp

lemma fold_subsys:
  fixes ms :: "css_meta list"
  defines "msg \<equiv> foldl (\<lambda>msg m. msg(cm_subsys m \<mapsto> cm_css m)) Map.empty"
  assumes "\<forall>m\<in>set ms. \<forall>m'\<in>set ms. cm_subsys m = cm_subsys m' \<longrightarrow> cm_css m = cm_css m'"
  shows "msg ms k = Some css \<longleftrightarrow> (\<exists>m\<in>set ms. cm_subsys m = k \<and> cm_css m = css)"
  using assms(2)
proof (induction ms rule: rev_induct)
  case Nil
  then show ?case by (simp add: msg_def)
next
  case (snoc x ms)
  have step: "msg (ms @ [x]) = (msg ms)(cm_subsys x \<mapsto> cm_css x)" by (simp add: msg_def)
  have "\<forall>m\<in>set ms. \<forall>m'\<in>set ms. cm_subsys m = cm_subsys m' \<longrightarrow> cm_css m = cm_css m'"
    using snoc.prems unfolding set_append by blast
  note IH = snoc.IH [OF this]
  show ?case
  proof (cases "cm_subsys x = k")
    case True
    have "cm_css m = cm_css x" if "m \<in> set ms" "cm_subsys m = k" for m
      using snoc.prems that True unfolding set_append by (metis UnCI list.set_intros(1))
    then show ?thesis using True unfolding step by auto
  next
    case False
    then show ?thesis unfolding step by (simp add: IH)
  qed
qed

lemma set_map_filter_ran: "set order = dom T \<Longrightarrow> set (List.map_filter T order) = ran T"
  by (auto simp: List.map_filter_def ran_def dom_def image_iff) (metis option.sel)

text \<open>
  C28. Looking a container up: from an empty table and for every sequence of events, if no
  container has two states of one subsystem, the lookup of a container yields exactly its
  subsystem states, in whatever order the table is walked.
\<close>

theorem parse_container_css:
  fixes evs :: "cgroup_event list" and names :: "nat \<rightharpoonup> string"
  defines "T \<equiv> foldl (cgroupCssEventSyncHandler names) Map.empty evs"
  assumes "set order = dom T"
    and "\<forall>m\<in>ran T. \<forall>m'\<in>ran T. cm_container m = cm_container m' \<and> cm_subsys m = cm_subsys m' \<longrightarrow>
           cm_css m = cm_css m'"
  shows "parseContainerCSS order T containerID sys = Some css \<longleftrightarrow>
    (\<exists>m. T css = Some m \<and> cm_container m = containerID \<and> cm_subsys m = sys)"
proof -
  have wf: "table_wf T" unfolding T_def by (rule table_wf_run) (simp add: table_wf_def)
  let ?ms = "cgroupListCssDataByKnode order T containerID"
  have "set (List.map_filter T order) = ran T"
    using assms(2) by (rule set_map_filter_ran)
  then have ms: "set ?ms = {m \<in> ran T. cm_container m = containerID}"
    by (auto simp: cgroupListCssDataByKnode_def)
  have "parseContainerCSS order T containerID sys = Some css \<longleftrightarrow>
      (\<exists>m\<in>set ?ms. cm_subsys m = sys \<and> cm_css m = css)"
    unfolding parseContainerCSS_def
  proof (rule fold_subsys)
    show "\<forall>m\<in>set ?ms. \<forall>m'\<in>set ?ms. cm_subsys m = cm_subsys m' \<longrightarrow> cm_css m = cm_css m'"
      using assms(3) unfolding ms by blast
  qed
  also have "\<dots> \<longleftrightarrow> (\<exists>m. T css = Some m \<and> cm_container m = containerID \<and> cm_subsys m = sys)"
    using wf unfolding ms table_wf_def ran_def by blast
  finally show ?thesis .
qed

section \<open>Instances\<close>

lemma string_at_kernel_env:
  assumes "map_of cs a = Some name" "0 \<notin> set name"
  shows "string_at (kernel_env cs task pid now) a name"
proof -
  have "takeWhile (\<lambda>b. b \<noteq> 0) (cells_read cs a n) = take n name" for n
  proof -
    have all: "\<forall>b\<in>set (take n name). b \<noteq> 0" using assms(2) by (metis in_set_takeD)
    have "cells_read cs a n = take n name @ replicate (n - length name) 0"
      by (simp add: cells_read_def assms(1))
    also have "takeWhile (\<lambda>b. b \<noteq> 0) \<dots> = take n name @ takeWhile (\<lambda>b. b \<noteq> 0) (replicate (n - length name) 0)"
      using all by (intro takeWhile_append2) blast
    finally show ?thesis by simp
  qed
  then show ?thesis using assms(2) by (simp add: string_at_def kernel_env_def Let_def)
qed

text \<open>A cgroup at 4096 with the given name and the state 99 for the subsystem 1.\<close>

definition cgroup_env :: "byte list \<Rightarrow> bpf_env" where
  "cgroup_env name = kernel_env
     [(4096 + 352, enc 8 (8192 :: u64)), (8192 + 16, enc 8 (12288 :: u64)), (12288, name),
      (4096 + 544, replicate 8 0 @ enc 8 (99 :: u64))] 0 0 0"

lemma cgroup_env_name: "0 \<notin> set name \<Longrightarrow> string_at (cgroup_env name) (knode_addr (cgroup_env name) 4096) name"
proof -
  assume nz: "0 \<notin> set name"
  have d: "dec (enc 8 (x :: u64)) = x" for x by (rule dec_enc) simp
  have "knode_addr (cgroup_env name) 4096 = 12288"
    by (simp add: knode_addr_def cgroup_env_def read64_def core_read_def core_addr_def cells_read_def d)
  then show ?thesis
    unfolding cgroup_env_def using nz by (simp add: string_at_kernel_env)
qed

lemma cgroup_env_css: "css_array (cgroup_env name) 4096 = [0, 99, 0, 0, 0, 0, 0, 0, 0, 0, 0, 0, 0]"
proof -
  have "core_read (cgroup_env name) 4096 ''cgroup'' [''subsys''] 104 = replicate 8 0 @ enc 8 (99 :: u64) @ replicate 88 0"
    by (simp add: cgroup_env_def core_read_def core_addr_def cells_read_def)
  moreover have "le_val (replicate n 0) = 0" for n by (induction n) simp_all
  ultimately show ?thesis
    by (simp add: css_array_def words_of_def upt_conv_Cons dec_def enc_def le_val_append)
qed

definition container_name :: "byte list" where
  "container_name = replicate 64 97"

theorem cgroup_reported_iff_witness:
  "cgroup_events (Cgroup_mkdir (cgroup_env container_name) 4096) \<noteq> [] \<and>
   cgroup_events (Cgroup_mkdir (cgroup_env (container_name @ [97])) 4096) = []"
proof -
  have n: "0 \<notin> set container_name" "0 \<notin> set (container_name @ [97])" by (simp_all add: container_name_def)
  have h: "hook_cgroup (Cgroup_mkdir (cgroup_env name) 4096) = (cgroup_env name, 4096)" for name by simp
  from cgroup_reported_iff [OF h cgroup_env_name [OF n(1)]] cgroup_reported_iff [OF h cgroup_env_name [OF n(2)]]
  show ?thesis by (simp add: container_name_def del: cgroup_events.simps)
qed

theorem css_table_tracks_containers_witness:
  "map_option cm_container (foldl (cgroupCssEventSyncHandler [1 \<mapsto> ''cpu'']) Map.empty
     (concat (map cgroup_events [Cgroup_mkdir (cgroup_env container_name) 4096])) 99) = Some container_name"
proof -
  let ?h = "Cgroup_mkdir (cgroup_env container_name) 4096" and ?e = "cgroup_env container_name"
  have n: "0 \<notin> set container_name" by (simp add: container_name_def)
  have h: "hook_cgroup ?h = (?e, 4096)" "string_at ?e (knode_addr ?e 4096) container_name"
    "length container_name = 64" "isValidKnodeName container_name"
    "1 < length (css_array ?e 4096)" "css_array ?e 4096 ! 1 = 99" "(99 :: u64) \<noteq> 0"
    "[1 \<mapsto> ''cpu''] 1 = Some ''cpu''"
    "\<forall>j<length (css_array ?e 4096). css_array ?e 4096 ! j = 99 \<longrightarrow> j = 1"
    "\<forall>h'\<in>set []. \<forall>ev\<in>set (cgroup_events h'). \<not> mentions [1 \<mapsto> ''cpu''] 99 ev"
    using cgroup_env_name [OF n]
    by (simp_all add: cgroup_env_css isValidKnodeName_def container_name_def alnum_def list_all_iff
        nth_Cons less_Suc_eq_0_disj split: nat.splits)
  from css_table_tracks_containers [OF h, of Map.empty "[]"] show ?thesis
    by (simp del: cgroup_events.simps)
qed

theorem parse_container_css_witness:
  "parseContainerCSS [5] (foldl (cgroupCssEventSyncHandler [1 \<mapsto> ''cpu'']) Map.empty
     [\<lparr>cg_cgroup = 1, cg_ops_type = 0, cg_root = 0, cg_level = 0, cg_css = [0, 5], cg_knode_name = [97, 0]\<rparr>])
     [97] ''cpu'' = Some 5"
proof -
  let ?ev = "\<lparr>cg_cgroup = 1, cg_ops_type = 0, cg_root = 0, cg_level = 0, cg_css = [0, 5],
    cg_knode_name = [97, 0]\<rparr> :: cgroup_event"
  let ?T = "foldl (cgroupCssEventSyncHandler [1 \<mapsto> ''cpu'']) Map.empty [?ev]"
  have T: "?T = [5 \<mapsto> \<lparr>cm_css = 5, cm_subsys = ''cpu'', cm_cgroup = 1, cm_root = 0, cm_level = 0,
      cm_container = [97]\<rparr>]"
    by (simp add: cgroupCssEventSyncHandler_def cgroupUpdateOrCreateCssData_def isValidKnodeName_def
        trim_nul_def alnum_def store_css_def)
  have h: "set [5] = dom ?T"
    "\<forall>m\<in>ran ?T. \<forall>m'\<in>ran ?T. cm_container m = cm_container m' \<and> cm_subsys m = cm_subsys m' \<longrightarrow>
       cm_css m = cm_css m'"
    unfolding T by simp_all
  show ?thesis using parse_container_css [OF h, of "[97]" "''cpu''" 5] unfolding T by simp
qed

end
