(* ===== verification/Host_Events.thy ===== *)
theory Host_Events
  imports Bpf_Ratelimit Vmlinux_Env
begin

unbundle bit_operations_syntax

text \<open>
  The programs that report rare events of the host: \<^verbatim>\<open>bpf/oom.c\<close>, \<^verbatim>\<open>bpf/softlockup.c\<close>,
  \<^verbatim>\<open>bpf/hungtask.c\<close> and \<^verbatim>\<open>bpf/lacp.c\<close>, with the taint flags of \<^verbatim>\<open>bpf/include/linux_kernel.h\<close>.
  The first two ask a rate limiter that lives in a map; the locale \<open>map_limiter\<close> states what
  they rely on.
\<close>

section \<open>The limiter as the programs see it\<close>

text \<open>
  A limiter kept in a map: a call answers as the abstract limiter in state \<open>r\<close>, and the map
  holds its next state.
\<close>

locale map_limiter =
  fixes call :: "'m \<Rightarrow> u64 \<Rightarrow> 'm \<times> bool \<times> bpf_ratelimit list"
    and holds :: "'m \<Rightarrow> bpf_ratelimit \<Rightarrow> bool"
  assumes answer: "holds m r \<Longrightarrow> fst (snd (call m ns)) = snd (ratelimited ns r)"
    and next_state: "holds m r \<Longrightarrow> holds (fst (call m ns)) (fst (ratelimited ns r))"
begin

text \<open>
  A client that asks the limiter on the hooks \<open>asks\<close> and outputs \<open>rep\<close> when it is let through
  outputs what the abstract limiter lets through.
\<close>

lemma client_run:
  assumes "\<And>s h. \<not> asks h \<Longrightarrow> step s h = s"
    and "\<And>s h. asks h \<Longrightarrow> rate (step s h) = fst (call (rate s) (clk h))"
    and "\<And>s h. asks h \<Longrightarrow> out (step s h) = out s @ (if fst (snd (call (rate s) (clk h))) then [] else rep h)"
  shows "holds (rate s) r \<Longrightarrow>
     out (foldl step s hs) = out s @ concat (map rep (let_through clk r (filter asks hs)))"
proof (induction hs arbitrary: s r)
  case (Cons h hs)
  show ?case
  proof (cases "asks h")
    case True
    have "holds (rate (step s h)) (fst (ratelimited (clk h) r))"
      using next_state [OF Cons.prems] by (simp add: assms(2) True)
    from Cons.IH [OF this] show ?thesis
      by (simp add: assms(3) True answer [OF Cons.prems])
  qed (use Cons in \<open>simp add: assms(1)\<close>)
qed simp

end

definition holds_limiter ::
    "(u32, bpf_ratelimit, 'm) map_ops \<Rightarrow> bpf_ratelimit \<Rightarrow> 'm \<Rightarrow> bpf_ratelimit \<Rightarrow> bool" where
  "holds_limiter M cfg m r \<longleftrightarrow> rl_interval r \<noteq> 0 \<and>
     (\<exists>r0. lookup_elem M m 0 = Some r0 \<and> r = rl_configure cfg r0)"

lemma map_limiter_in_map:
  assumes "bpf_array_map M 1"
  shows "map_limiter (\<lambda>m. bpf_ratelimited_core_in_map M m cfg) (holds_limiter M cfg)"
proof
  fix m r ns
  assume "holds_limiter M cfg m r"
  then obtain r0 where r: "rl_interval r \<noteq> 0" "lookup_elem M m 0 = Some r0" "r = rl_configure cfg r0"
    by (auto simp: holds_limiter_def)
  from in_map_configure [OF assms r(2,3), of ns] obtain m' es where
    c: "bpf_ratelimited_core_in_map M m cfg ns = (m', snd (ratelimited ns r), es)"
    and l: "lookup_elem M m' 0 = Some (fst (ratelimited ns r))" by blast
  show "fst (snd (bpf_ratelimited_core_in_map M m cfg ns)) = snd (ratelimited ns r)"
    by (simp add: c)
  show "holds_limiter M cfg (fst (bpf_ratelimited_core_in_map M m cfg ns)) (fst (ratelimited ns r))"
    using r(1) l by (simp add: c holds_limiter_def ratelimited_config rl_configure_def)
qed

interpretation ml: map_limiter "\<lambda>m. bpf_ratelimited_core_in_map (array_ops 1) m cfg" "holds_limiter (array_ops 1) cfg"
  by (rule map_limiter_in_map) simp

definition host_rate :: bpf_ratelimit where
  "host_rate = BPF_RATELIMIT_IN_MAP 1 (COMPAT_CPU_NUM * 10000) 0"

lemma holds_fresh:
  assumes "lookup_elem M m 0 = Some (BPF_RATELIMIT 0 0)"
  shows "holds_limiter M host_rate m host_rate"
  using assms by (simp add: holds_limiter_def host_rate_def BPF_RATELIMIT_def BPF_RATELIMIT_IN_MAP_def
      rl_configure_def)

text \<open>\<open>BPF_CORE_READ_STR_INTO\<close> of a 16-byte name.\<close>

definition read_comm :: "bpf_env \<Rightarrow> u64 \<Rightarrow> string \<Rightarrow> byte list" where
  "read_comm e p s = snd (probe_read_str e (core_addr e p s [''comm'']) COMPAT_TASK_COMM_LEN)"

section \<open>oom.c\<close>

record oom_info =
  trigger_comm :: "byte list"
  victim_comm :: "byte list"
  trigger_pid :: u32
  victim_pid :: u32
  trigger_memcg_css :: u64
  victim_memcg_css :: u64

record ('m, 'i) limited_state =
  bpf_rlimit_rate :: 'm
  event_bpf_rlimit_rate :: "bpf_ratelimit list"
  host_perf_events :: "'i list"

text \<open>\<open>oc\<close> is the first argument of \<open>oom_kill_process\<close>.\<close>

definition kprobe_oom_kill_process ::
    "(u32, bpf_ratelimit, 'm) map_ops \<Rightarrow> bpf_env \<Rightarrow> u64 \<Rightarrow> ('m, oom_info) limited_state \<Rightarrow>
     ('m, oom_info) limited_state" where
  "kprobe_oom_kill_process M e oc s =
     (let (m, limited, notes) = bpf_ratelimited_core_in_map M (bpf_rlimit_rate s) host_rate (ktime_get_ns e 0);
          s = s\<lparr>bpf_rlimit_rate := m, event_bpf_rlimit_rate := event_bpf_rlimit_rate s @ notes\<rparr> in
      if limited then s
      else if oc = 0 then s
      else
        let trigger_task = current_task e;
            victim_task = read64 e oc ''oom_control'' [''chosen''];
            info = \<lparr>trigger_comm = read_comm e trigger_task ''task_struct'',
              victim_comm = read_comm e victim_task ''task_struct'',
              trigger_pid = read32 e trigger_task ''task_struct'' [''pid''],
              victim_pid = read32 e victim_task ''task_struct'' [''pid''],
              trigger_memcg_css = task_css e trigger_task memory_cgrp_id,
              victim_memcg_css = task_css e victim_task memory_cgrp_id\<rparr>
        in s\<lparr>host_perf_events := host_perf_events s @ [info]\<rparr>)"

section \<open>softlockup.c\<close>

definition TAINT_SOFTLOCKUP :: u64 where [simp]: "TAINT_SOFTLOCKUP = 14"

record softlockup_info =
  sl_cpu :: u32
  sl_pid :: u32
  sl_comm :: "byte list"

definition kprobe_softlockup ::
    "(u32, bpf_ratelimit, 'm) map_ops \<Rightarrow> bpf_env \<Rightarrow> u64 \<Rightarrow> ('m, softlockup_info) limited_state \<Rightarrow>
     ('m, softlockup_info) limited_state" where
  "kprobe_softlockup M e flag s =
     (if flag \<noteq> TAINT_SOFTLOCKUP then s
      else
        let (m, limited, notes) = bpf_ratelimited_core_in_map M (bpf_rlimit_rate s) host_rate (ktime_get_ns e 0);
            s = s\<lparr>bpf_rlimit_rate := m, event_bpf_rlimit_rate := event_bpf_rlimit_rate s @ notes\<rparr> in
        if limited then s
        else
          let info = \<lparr>sl_cpu = smp_processor_id e, sl_pid = ucast (drop_bit 32 (current_pid_tgid e)),
                sl_comm = read_comm e (current_task e) ''task_struct''\<rparr>
          in s\<lparr>host_perf_events := host_perf_events s @ [info]\<rparr>)"

section \<open>hungtask.c and lacp.c\<close>

record hungtask_info =
  hi_pid :: s32
  hi_comm :: "byte list"

text \<open>The tracepoint record is at \<open>ctx\<close>; its \<open>pid\<close> is read from the context.\<close>

definition tracepoint_sched_process_hang ::
    "bpf_env \<Rightarrow> u64 \<Rightarrow> s32 \<Rightarrow> hungtask_info list \<Rightarrow> hungtask_info list" where
  "tracepoint_sched_process_hang e ctx ctx_pid out =
     out @ [\<lparr>hi_pid = ctx_pid, hi_comm = read_comm e ctx ''trace_event_raw_sched_process_hang''\<rparr>]"

definition ad_disable :: "u64 list \<Rightarrow> u64 list" where
  "ad_disable out = out @ [0]"

section \<open>What is reported\<close>

datatype host_hook = Host_hook (hk_env: bpf_env) (hk_arg: u64)

definition hk_clock :: "host_hook \<Rightarrow> u64" where
  "hk_clock h = ktime_get_ns (hk_env h) 0"

definition oom_step :: "(u32, bpf_ratelimit, 'm) map_ops \<Rightarrow> ('m, oom_info) limited_state \<Rightarrow> host_hook \<Rightarrow>
    ('m, oom_info) limited_state" where
  "oom_step M s h = kprobe_oom_kill_process M (hk_env h) (hk_arg h) s"

definition softlockup_step :: "(u32, bpf_ratelimit, 'm) map_ops \<Rightarrow> ('m, softlockup_info) limited_state \<Rightarrow>
    host_hook \<Rightarrow> ('m, softlockup_info) limited_state" where
  "softlockup_step M s h = kprobe_softlockup M (hk_env h) (hk_arg h) s"

text \<open>The event of an OOM kill: who ran out of memory and who is killed for it.\<close>

definition oom_report :: "host_hook \<Rightarrow> oom_info" where
  "oom_report h =
     (let e = hk_env h; trigger = current_task e; victim = read64 e (hk_arg h) ''oom_control'' [''chosen'']
      in \<lparr>trigger_comm = read_comm e trigger ''task_struct'', victim_comm = read_comm e victim ''task_struct'',
          trigger_pid = read32 e trigger ''task_struct'' [''pid''],
          victim_pid = read32 e victim ''task_struct'' [''pid''],
          trigger_memcg_css = task_css e trigger 4, victim_memcg_css = task_css e victim 4\<rparr>)"

definition softlockup_report :: "host_hook \<Rightarrow> softlockup_info" where
  "softlockup_report h =
     \<lparr>sl_cpu = smp_processor_id (hk_env h), sl_pid = of_nat (unat (current_pid_tgid (hk_env h)) div 2 ^ 32),
      sl_comm = read_comm (hk_env h) (current_task (hk_env h)) ''task_struct''\<rparr>"

lemma oom_step_out:
  "bpf_rlimit_rate (oom_step M s h) =
     fst (bpf_ratelimited_core_in_map M (bpf_rlimit_rate s) host_rate (hk_clock h))"
  "host_perf_events (oom_step M s h) = host_perf_events s @
     (if fst (snd (bpf_ratelimited_core_in_map M (bpf_rlimit_rate s) host_rate (hk_clock h))) then []
      else if hk_arg h = 0 then [] else [oom_report h])"
  by (simp_all add: oom_step_def kprobe_oom_kill_process_def hk_clock_def Let_def oom_report_def
      memory_cgrp_id_def split: prod.split)

lemma softlockup_step_out:
  "hk_arg h \<noteq> 14 \<Longrightarrow> softlockup_step M s h = s"
  "hk_arg h = 14 \<Longrightarrow> bpf_rlimit_rate (softlockup_step M s h) =
     fst (bpf_ratelimited_core_in_map M (bpf_rlimit_rate s) host_rate (hk_clock h))"
  "hk_arg h = 14 \<Longrightarrow> host_perf_events (softlockup_step M s h) = host_perf_events s @
     (if fst (snd (bpf_ratelimited_core_in_map M (bpf_rlimit_rate s) host_rate (hk_clock h))) then []
      else [softlockup_report h])"
proof -
  have "(ucast (drop_bit 32 x) :: u32) = of_nat (unat x div 2 ^ 32)" for x :: u64
    unfolding word_unat_eq_iff drop_bit_eq_div [symmetric] unsigned_ucast_eq unat_drop_bit_eq unsigned_of_nat
    by simp
  then show "hk_arg h \<noteq> 14 \<Longrightarrow> softlockup_step M s h = s"
    "hk_arg h = 14 \<Longrightarrow> bpf_rlimit_rate (softlockup_step M s h) =
       fst (bpf_ratelimited_core_in_map M (bpf_rlimit_rate s) host_rate (hk_clock h))"
    "hk_arg h = 14 \<Longrightarrow> host_perf_events (softlockup_step M s h) = host_perf_events s @
       (if fst (snd (bpf_ratelimited_core_in_map M (bpf_rlimit_rate s) host_rate (hk_clock h))) then []
        else [softlockup_report h])"
    by (simp_all add: softlockup_step_def kprobe_softlockup_def hk_clock_def Let_def softlockup_report_def
        split: prod.split)
qed

text \<open>
  C29. OOM kills: from a zeroed limiter, the events sent to user space are those of the kills
  the limiter of 1280000 events lets through, except calls without an \<open>oom_control\<close>, in order;
  each names the current task as the trigger and the chosen task as the victim, with the pid,
  the name and the memory cgroup of each.
\<close>

theorem oom_reports:
  assumes "bpf_array_map M 1" "lookup_elem M m 0 = Some (BPF_RATELIMIT 0 0)"
  shows "host_perf_events (foldl (oom_step M)
      \<lparr>bpf_rlimit_rate = m, event_bpf_rlimit_rate = [], host_perf_events = []\<rparr> hs) =
    map oom_report (filter (\<lambda>h. hk_arg h \<noteq> 0) (let_through hk_clock host_rate hs))"
proof -
  have c: "concat (map (\<lambda>h. if hk_arg h = 0 then [] else [oom_report h]) xs) =
      map oom_report (filter (\<lambda>h. hk_arg h \<noteq> 0) xs)" for xs
    by (induction xs) simp_all
  have "holds_limiter M host_rate (bpf_rlimit_rate
      \<lparr>bpf_rlimit_rate = m, event_bpf_rlimit_rate = [], host_perf_events = [] :: oom_info list\<rparr>) host_rate"
    using holds_fresh [OF assms(2)] by simp
  from map_limiter.client_run [OF map_limiter_in_map [OF assms(1)], where asks = "\<lambda>_. True" and
      step = "oom_step M" and rate = bpf_rlimit_rate and clk = hk_clock and out = host_perf_events and
      rep = "\<lambda>h. if hk_arg h = 0 then [] else [oom_report h]", OF _ _ _ this, of hs]
  show ?thesis by (simp add: oom_step_out c)
qed

text \<open>
  Soft lockups: of all calls of \<open>add_taint\<close>, exactly those with the soft lockup flag are
  put to the limiter, and those it lets through are reported, in order, with the CPU, the
  process (the upper half of the task's identifier) and its name.
\<close>

theorem softlockup_reports:
  assumes "bpf_array_map M 1" "lookup_elem M m 0 = Some (BPF_RATELIMIT 0 0)"
  shows "host_perf_events (foldl (softlockup_step M)
      \<lparr>bpf_rlimit_rate = m, event_bpf_rlimit_rate = [], host_perf_events = []\<rparr> hs) =
    map softlockup_report (let_through hk_clock host_rate (filter (\<lambda>h. hk_arg h = 14) hs))"
proof -
  have "holds_limiter M host_rate (bpf_rlimit_rate
      \<lparr>bpf_rlimit_rate = m, event_bpf_rlimit_rate = [], host_perf_events = [] :: softlockup_info list\<rparr>) host_rate"
    using holds_fresh [OF assms(2)] by simp
  from map_limiter.client_run [OF map_limiter_in_map [OF assms(1)], where asks = "\<lambda>h. hk_arg h = 14" and
      step = "softlockup_step M" and rate = bpf_rlimit_rate and clk = hk_clock and out = host_perf_events and
      rep = "\<lambda>h. [softlockup_report h]", OF _ _ _ this, of hs]
  show ?thesis by (simp add: softlockup_step_out)
qed

section \<open>Instances\<close>

lemma host_rate_first:
  "1000000000 \<le> t \<Longrightarrow> \<not> snd (ratelimited t host_rate)"
  by (simp add: host_rate_def BPF_RATELIMIT_IN_MAP_def BPF_RATELIMIT_def ratelimited_simp
      ratelimit_window_def ratelimit_take_def Let_def)

theorem oom_reports_witness:
  "map victim_pid (host_perf_events (foldl (oom_step (array_ops 1))
      \<lparr>bpf_rlimit_rate = (\<lambda>_. BPF_RATELIMIT 0 0), event_bpf_rlimit_rate = [], host_perf_events = []\<rparr>
      [Host_hook (kernel_env [(4096 + 40, enc 8 (8192 :: u64)), (8192 + 2304, enc 4 (77 :: u32))] 0 0 2000000000)
         4096])) = [77]"
proof -
  let ?hs = "[Host_hook (kernel_env [(4096 + 40, enc 8 (8192 :: u64)), (8192 + 2304, enc 4 (77 :: u32))] 0 0 2000000000)
         4096]"
  have h: "bpf_array_map (array_ops 1 :: (u32, bpf_ratelimit, _) map_ops) 1"
    "lookup_elem (array_ops 1) (\<lambda>_. BPF_RATELIMIT 0 0) 0 = Some (BPF_RATELIMIT 0 0)"
    by (simp_all only: array_ops_map) (simp_all add: array_simps)
  have d: "dec (enc 8 (x :: u64)) = x" "dec (enc 4 (y :: u32)) = y" for x y by (rule dec_enc; simp)+
  have "let_through hk_clock host_rate ?hs = ?hs"
    by (simp add: hk_clock_def host_rate_first)
  moreover have "victim_pid (oom_report (hd ?hs)) = 77"
    by (simp add: oom_report_def Let_def read64_def read32_def core_read_def core_addr_def cells_read_def d)
  ultimately show ?thesis using oom_reports [OF h, of ?hs] by simp
qed

theorem softlockup_reports_witness:
  "map sl_pid (host_perf_events (foldl (softlockup_step (array_ops 1))
      \<lparr>bpf_rlimit_rate = (\<lambda>_. BPF_RATELIMIT 0 0), event_bpf_rlimit_rate = [], host_perf_events = []\<rparr>
      [Host_hook (kernel_env [] 0 0 2000000000) 9, Host_hook (kernel_env [] 0 0x0000004d00000050 2000000000) 14])) = [77]"
proof -
  let ?hs = "[Host_hook (kernel_env [] 0 0 2000000000) 9, Host_hook (kernel_env [] 0 0x0000004d00000050 2000000000) 14]"
  have h: "bpf_array_map (array_ops 1 :: (u32, bpf_ratelimit, _) map_ops) 1"
    "lookup_elem (array_ops 1) (\<lambda>_. BPF_RATELIMIT 0 0) 0 = Some (BPF_RATELIMIT 0 0)"
    by (simp_all only: array_ops_map) (simp_all add: array_simps)
  have "let_through hk_clock host_rate (filter (\<lambda>h. hk_arg h = 14) ?hs) =
      [Host_hook (kernel_env [] 0 0x0000004d00000050 2000000000) 14]"
    by (simp add: hk_clock_def host_rate_first)
  then show ?thesis using softlockup_reports [OF h, of ?hs] by (simp add: softlockup_report_def)
qed

end
