(* ===== verification/Perf.thy ===== *)
theory Perf
  imports Vmlinux_Env
begin

unbundle bit_operations_syntax

text \<open>
  \<^verbatim>\<open>bpf/perf.c\<close>: the sampling profiler, which counts the stacks of the tasks it is asked about.
\<close>

section \<open>Program\<close>

definition PERF_STACK_DEPTH :: nat where [simp]: "PERF_STACK_DEPTH = 20"

record key_t =
  kt_ustack :: "byte list"
  kt_kstack :: "byte list"
  kt_ustack_size :: s64
  kt_kstack_size :: s64
  kt_pid :: u32
  kt_name :: "byte list"

definition counts_max_entries :: nat where "counts_max_entries = 1024"

text \<open>
  Counting a key: an entry that is missing is created with one, an entry that exists is
  incremented through its pointer.
\<close>

definition count_elem :: "('k, u64, 'm) map_ops \<Rightarrow> 'm \<Rightarrow> 'k \<Rightarrow> 'm" where
  "count_elem M m k =
     (case lookup_elem M m k of
        None \<Rightarrow> update_elem' M m k 1 COMPAT_BPF_ANY
      | Some valp \<Rightarrow> store_elem M m k (valp + 1))"

text \<open>\<open>css\<close> and \<open>pid\<close> are the constants of the same names that the loader sets.\<close>

definition perf_event_sw_cpu_clock ::
    "(key_t, u64, 'm) map_ops \<Rightarrow> u64 \<Rightarrow> u64 \<Rightarrow> bpf_env \<Rightarrow> 'm \<Rightarrow> 'm" where
  "perf_event_sw_cpu_clock M css pid e counts =
     (let cpu_css = task_css e (current_task e) cpu_cgrp_id in
      if css \<noteq> 0 \<and> css \<noteq> cpu_css then counts
      else
        let tgid = drop_bit 32 (current_pid_tgid e) in
        if pid \<noteq> 0 \<and> pid \<noteq> tgid then counts
        else
          let (ustack_size, ustack) = get_stack e COMPAT_BPF_F_USER_STACK (8 * PERF_STACK_DEPTH);
              (kstack_size, kstack) = get_stack e 0 (8 * PERF_STACK_DEPTH);
              key = \<lparr>kt_ustack = ustack, kt_kstack = kstack, kt_ustack_size = ustack_size,
                     kt_kstack_size = kstack_size, kt_pid = ucast (drop_bit 32 (current_pid_tgid e)),
                     kt_name = current_comm e\<rparr>
          in count_elem M counts key)"

section \<open>The profile\<close>

text \<open>The samples that are asked for, and their stacks.\<close>

definition sampled :: "u64 \<Rightarrow> u64 \<Rightarrow> bpf_env \<Rightarrow> bool" where
  "sampled css pid e \<longleftrightarrow> (css = 0 \<or> task_css e (current_task e) 1 = css) \<and>
     (pid = 0 \<or> unat (current_pid_tgid e) div 2 ^ 32 = unat pid)"

definition sample_key :: "bpf_env \<Rightarrow> key_t" where
  "sample_key e = \<lparr>kt_ustack = snd (get_stack e 256 160), kt_kstack = snd (get_stack e 0 160),
     kt_ustack_size = fst (get_stack e 256 160), kt_kstack_size = fst (get_stack e 0 160),
     kt_pid = ucast (drop_bit 32 (current_pid_tgid e)), kt_name = current_comm e\<rparr>"

lemma perf_step:
  "perf_event_sw_cpu_clock M css pid e m = (if sampled css pid e then count_elem M m (sample_key e) else m)"
proof -
  have "(pid = drop_bit 32 x) = (unat x div 2 ^ 32 = unat pid)" for x :: u64
    unfolding word_unat_eq_iff drop_bit_eq_div [symmetric] unat_drop_bit_eq by auto
  then show ?thesis
    by (auto simp: perf_event_sw_cpu_clock_def sampled_def sample_key_def Let_def cpu_cgrp_id_def
        split: prod.split)
qed

text \<open>Counting a list of keys in a map that has room for them.\<close>

lemma count_elem_lookup:
  assumes "bpf_hash_map M cap"
    and "k \<in> dom (lookup_elem M m) \<or> card (dom (lookup_elem M m)) < cap"
  shows "lookup_elem M (count_elem M m k) =
     (lookup_elem M m)(k \<mapsto> (case lookup_elem M m k of None \<Rightarrow> 1 | Some v \<Rightarrow> v + 1))"
proof (cases "lookup_elem M m k")
  case None
  with assms(2) have "card (dom (lookup_elem M m)) < cap" by (auto simp: domIff)
  with None show ?thesis by (simp add: count_elem_def bpf_hash_map.update_any_ok [OF assms(1)])
next
  case (Some v)
  then show ?thesis
    by (simp add: count_elem_def bpf_map.store_present [OF bpf_hash_map.axioms(1) [OF assms(1)]])
qed

definition tally :: "'k list \<Rightarrow> 'k \<Rightarrow> u64 option" where
  "tally ks k = (if k \<in> set ks then Some (of_nat (count_list ks k)) else None)"

lemma dom_tally [simp]: "dom (tally ks) = set ks"
  by (auto simp: tally_def dom_def)

lemma tally_snoc:
  "tally (ks @ [k]) = (tally ks)(k \<mapsto> (case tally ks k of None \<Rightarrow> 1 | Some v \<Rightarrow> v + 1))"
  by (auto simp: tally_def fun_eq_iff count_notin)

lemma count_run:
  assumes "bpf_hash_map M cap" "lookup_elem M m = Map.empty"
  shows "card (set ks) \<le> cap \<Longrightarrow> lookup_elem M (foldl (count_elem M) m ks) = tally ks"
proof (induction ks rule: rev_induct)
  case Nil
  then show ?case using assms(2) by (simp add: tally_def)
next
  case (snoc k ks)
  have "card (set ks) \<le> card (set (ks @ [k]))" by (intro card_mono) auto
  then have IH: "lookup_elem M (foldl (count_elem M) m ks) = tally ks"
    using snoc by simp
  have "k \<in> set ks \<or> card (set ks) < cap"
    using snoc.prems by (cases "k \<in> set ks") (simp_all add: card_insert_if)
  then show ?case
    by (simp add: count_elem_lookup [OF assms(1)] IH tally_snoc)
qed

text \<open>
  The profile: over any sequence of clock ticks with at most 1024 different stacks among
  the samples asked for, the map holds for each stack the number of those samples with that
  stack, and nothing else. A sample is asked for if the cgroup and the process of the
  running task are the requested ones, zero standing for any.
\<close>

theorem profile_counts:
  assumes "bpf_hash_map M counts_max_entries" "lookup_elem M m = Map.empty"
    and "card (sample_key ` set (filter (sampled css pid) es)) \<le> counts_max_entries"
  shows "lookup_elem M (foldl (\<lambda>m e. perf_event_sw_cpu_clock M css pid e m) m es) =
           tally (map sample_key (filter (sampled css pid) es))"
proof -
  have "foldl (\<lambda>m e. perf_event_sw_cpu_clock M css pid e m) m es =
      foldl (count_elem M) m (map sample_key (filter (sampled css pid) es))" for m
    by (induction es arbitrary: m) (simp_all add: perf_step)
  then show ?thesis using count_run [OF assms(1,2)] assms(3) by simp
qed

theorem profile_counts_witness:
  "lookup_elem (hash_ops 1024) (foldl (\<lambda>m e. perf_event_sw_cpu_clock (hash_ops 1024) 0 7 e m) []
     [kernel_env [] 0 0x0000000700000007 0, kernel_env [] 0 0x0000000800000008 0,
      kernel_env [] 0 0x0000000700000009 0])
     (sample_key (kernel_env [] 0 0x0000000700000007 0)) = Some 2"
proof -
  let ?es = "[kernel_env [] 0 0x0000000700000007 0, kernel_env [] 0 0x0000000800000008 0,
      kernel_env [] 0 0x0000000700000009 0]"
  have f: "filter (sampled 0 7) ?es = [kernel_env [] 0 0x0000000700000007 0, kernel_env [] 0 0x0000000700000009 0]"
    by (simp add: sampled_def)
  have k: "sample_key (kernel_env [] 0 0x0000000700000009 0) = sample_key (kernel_env [] 0 0x0000000700000007 0)"
    by (simp add: sample_key_def kernel_env_def)
  have h: "bpf_hash_map (hash_ops 1024 :: (key_t, u64, _) map_ops) counts_max_entries"
    "lookup_elem (hash_ops 1024 :: (key_t, u64, _) map_ops) [] = Map.empty"
    "card (sample_key ` set (filter (sampled 0 7) ?es)) \<le> counts_max_entries"
    unfolding f by (simp_all add: counts_max_entries_def lookup_hash_ops k)
  show ?thesis unfolding profile_counts [OF h] f by (simp add: tally_def k)
qed

end
