(* ===== verification/Runqlat.thy ===== *)
theory Runqlat
  imports Vmlinux_Env
begin

unbundle bit_operations_syntax

text \<open>
  \<^verbatim>\<open>bpf/runqlat_tracing.c\<close>: the scheduling latency and the context switches of every task
  group and of the host. The tracepoint programs are state transformers on the three maps;
  the theorems show that the counters of the host and of the task groups agree, that a task
  which waits on the run queue is counted in the bucket of the time it waited, and what the
  program does when the map of task groups is full.
\<close>

section \<open>Data\<close>

definition TASK_RUNNING :: s64 where [simp]: "TASK_RUNNING = 0"

record stat_t =
  nvcsw :: u64
  nivcsw :: u64
  nlat_01 :: u64
  nlat_02 :: u64
  nlat_03 :: u64
  nlat_04 :: u64

record g_stat_t =
  g_nvcsw :: u64
  g_nivcsw :: u64
  g_nlat_01 :: u64
  g_nlat_02 :: u64
  g_nlat_03 :: u64
  g_nlat_04 :: u64

definition latency_max_entries :: nat where "latency_max_entries = 10000"
definition cpu_tg_metric_max_entries :: nat where "cpu_tg_metric_max_entries = 10000"
definition cpu_host_metric_max_entries :: nat where "cpu_host_metric_max_entries = 1"

record ('l, 't, 'h) rq_state =
  latency :: 'l
  cpu_tg_metric :: 't
  cpu_host_metric :: 'h

type_synonym 'l latency_ops = "(u32, u64, 'l) map_ops"
type_synonym 't tg_ops = "(u64, stat_t, 't) map_ops"
type_synonym 'h host_ops = "(u32, g_stat_t, 'h) map_ops"

section \<open>Programs\<close>

definition trace_enqueue ::
    "'l latency_ops \<Rightarrow> bpf_env \<Rightarrow> ('l, 't, 'h) rq_state \<Rightarrow> u32 \<Rightarrow> ('l, 't, 'h) rq_state" where
  "trace_enqueue L e s pid =
     (if pid = 0 then s
      else s\<lparr>latency := update_elem' L (latency s) pid (ktime_get_ns e 0) COMPAT_BPF_ANY\<rparr>)"

text \<open>The \<open>pid\<close> of the tracepoint record is an \<open>int\<close>, converted to \<open>u32\<close> at the call.\<close>

definition sched_wakeup_new_entry ::
    "'l latency_ops \<Rightarrow> bpf_env \<Rightarrow> s32 \<Rightarrow> ('l, 't, 'h) rq_state \<Rightarrow> ('l, 't, 'h) rq_state" where
  "sched_wakeup_new_entry L e ctx_pid s = trace_enqueue L e s ctx_pid"

definition sched_wakeup_entry ::
    "'l latency_ops \<Rightarrow> bpf_env \<Rightarrow> s32 \<Rightarrow> ('l, 't, 'h) rq_state \<Rightarrow> ('l, 't, 'h) rq_state" where
  "sched_wakeup_entry L e ctx_pid s = trace_enqueue L e s ctx_pid"

text \<open>
  The state of a task is a \<open>long\<close> named \<open>state\<close>, or from 5.14 on an \<open>unsigned int\<close> named
  \<open>__state\<close>.
\<close>

definition get_task_state :: "bpf_env \<Rightarrow> u64 \<Rightarrow> s64" where
  "get_task_state e task =
     (if task = 0 then - 1
      else if field_exists e ''task_struct'' [''state'']
      then read64 e task ''task_struct'' [''state'']
      else ucast (read32 e task ''task_struct___5_14'' [''__state'']))"

definition task_pid :: "bpf_env \<Rightarrow> u64 \<Rightarrow> u32" where
  "task_pid e task = read32 e task ''task_struct'' [''pid'']"

definition task_group_key :: "bpf_env \<Rightarrow> u64 \<Rightarrow> u64" where
  "task_group_key e task = read64 e task ''task_struct'' [''sched_task_group'']"

definition new_stat :: stat_t where
  "new_stat = \<lparr>nvcsw = 0, nivcsw = 0, nlat_01 = 0, nlat_02 = 0, nlat_03 = 0, nlat_04 = 0\<rparr>"

definition g_new_stat :: g_stat_t where
  "g_new_stat = \<lparr>g_nvcsw = 0, g_nivcsw = 0, g_nlat_01 = 0, g_nlat_02 = 0, g_nlat_03 = 0, g_nlat_04 = 0\<rparr>"

definition count_switch :: "bool \<Rightarrow> stat_t \<Rightarrow> stat_t" where
  "count_switch is_voluntary v =
     (if is_voluntary then v\<lparr>nvcsw := nvcsw v + 1\<rparr> else v\<lparr>nivcsw := nivcsw v + 1\<rparr>)"

definition g_count_switch :: "bool \<Rightarrow> g_stat_t \<Rightarrow> g_stat_t" where
  "g_count_switch is_voluntary v =
     (if is_voluntary then v\<lparr>g_nvcsw := g_nvcsw v + 1\<rparr> else v\<lparr>g_nivcsw := g_nivcsw v + 1\<rparr>)"

definition count_latency :: "u64 \<Rightarrow> stat_t \<Rightarrow> stat_t" where
  "count_latency delta v =
     (if delta < 10 * NSEC_PER_MSEC then v\<lparr>nlat_01 := nlat_01 v + 1\<rparr>
      else if delta < 20 * NSEC_PER_MSEC then v\<lparr>nlat_02 := nlat_02 v + 1\<rparr>
      else if delta < 50 * NSEC_PER_MSEC then v\<lparr>nlat_03 := nlat_03 v + 1\<rparr>
      else v\<lparr>nlat_04 := nlat_04 v + 1\<rparr>)"

definition g_count_latency :: "u64 \<Rightarrow> g_stat_t \<Rightarrow> g_stat_t" where
  "g_count_latency delta v =
     (if delta < 10 * NSEC_PER_MSEC then v\<lparr>g_nlat_01 := g_nlat_01 v + 1\<rparr>
      else if delta < 20 * NSEC_PER_MSEC then v\<lparr>g_nlat_02 := g_nlat_02 v + 1\<rparr>
      else if delta < 50 * NSEC_PER_MSEC then v\<lparr>g_nlat_03 := g_nlat_03 v + 1\<rparr>
      else v\<lparr>g_nlat_04 := g_nlat_04 v + 1\<rparr>)"

text \<open>
  The parts of \<open>sched_switch_entry\<close>, in order: a task that is switched out while runnable
  waits again; the switch is counted for the group of the task that leaves (\<open>False\<close> is the
  early return); the waiting time of the task that enters is counted for its group. \<open>i\<close> is
  the number of clock readings made before.
\<close>

definition switch_enqueue ::
    "'l latency_ops \<Rightarrow> bpf_env \<Rightarrow> u32 \<Rightarrow> s64 \<Rightarrow> ('l, 't, 'h) rq_state \<Rightarrow> ('l, 't, 'h) rq_state" where
  "switch_enqueue L e prev_pid state s =
     (if state = TASK_RUNNING \<and> prev_pid \<noteq> 0
      then s\<lparr>latency := update_elem' L (latency s) prev_pid (ktime_get_ns e 0) COMPAT_BPF_ANY\<rparr>
      else s)"

definition switch_count ::
    "'t tg_ops \<Rightarrow> 'h host_ops \<Rightarrow> u64 \<Rightarrow> u32 \<Rightarrow> bool \<Rightarrow> ('l, 't, 'h) rq_state \<Rightarrow>
     ('l, 't, 'h) rq_state \<times> bool" where
  "switch_count T H key prev_pid is_voluntary s =
     (if key \<noteq> 0 \<and> prev_pid \<noteq> 0
      then case lookup_or_create T (cpu_tg_metric s) key new_stat of
             (t, False) \<Rightarrow> (s\<lparr>cpu_tg_metric := t\<rparr>, False)
           | (t, True) \<Rightarrow>
               (s\<lparr>cpu_tg_metric := modify_elem T t key (count_switch is_voluntary),
                  cpu_host_metric := modify_elem H (cpu_host_metric s) 0 (g_count_switch is_voluntary)\<rparr>,
                True)
      else (s, True))"

definition switch_latency ::
    "'l latency_ops \<Rightarrow> 't tg_ops \<Rightarrow> 'h host_ops \<Rightarrow> bpf_env \<Rightarrow> nat \<Rightarrow> u64 \<Rightarrow>
     ('l, 't, 'h) rq_state \<Rightarrow> ('l, 't, 'h) rq_state" where
  "switch_latency L T H e i next s =
     (let next_pid = task_pid e next in
      if next_pid = 0 then s
      else case lookup_elem L (latency s) next_pid of
        None \<Rightarrow> s
      | Some ts \<Rightarrow>
          if ts = 0 then s
          else
            let delta = ktime_get_ns e i - ts;
                s = s\<lparr>latency := delete_elem' L (latency s) next_pid\<rparr>;
                key = task_group_key e next in
            if key = 0 then s
            else case lookup_or_create T (cpu_tg_metric s) key new_stat of
              (t, False) \<Rightarrow> s\<lparr>cpu_tg_metric := t\<rparr>
            | (t, True) \<Rightarrow>
                s\<lparr>cpu_tg_metric := modify_elem T t key (count_latency delta),
                  cpu_host_metric := modify_elem H (cpu_host_metric s) 0 (g_count_latency delta)\<rparr>)"

definition sched_switch_entry ::
    "'l latency_ops \<Rightarrow> 't tg_ops \<Rightarrow> 'h host_ops \<Rightarrow> bpf_env \<Rightarrow> u64 \<Rightarrow> u64 \<Rightarrow>
     ('l, 't, 'h) rq_state \<Rightarrow> ('l, 't, 'h) rq_state" where
  "sched_switch_entry L T H e prev next s =
     (let key = task_group_key e prev;
          state = get_task_state e prev;
          prev_pid = task_pid e prev;
          i = (if state = TASK_RUNNING \<and> prev_pid \<noteq> 0 then 1 else 0);
          s = switch_enqueue L e prev_pid state s
      in case lookup_or_create H (cpu_host_metric s) 0 g_new_stat of
           (h, False) \<Rightarrow> s\<lparr>cpu_host_metric := h\<rparr>
         | (h, True) \<Rightarrow>
             (case switch_count T H key prev_pid (state \<noteq> TASK_RUNNING) (s\<lparr>cpu_host_metric := h\<rparr>) of
                (s, False) \<Rightarrow> s
              | (s, True) \<Rightarrow> switch_latency L T H e i next s))"

definition sched_process_exit_entry ::
    "'l latency_ops \<Rightarrow> bpf_env \<Rightarrow> u64 \<Rightarrow> ('l, 't, 'h) rq_state \<Rightarrow> ('l, 't, 'h) rq_state" where
  "sched_process_exit_entry L e p s =
     (let pid = task_pid e p in
      if lookup_elem L (latency s) pid \<noteq> None
      then s\<lparr>latency := delete_elem' L (latency s) pid\<rparr> else s)"

definition free_fair_sched_group_entry ::
    "'t tg_ops \<Rightarrow> u64 \<Rightarrow> ('l, 't, 'h) rq_state \<Rightarrow> ('l, 't, 'h) rq_state" where
  "free_fair_sched_group_entry T tg s =
     (if lookup_elem T (cpu_tg_metric s) tg \<noteq> None
      then s\<lparr>cpu_tg_metric := delete_elem' T (cpu_tg_metric s) tg\<rparr> else s)"

text \<open>The events the programs are attached to, in the order in which they happen.\<close>

datatype rq_hook =
    Wakeup_new bpf_env s32
  | Wakeup bpf_env s32
  | Switch bpf_env u64 u64
  | Process_exit bpf_env u64
  | Free_group u64

fun rq_step :: "'l latency_ops \<Rightarrow> 't tg_ops \<Rightarrow> 'h host_ops \<Rightarrow> ('l, 't, 'h) rq_state \<Rightarrow> rq_hook \<Rightarrow>
    ('l, 't, 'h) rq_state" where
  "rq_step L T H s (Wakeup_new e pid) = sched_wakeup_new_entry L e pid s"
| "rq_step L T H s (Wakeup e pid) = sched_wakeup_entry L e pid s"
| "rq_step L T H s (Switch e prev next) = sched_switch_entry L T H e prev next s"
| "rq_step L T H s (Process_exit e p) = sched_process_exit_entry L e p s"
| "rq_step L T H s (Free_group tg) = free_fair_sched_group_entry T tg s"

section \<open>The counters of the host and of the task groups agree\<close>

text \<open>The counters of a task group, each with the host's counter of the same events.\<close>

definition sched_fields :: "((stat_t \<Rightarrow> u64) \<times> (g_stat_t \<Rightarrow> u64)) list" where
  "sched_fields = [(nvcsw, g_nvcsw), (nivcsw, g_nivcsw), (nlat_01, g_nlat_01),
     (nlat_02, g_nlat_02), (nlat_03, g_nlat_03), (nlat_04, g_nlat_04)]"

definition tg_total :: "(stat_t \<Rightarrow> u64) \<Rightarrow> (u64 \<rightharpoonup> stat_t) \<Rightarrow> u64" where
  "tg_total f m = (\<Sum>k\<in>dom m. f (the (m k)))"

definition host_stat :: "'h host_ops \<Rightarrow> ('l, 't, 'h) rq_state \<Rightarrow> g_stat_t" where
  "host_stat H s = the (lookup_elem H (cpu_host_metric s) 0)"

text \<open>What the groups that were freed had counted.\<close>

definition retired :: "(stat_t \<Rightarrow> u64) \<Rightarrow> 't tg_ops \<Rightarrow> ('l, 't, 'h) rq_state \<Rightarrow> rq_hook \<Rightarrow> u64" where
  "retired f T s h =
     (case h of
        Free_group tg \<Rightarrow> (case lookup_elem T (cpu_tg_metric s) tg of None \<Rightarrow> 0 | Some v \<Rightarrow> f v)
      | _ \<Rightarrow> 0)"

fun retired_run :: "(stat_t \<Rightarrow> u64) \<Rightarrow> 'l latency_ops \<Rightarrow> 't tg_ops \<Rightarrow> 'h host_ops \<Rightarrow>
    ('l, 't, 'h) rq_state \<Rightarrow> rq_hook list \<Rightarrow> u64" where
  "retired_run f L T H s [] = 0"
| "retired_run f L T H s (h # hs) = retired f T s h + retired_run f L T H (rq_step L T H s h) hs"

lemma tg_total_upd:
  "tg_total f (m(k \<mapsto> v)) = tg_total f m - (case m k of None \<Rightarrow> 0 | Some w \<Rightarrow> f w) + f v"
proof (cases "m k")
  case None
  then have "(\<Sum>x\<in>dom m. f (the ((m(k \<mapsto> v)) x))) = (\<Sum>x\<in>dom m. f (the (m x)))"
    by (intro sum.cong) auto
  with None show ?thesis by (simp add: tg_total_def domIff)
next
  case (Some w)
  then have "insert k (dom m) = dom m" "k \<in> dom m" by auto
  moreover have "(\<Sum>x\<in>dom m - {k}. f (the ((m(k \<mapsto> v)) x))) = (\<Sum>x\<in>dom m - {k}. f (the (m x)))"
    by (intro sum.cong) auto
  ultimately show ?thesis using Some
    by (simp add: tg_total_def sum.remove [of "dom m" k])
qed

lemma tg_total_del:
  "tg_total f (m(k := None)) = tg_total f m - (case m k of None \<Rightarrow> 0 | Some w \<Rightarrow> f w)"
proof (cases "m k")
  case None
  then show ?thesis by (simp add: fun_upd_idem)
next
  case (Some w)
  then have "k \<in> dom m" by auto
  moreover have "(\<Sum>x\<in>dom m - {k}. f (the ((m(k := None)) x))) = (\<Sum>x\<in>dom m - {k}. f (the (m x)))"
    by (intro sum.cong) auto
  ultimately show ?thesis using Some
    by (simp add: tg_total_def sum.remove [of "dom m" k])
qed

text \<open>A pair of updates that move a counter of the group and the host by the same amount.\<close>

definition in_step :: "(stat_t \<Rightarrow> u64) \<Rightarrow> (g_stat_t \<Rightarrow> u64) \<Rightarrow> (stat_t \<Rightarrow> stat_t) \<Rightarrow> (g_stat_t \<Rightarrow> g_stat_t) \<Rightarrow> bool" where
  "in_step f g u w \<longleftrightarrow> (\<forall>v v'. f (u v) - f v = g (w v') - g v')"

lemma in_step_counts:
  assumes "(f, g) \<in> set sched_fields"
  shows "in_step f g (count_switch b) (g_count_switch b)"
    and "in_step f g (count_latency d) (g_count_latency d)"
  using assms
  by (auto simp: sched_fields_def in_step_def count_switch_def g_count_switch_def
      count_latency_def g_count_latency_def)

lemma fields_new_stat: "(f, g) \<in> set sched_fields \<Longrightarrow> f new_stat = 0"
  by (auto simp: sched_fields_def new_stat_def)

text \<open>How far the host's counter is ahead of the groups that exist.\<close>

definition ahead :: "(stat_t \<Rightarrow> u64) \<Rightarrow> (g_stat_t \<Rightarrow> u64) \<Rightarrow> 't tg_ops \<Rightarrow> 'h host_ops \<Rightarrow>
    ('l, 't, 'h) rq_state \<Rightarrow> u64" where
  "ahead f g T H s = g (host_stat H s) - tg_total f (lookup_elem T (cpu_tg_metric s))"

lemma ahead_created:
  assumes "bpf_map T" "bpf_array_map H cpu_host_metric_max_entries" "f new_stat = 0" "in_step f g u w"
    and "snd (lookup_or_create T (cpu_tg_metric s) k new_stat)"
  shows "ahead f g T H (s\<lparr>cpu_tg_metric := modify_elem T (fst (lookup_or_create T (cpu_tg_metric s) k new_stat)) k u,
           cpu_host_metric := modify_elem H (cpu_host_metric s) 0 w\<rparr>) = ahead f g T H s"
proof -
  note Hm = bpf_array_map.axioms(1) [OF assms(2)]
  obtain g0 where g0: "lookup_elem H (cpu_host_metric s) 0 = Some g0"
    using bpf_array_map.array_present [OF assms(2), of 0 "cpu_host_metric s"]
    by (auto simp: cpu_host_metric_max_entries_def)
  obtain v where v: "v = (case lookup_elem T (cpu_tg_metric s) k of None \<Rightarrow> new_stat | Some w \<Rightarrow> w)"
    by simp
  have "f (u v) - f v = g (w g0) - g g0" using assms(4) by (simp add: in_step_def)
  moreover have "(case lookup_elem T (cpu_tg_metric s) k of None \<Rightarrow> 0 | Some w \<Rightarrow> f w) = f v"
    using assms(3) by (simp add: v split: option.split)
  ultimately show ?thesis
    by (simp add: ahead_def host_stat_def bpf_map.lookup_modify [OF Hm] g0 tg_total_upd
        bpf_map.modify_created [OF assms(1,5)] v [symmetric] algebra_simps)
qed

lemma ahead_not_created:
  assumes "bpf_map T" "\<not> snd (lookup_or_create T (cpu_tg_metric s) k new_stat)"
  shows "ahead f g T H (s\<lparr>cpu_tg_metric := fst (lookup_or_create T (cpu_tg_metric s) k new_stat)\<rparr>) =
           ahead f g T H s"
  using assms by (simp add: ahead_def host_stat_def bpf_map.lookup_created)

lemma ahead_latency [simp]: "ahead f g T H (s\<lparr>latency := l\<rparr>) = ahead f g T H s"
  by (simp add: ahead_def host_stat_def)

lemma ahead_switch_count:
  assumes "bpf_map T" "bpf_array_map H cpu_host_metric_max_entries" "(f, g) \<in> set sched_fields"
  shows "ahead f g T H (fst (switch_count T H key pid b s)) = ahead f g T H s"
proof (cases "snd (lookup_or_create T (cpu_tg_metric s) key new_stat)")
  case True
  with ahead_created [OF assms(1,2) fields_new_stat [OF assms(3)] in_step_counts(1) [OF assms(3)], of s key b]
  show ?thesis by (auto simp: switch_count_def split: prod.split bool.split)
next
  case False
  with ahead_not_created [OF assms(1), of s key f g H]
  show ?thesis by (auto simp: switch_count_def split: prod.split bool.split)
qed

lemma ahead_switch_latency:
  assumes "bpf_map T" "bpf_array_map H cpu_host_metric_max_entries" "(f, g) \<in> set sched_fields"
  shows "ahead f g T H (switch_latency L T H e i nxt s) = ahead f g T H s"
proof -
  let ?s = "s\<lparr>latency := delete_elem' L (latency s) (task_pid e nxt)\<rparr>"
  show ?thesis
  proof (cases "snd (lookup_or_create T (cpu_tg_metric s) (task_group_key e nxt) new_stat)")
    case True
    with ahead_created [OF assms(1,2) fields_new_stat [OF assms(3)] in_step_counts(2) [OF assms(3)],
        of ?s "task_group_key e nxt"]
    show ?thesis by (auto simp: switch_latency_def Let_def split: prod.split bool.split option.split)
  next
    case False
    with ahead_not_created [OF assms(1), of ?s "task_group_key e nxt" f g H]
    show ?thesis by (auto simp: switch_latency_def Let_def split: prod.split bool.split option.split)
  qed
qed

lemma sched_switch_host:
  assumes "bpf_array_map H cpu_host_metric_max_entries"
  shows "sched_switch_entry L T H e prev nxt s =
     (let state = get_task_state e prev; pid = task_pid e prev;
          r = switch_count T H (task_group_key e prev) pid (state \<noteq> TASK_RUNNING)
                (switch_enqueue L e pid state s)
      in if snd r
         then switch_latency L T H e (if state = TASK_RUNNING \<and> pid \<noteq> 0 then 1 else 0) nxt (fst r)
         else fst r)"
proof -
  have "lookup_or_create H h 0 g_new_stat = (h, True)" for h
    using assms by (rule bpf_array_map.array_created) (simp add: cpu_host_metric_max_entries_def)
  then show ?thesis
    by (simp add: sched_switch_entry_def Let_def split: prod.split bool.split)
qed

lemma ahead_step:
  assumes "bpf_hash_map T cpu_tg_metric_max_entries" "bpf_array_map H cpu_host_metric_max_entries"
    and "(f, g) \<in> set sched_fields"
  shows "ahead f g T H (rq_step L T H s h) = ahead f g T H s + retired f T s h"
proof (cases h)
  case (Free_group tg)
  then show ?thesis
    by (auto simp: free_fair_sched_group_entry_def retired_def ahead_def host_stat_def
        bpf_hash_map.delete_key [OF assms(1)] tg_total_del)
qed (simp_all add: retired_def sched_wakeup_new_entry_def sched_wakeup_entry_def trace_enqueue_def
    sched_process_exit_entry_def sched_switch_host [OF assms(2)] Let_def switch_enqueue_def
    ahead_switch_latency [OF bpf_hash_map.axioms(1) [OF assms(1)] assms(2,3)]
    ahead_switch_count [OF bpf_hash_map.axioms(1) [OF assms(1)] assms(2,3)])

text \<open>
  C14. Conservation of the scheduler counters: whatever events happen, in whatever order,
  each of the six counters of the host moves by exactly as much as that counter of the task
  groups together, counting the groups that were freed on the way. This holds modulo
  \<open>2 ^ 64\<close>, also when the map of task groups is full.
\<close>

theorem host_counters_conserved:
  assumes "bpf_hash_map T cpu_tg_metric_max_entries" "bpf_array_map H cpu_host_metric_max_entries"
    and "(f, g) \<in> set sched_fields"
  shows "g (host_stat H (foldl (rq_step L T H) s hs)) - g (host_stat H s) =
     tg_total f (lookup_elem T (cpu_tg_metric (foldl (rq_step L T H) s hs))) -
     tg_total f (lookup_elem T (cpu_tg_metric s)) + retired_run f L T H s hs"
proof -
  have "ahead f g T H (foldl (rq_step L T H) s hs) = ahead f g T H s + retired_run f L T H s hs"
    by (induction hs arbitrary: s) (simp_all add: ahead_step [OF assms])
  then show ?thesis by (simp add: ahead_def algebra_simps)
qed

section \<open>Time on the run queue\<close>

text \<open>Events that do not concern the task \<open>pid\<close> while it waits.\<close>

definition not_about :: "u32 \<Rightarrow> rq_hook \<Rightarrow> bool" where
  "not_about pid h =
     (case h of
        Wakeup_new e p \<Rightarrow> p \<noteq> pid
      | Wakeup e p \<Rightarrow> p \<noteq> pid
      | Switch e prev nxt \<Rightarrow> task_pid e prev \<noteq> pid \<and> task_pid e nxt \<noteq> pid
      | Process_exit e p \<Rightarrow> task_pid e p \<noteq> pid
      | Free_group tg \<Rightarrow> True)"

lemma latency_switch_count [simp]: "latency (fst (switch_count T H key p b s)) = latency s"
  by (simp add: switch_count_def split: prod.split bool.split)

lemma latency_switch_latency:
  assumes "bpf_hash_map L latency_max_entries" "task_pid e nxt \<noteq> pid"
  shows "lookup_elem L (latency (switch_latency L T H e i nxt s)) pid = lookup_elem L (latency s) pid"
  using assms(2)
  by (simp add: switch_latency_def Let_def bpf_hash_map.delete_key [OF assms(1)]
      split: prod.split bool.split option.split)

lemma latency_step:
  assumes "bpf_hash_map L latency_max_entries" "bpf_array_map H cpu_host_metric_max_entries"
    and "not_about pid h"
  shows "lookup_elem L (latency (rq_step L T H s h)) pid = lookup_elem L (latency s) pid"
proof -
  note other = bpf_map.lookup_update_other [OF bpf_hash_map.axioms(1) [OF assms(1)]]
  show ?thesis
    using assms(3)
    by (cases h) (auto simp: not_about_def sched_wakeup_new_entry_def sched_wakeup_entry_def
        trace_enqueue_def sched_process_exit_entry_def free_fair_sched_group_entry_def
        sched_switch_host [OF assms(2)] Let_def switch_enqueue_def other
        latency_switch_latency [OF assms(1)] bpf_hash_map.delete_key [OF assms(1)])
qed

lemma latency_run:
  assumes "bpf_hash_map L latency_max_entries" "bpf_array_map H cpu_host_metric_max_entries"
  shows "\<forall>h\<in>set hs. not_about pid h \<Longrightarrow>
     lookup_elem L (latency (foldl (rq_step L T H) s hs)) pid = lookup_elem L (latency s) pid"
  by (induction hs arbitrary: s) (simp_all add: latency_step [OF assms])

text \<open>
  The counters of latencies, and the counter a time in nanoseconds belongs to by the comments
  of \<open>g_stat_t\<close>: \<open>[0, 10)\<close>, \<open>[10, 20)\<close>, \<open>[20, 50)\<close> and \<open>[50, inf)\<close> milliseconds.
\<close>

definition g_nlat :: "g_stat_t \<Rightarrow> u64 list" where
  "g_nlat v = [g_nlat_01 v, g_nlat_02 v, g_nlat_03 v, g_nlat_04 v]"

definition nlat :: "stat_t \<Rightarrow> u64 list" where
  "nlat v = [nlat_01 v, nlat_02 v, nlat_03 v, nlat_04 v]"

definition lat_range :: "nat \<Rightarrow> nat" where
  "lat_range ns =
     (let ms = ns div 1000000 in if ms < 10 then 0 else if ms < 20 then 1 else if ms < 50 then 2 else 3)"

lemma nlat_count_switch [simp]:
  "nlat (count_switch b v) = nlat v" "g_nlat (g_count_switch b w) = g_nlat w"
  by (simp_all add: nlat_def g_nlat_def count_switch_def g_count_switch_def)

lemma nlat_count_latency:
  "nlat (count_latency d v) = bump (lat_range (unat d)) (nlat v)"
  "g_nlat (g_count_latency d w) = bump (lat_range (unat d)) (g_nlat w)"
  by (auto simp: nlat_def g_nlat_def count_latency_def g_count_latency_def lat_range_def bump_def
      Let_def word_less_nat_alt)

definition tg_nlat :: "'t tg_ops \<Rightarrow> ('l, 't, 'h) rq_state \<Rightarrow> u64 \<Rightarrow> u64 list" where
  "tg_nlat T s k =
     nlat (case lookup_elem T (cpu_tg_metric s) k of None \<Rightarrow> new_stat | Some v \<Rightarrow> v)"

lemma switch_count_nlat:
  assumes "bpf_hash_map T cpu_tg_metric_max_entries" "bpf_array_map H cpu_host_metric_max_entries"
    and "card (dom (lookup_elem T (cpu_tg_metric s))) + 1 < cpu_tg_metric_max_entries"
  shows "snd (switch_count T H key p b s)"
    and "tg_nlat T (fst (switch_count T H key p b s)) k = tg_nlat T s k"
    and "g_nlat (host_stat H (fst (switch_count T H key p b s))) = g_nlat (host_stat H s)"
    and "card (dom (lookup_elem T (cpu_tg_metric (fst (switch_count T H key p b s))))) <
           cpu_tg_metric_max_entries"
proof -
  note Tm = bpf_hash_map.axioms(1) [OF assms(1)] and Hm = bpf_array_map.axioms(1) [OF assms(2)]
  have c: "snd (lookup_or_create T (cpu_tg_metric s) key new_stat)"
    using assms(3) by (simp add: bpf_hash_map.created_iff [OF assms(1)])
  obtain g0 where g0: "lookup_elem H (cpu_host_metric s) 0 = Some g0"
    using bpf_array_map.array_present [OF assms(2), of 0 "cpu_host_metric s"]
    by (auto simp: cpu_host_metric_max_entries_def)
  have sc: "switch_count T H key p b s =
     (if key \<noteq> 0 \<and> p \<noteq> 0
      then (s\<lparr>cpu_tg_metric := modify_elem T (fst (lookup_or_create T (cpu_tg_metric s) key new_stat))
                key (count_switch b),
              cpu_host_metric := modify_elem H (cpu_host_metric s) 0 (g_count_switch b)\<rparr>, True)
      else (s, True))"
    using c by (auto simp: switch_count_def split: prod.split bool.split)
  show "snd (switch_count T H key p b s)" by (simp add: sc)
  show "tg_nlat T (fst (switch_count T H key p b s)) k = tg_nlat T s k"
    by (simp add: sc tg_nlat_def bpf_map.modify_created [OF Tm c] split: option.split)
  show "g_nlat (host_stat H (fst (switch_count T H key p b s))) = g_nlat (host_stat H s)"
    by (simp add: sc host_stat_def bpf_map.lookup_modify [OF Hm] g0)
  show "card (dom (lookup_elem T (cpu_tg_metric (fst (switch_count T H key p b s))))) <
      cpu_tg_metric_max_entries"
    using assms(3)
    by (auto simp: sc bpf_map.modify_created [OF Tm c] card_insert_if)
qed

lemma switch_latency_nlat:
  fixes i :: nat
  assumes "bpf_hash_map L latency_max_entries" "bpf_hash_map T cpu_tg_metric_max_entries"
    and "bpf_array_map H cpu_host_metric_max_entries"
    and "card (dom (lookup_elem T (cpu_tg_metric s))) < cpu_tg_metric_max_entries"
    and "lookup_elem L (latency s) (task_pid e nxt) = Some ts" "ts \<noteq> 0"
    and "task_pid e nxt \<noteq> 0" "task_group_key e nxt \<noteq> 0"
  defines "s' \<equiv> switch_latency L T H e i nxt s" and "b \<equiv> lat_range (unat (ktime_get_ns e i - ts))"
  shows "g_nlat (host_stat H s') = bump b (g_nlat (host_stat H s))"
    and "tg_nlat T s' (task_group_key e nxt) = bump b (tg_nlat T s (task_group_key e nxt))"
    and "lookup_elem L (latency s') (task_pid e nxt) = None"
proof -
  note Tm = bpf_hash_map.axioms(1) [OF assms(2)] and Hm = bpf_array_map.axioms(1) [OF assms(3)]
  let ?k = "task_group_key e nxt"
  have c: "snd (lookup_or_create T (cpu_tg_metric s) ?k new_stat)"
    using assms(4) by (simp add: bpf_hash_map.created_iff [OF assms(2)])
  obtain g0 where g0: "lookup_elem H (cpu_host_metric s) 0 = Some g0"
    using bpf_array_map.array_present [OF assms(3), of 0 "cpu_host_metric s"]
    by (auto simp: cpu_host_metric_max_entries_def)
  have s': "s' = s\<lparr>latency := delete_elem' L (latency s) (task_pid e nxt),
      cpu_tg_metric := modify_elem T (fst (lookup_or_create T (cpu_tg_metric s) ?k new_stat)) ?k
        (count_latency (ktime_get_ns e i - ts)),
      cpu_host_metric := modify_elem H (cpu_host_metric s) 0 (g_count_latency (ktime_get_ns e i - ts))\<rparr>"
    using c assms(5-8) by (auto simp: s'_def switch_latency_def Let_def split: prod.split bool.split)
  show "g_nlat (host_stat H s') = bump b (g_nlat (host_stat H s))"
    by (simp add: s' host_stat_def bpf_map.lookup_modify [OF Hm] g0 nlat_count_latency b_def)
  show "tg_nlat T s' ?k = bump b (tg_nlat T s ?k)"
    by (simp add: s' tg_nlat_def bpf_map.modify_created [OF Tm c] nlat_count_latency b_def)
  show "lookup_elem L (latency s') (task_pid e nxt) = None"
    by (simp add: s' bpf_hash_map.delete_key [OF assms(1)])
qed

text \<open>The number of clock readings of a switch before the one that ends the wait.\<close>

definition switch_clock :: "bpf_env \<Rightarrow> u64 \<Rightarrow> nat" where
  "switch_clock e prev = (if get_task_state e prev = TASK_RUNNING \<and> task_pid e prev \<noteq> 0 then 1 else 0)"

lemma wakeup_latency:
  assumes "bpf_hash_map L latency_max_entries" "pid \<noteq> 0"
    and "pid \<in> dom (lookup_elem L (latency s)) \<or>
         card (dom (lookup_elem L (latency s))) < latency_max_entries"
  shows "lookup_elem L (latency (rq_step L T H s (Wakeup e pid))) pid = Some (ktime_get_ns e 0)"
proof -
  note M = bpf_hash_map.axioms(1) [OF assms(1)]
  have "snd (update_elem L (latency s) pid (ktime_get_ns e 0) COMPAT_BPF_ANY) = 0"
  proof (cases "lookup_elem L (latency s) pid")
    case None
    with assms(3) show ?thesis
      by (intro bpf_hash_map.room [OF assms(1)]) (auto simp: domIff)
  next
    case (Some v)
    then show ?thesis by (intro bpf_map.update_present [OF M]) simp_all
  qed
  with assms(2) show ?thesis
    by (simp add: sched_wakeup_entry_def trace_enqueue_def bpf_map.update_done [OF M])
qed

text \<open>
  C15. Scheduling latency: a task is woken up, other tasks wake up, switch and exit in any
  order, then the task is switched in. The counter of its group and the counter of the host
  for the range of milliseconds that contains the time in between go up by one, no other
  latency counter of the two changes, and the task no longer waits. The map of waiting tasks
  has room for the task and the map of groups for the groups of the two tasks.
\<close>

theorem run_queue_latency_counted:
  fixes L :: "'l latency_ops" and T :: "'t tg_ops" and H :: "'h host_ops" and s :: "('l, 't, 'h) rq_state"
  assumes "bpf_hash_map L latency_max_entries" "bpf_hash_map T cpu_tg_metric_max_entries"
    and "bpf_array_map H cpu_host_metric_max_entries"
    and "pid \<noteq> 0" "ktime_get_ns e0 0 \<noteq> 0" "\<forall>h\<in>set others. not_about pid h"
    and "pid \<in> dom (lookup_elem L (latency s)) \<or>
         card (dom (lookup_elem L (latency s))) < latency_max_entries"
    and "task_pid e nxt = pid" "task_pid e prev \<noteq> pid" "task_group_key e nxt \<noteq> 0"
  defines "s1 \<equiv> foldl (rq_step L T H) s (Wakeup e0 pid # others)"
    and "b \<equiv> lat_range (unat (ktime_get_ns e (switch_clock e prev) - ktime_get_ns e0 0))"
  assumes "card (dom (lookup_elem T (cpu_tg_metric s1))) + 1 < cpu_tg_metric_max_entries"
  shows "g_nlat (host_stat H (rq_step L T H s1 (Switch e prev nxt))) = bump b (g_nlat (host_stat H s1)) \<and>
    tg_nlat T (rq_step L T H s1 (Switch e prev nxt)) (task_group_key e nxt) =
      bump b (tg_nlat T s1 (task_group_key e nxt)) \<and>
    lookup_elem L (latency (rq_step L T H s1 (Switch e prev nxt))) pid = None"
proof -
  let ?s2 = "switch_enqueue L e (task_pid e prev) (get_task_state e prev) s1"
  let ?s3 = "fst (switch_count T H (task_group_key e prev) (task_pid e prev)
               (get_task_state e prev \<noteq> TASK_RUNNING) ?s2)"
  note other = bpf_map.lookup_update_other [OF bpf_hash_map.axioms(1) [OF assms(1)]]
  have l1: "lookup_elem L (latency s1) pid = Some (ktime_get_ns e0 0)"
    unfolding s1_def foldl_Cons
    by (simp add: latency_run [OF assms(1,3,6)] wakeup_latency [OF assms(1,4,7)]
        del: rq_step.simps)
  have l3: "lookup_elem L (latency ?s3) (task_pid e nxt) = Some (ktime_get_ns e0 0)"
    using l1 assms(8,9) by (simp add: switch_enqueue_def other)
  have eq: "cpu_tg_metric ?s2 = cpu_tg_metric s1" "host_stat H ?s2 = host_stat H s1"
    "tg_nlat T ?s2 = tg_nlat T s1"
    by (simp_all add: switch_enqueue_def host_stat_def tg_nlat_def fun_eq_iff)
  have room: "card (dom (lookup_elem T (cpu_tg_metric ?s2))) + 1 < cpu_tg_metric_max_entries"
    using assms(13) by (simp add: eq)
  note sc = switch_count_nlat [OF assms(2,3) room, of "task_group_key e prev" "task_pid e prev"
      "get_task_state e prev \<noteq> TASK_RUNNING"]
  have step: "rq_step L T H s1 (Switch e prev nxt) = switch_latency L T H e (switch_clock e prev) nxt ?s3"
    using sc(1) by (simp add: sched_switch_host [OF assms(3)] Let_def switch_clock_def)
  have nz: "task_pid e nxt \<noteq> 0" using assms(4,8) by simp
  show ?thesis
    unfolding step
    using switch_latency_nlat [OF assms(1,2,3) sc(4) l3 assms(5) nz assms(10), of "switch_clock e prev"]
    unfolding sc(2,3) eq b_def assms(8) by blast
qed


section \<open>Instances\<close>

text \<open>Two tasks, at 4096 and 16384, each with its state, group and pid.\<close>

definition sched_cells :: "u64 \<Rightarrow> u64 \<Rightarrow> u32 \<Rightarrow> u64 \<Rightarrow> u32 \<Rightarrow> (u64 \<times> byte list) list" where
  "sched_cells st tg1 pid1 tg2 pid2 =
     [(4096 + 16, enc 8 st), (4096 + 712, enc 8 tg1), (4096 + 2304, enc 4 pid1),
      (16384 + 712, enc 8 tg2), (16384 + 2304, enc 4 pid2)]"

definition sched_env :: "u64 \<Rightarrow> u64 \<Rightarrow> u32 \<Rightarrow> u64 \<Rightarrow> u32 \<Rightarrow> u64 \<Rightarrow> bpf_env" where
  "sched_env st tg1 pid1 tg2 pid2 now = kernel_env (sched_cells st tg1 pid1 tg2 pid2) 4096 0 now"

lemma sched_env_eval [simp]:
  "get_task_state (sched_env st tg1 pid1 tg2 pid2 now) 4096 = st"
  "task_group_key (sched_env st tg1 pid1 tg2 pid2 now) 4096 = tg1"
  "task_pid (sched_env st tg1 pid1 tg2 pid2 now) 4096 = pid1"
  "task_group_key (sched_env st tg1 pid1 tg2 pid2 now) 16384 = tg2"
  "task_pid (sched_env st tg1 pid1 tg2 pid2 now) 16384 = pid2"
  "ktime_get_ns (sched_env st tg1 pid1 tg2 pid2 now) i = now"
proof -
  have d8: "dec (enc 8 (x :: u64)) = x" and d4: "dec (enc 4 (y :: u32)) = y" for x y
    by (rule dec_enc; simp)+
  show "get_task_state (sched_env st tg1 pid1 tg2 pid2 now) 4096 = st"
    "task_group_key (sched_env st tg1 pid1 tg2 pid2 now) 4096 = tg1"
    "task_pid (sched_env st tg1 pid1 tg2 pid2 now) 4096 = pid1"
    "task_group_key (sched_env st tg1 pid1 tg2 pid2 now) 16384 = tg2"
    "task_pid (sched_env st tg1 pid1 tg2 pid2 now) 16384 = pid2"
    "ktime_get_ns (sched_env st tg1 pid1 tg2 pid2 now) i = now"
    by (simp_all add: sched_env_def sched_cells_def get_task_state_def task_group_key_def task_pid_def
        core_read_def core_addr_def read32_def read64_def cells_read_def d4 d8)
qed

definition rq_example :: "((u32, u64) alist, (u64, stat_t) alist, u32 \<Rightarrow> g_stat_t) rq_state" where
  "rq_example = \<lparr>latency = [], cpu_tg_metric = [], cpu_host_metric = \<lambda>_. g_new_stat\<rparr>"

lemmas rq_eval = rq_example_def sched_wakeup_entry_def sched_wakeup_new_entry_def trace_enqueue_def
  sched_switch_entry_def Let_def switch_enqueue_def switch_count_def switch_latency_def
  lookup_or_create_def modify_elem_def array_simps alist_update_def alist_put_def alist_delete_def
  delete_elem'_def alist_keys_def count_switch_def g_count_switch_def count_latency_def
  g_count_latency_def new_stat_def g_new_stat_def sched_process_exit_entry_def
  free_fair_sched_group_entry_def

abbreviation rq_run_example :: "rq_hook list \<Rightarrow> ((u32, u64) alist, (u64, stat_t) alist, u32 \<Rightarrow> g_stat_t) rq_state" where
  "rq_run_example \<equiv> foldl (rq_step (hash_ops 10000) (hash_ops 10000) (array_ops 1)) rq_example"

theorem host_counters_conserved_witness:
  "g_nvcsw (host_stat (array_ops 1) (rq_run_example
     [Switch (sched_env 1 70 7 80 8 100) 4096 16384, Switch (sched_env 1 80 8 70 7 200) 4096 16384,
      Free_group 70])) = 2"
proof -
  let ?hs = "[Switch (sched_env 1 70 7 80 8 100) 4096 16384, Switch (sched_env 1 80 8 70 7 200) 4096 16384,
      Free_group 70]"
  have h: "bpf_hash_map (hash_ops 10000 :: (u64, stat_t, _) map_ops) cpu_tg_metric_max_entries"
    "bpf_array_map (array_ops 1 :: (u32, g_stat_t, _) map_ops) cpu_host_metric_max_entries"
    "(nvcsw, g_nvcsw) \<in> set sched_fields"
    by (simp_all add: cpu_tg_metric_max_entries_def cpu_host_metric_max_entries_def sched_fields_def)
  have "g_nvcsw (host_stat (array_ops 1) (rq_run_example ?hs)) -
      g_nvcsw (host_stat (array_ops 1) rq_example) = 2"
    unfolding host_counters_conserved [OF h, of "hash_ops 10000" rq_example ?hs]
    by (simp add: rq_eval tg_total_def retired_def lookup_hash_ops)
  then show ?thesis by (simp add: host_stat_def rq_example_def g_new_stat_def array_simps)
qed

theorem run_queue_latency_counted_witness:
  "g_nlat (host_stat (array_ops 1) (rq_run_example
     [Wakeup (sched_env 0 0 0 0 0 1000) 8, Wakeup (sched_env 0 0 0 0 0 2000) 9,
      Switch (sched_env 0 70 7 80 8 15001000) 4096 16384])) = [0, 1, 0, 0]"
proof -
  let ?ew = "sched_env 0 0 0 0 0 1000" and ?e = "sched_env 0 70 7 80 8 15001000"
  let ?os = "[Wakeup (sched_env 0 0 0 0 0 2000) 9]"
  have h: "bpf_hash_map (hash_ops 10000 :: (u32, u64, _) map_ops) latency_max_entries"
    "bpf_hash_map (hash_ops 10000 :: (u64, stat_t, _) map_ops) cpu_tg_metric_max_entries"
    "bpf_array_map (array_ops 1 :: (u32, g_stat_t, _) map_ops) cpu_host_metric_max_entries"
    "(8 :: u32) \<noteq> 0" "ktime_get_ns ?ew 0 \<noteq> 0" "\<forall>h\<in>set ?os. not_about 8 h"
    "8 \<in> dom (lookup_elem (hash_ops 10000) (latency rq_example)) \<or>
       card (dom (lookup_elem (hash_ops 10000) (latency rq_example))) < latency_max_entries"
    "task_pid ?e 16384 = 8" "task_pid ?e 4096 \<noteq> 8" "task_group_key ?e 16384 \<noteq> 0"
    "card (dom (lookup_elem (hash_ops 10000) (cpu_tg_metric
       (rq_run_example (Wakeup ?ew 8 # ?os))))) + 1 < cpu_tg_metric_max_entries"
    by (simp_all add: latency_max_entries_def cpu_tg_metric_max_entries_def
        cpu_host_metric_max_entries_def not_about_def rq_eval lookup_hash_ops)
  have "g_nlat (host_stat (array_ops 1) (rq_run_example (Wakeup ?ew 8 # ?os))) = [0, 0, 0, 0]"
    by (simp add: rq_eval host_stat_def g_nlat_def)
  with run_queue_latency_counted [OF h] show ?thesis
    by (simp add: bump_def lat_range_def del: rq_step.simps)
qed

definition full_groups :: "(u64, stat_t) alist" where
  "full_groups = map (\<lambda>i. (of_nat i, new_stat)) [1..<10001]"

lemma dom_full_groups: "dom (map_of full_groups) = (of_nat :: nat \<Rightarrow> u64) ` {1..<10001}"
  by (simp add: full_groups_def dom_map_of_conv_image_fst image_image)

lemma inj_of_nat_u64: "inj_on (of_nat :: nat \<Rightarrow> u64) {1..<10001}"
proof (rule inj_onI)
  fix i j :: nat
  assume a: "i \<in> {1..<10001}" "j \<in> {1..<10001}" "(of_nat i :: u64) = of_nat j"
  have "unat (of_nat i :: u64) = i" "unat (of_nat j :: u64) = j"
    using a(1,2) by (simp_all add: unat_of_nat)
  with a(3) show "i = j" by metis
qed


end
