(* ===== verification/Func_Trace.thy ===== *)
theory Func_Trace
  imports Bpf_Runtime
begin

text \<open>
  \<^verbatim>\<open>bpf/include/bpf_func_trace.h\<close>: measuring the time between the entry and the exit of a
  kernel function, keyed by the running task. The locale \<open>func_tracer\<close> states what its
  clients rely on: the entries in flight behave as a bounded partial map from task to start
  time.
\<close>

record trace_entry_ctx =
  te_id :: u64
  te_start_ns :: u64
  te_delta_ns :: u64

definition func_trace_max_entries :: nat where
  "func_trace_max_entries = 10240"

definition func_trace_begain :: "(u64, trace_entry_ctx, 't) map_ops \<Rightarrow> 't \<Rightarrow> u64 \<Rightarrow> u64 \<Rightarrow> 't" where
  "func_trace_begain T t tid now =
     (let entry = \<lparr>te_id = tid, te_start_ns = now, te_delta_ns = 0\<rparr>
      in update_elem' T t tid entry COMPAT_BPF_ANY)"

definition func_trace_end ::
    "(u64, trace_entry_ctx, 't) map_ops \<Rightarrow> 't \<Rightarrow> u64 \<Rightarrow> u64 \<Rightarrow> 't \<times> trace_entry_ctx option" where
  "func_trace_end T t tid now =
     (case lookup_elem T t tid of
        None \<Rightarrow> (t, None)
      | Some entry \<Rightarrow>
          let entry' = entry\<lparr>te_delta_ns := now - te_start_ns entry\<rparr>
          in (store_elem T t tid entry', Some entry'))"

definition func_trace_destroy :: "(u64, trace_entry_ctx, 't) map_ops \<Rightarrow> 't \<Rightarrow> u64 \<Rightarrow> 't" where
  "func_trace_destroy T t tid = delete_elem' T t tid"

section \<open>Contract\<close>

text \<open>The start times of the sections in flight, and what starting one does to them.\<close>

type_synonym inflight = "u64 \<rightharpoonup> u64"

definition inflight_start :: "nat \<Rightarrow> inflight \<Rightarrow> u64 \<Rightarrow> u64 \<Rightarrow> inflight" where
  "inflight_start cap P tid now =
     (if tid \<in> dom P \<or> card (dom P) < cap then P(tid \<mapsto> now) else P)"

text \<open>
  The map holds exactly the sections in flight: every entry carries its own key and a delta
  that has not been computed yet.
\<close>

definition tracks :: "(u64, trace_entry_ctx, 't) map_ops \<Rightarrow> 't \<Rightarrow> inflight \<Rightarrow> bool" where
  "tracks T t P \<longleftrightarrow> (\<forall>tid. lookup_elem T t tid =
     map_option (\<lambda>st. \<lparr>te_id = tid, te_start_ns = st, te_delta_ns = 0\<rparr>) (P tid))"

text \<open>
  What a client sees: a section that ends yields the time since it began, whatever other
  tasks did in between, and is gone after \<open>destroy\<close>.
\<close>

locale func_tracer =
  fixes cap :: nat
    and begain :: "'t \<Rightarrow> u64 \<Rightarrow> u64 \<Rightarrow> 't"
    and finish :: "'t \<Rightarrow> u64 \<Rightarrow> u64 \<Rightarrow> 't \<times> trace_entry_ctx option"
    and destroy :: "'t \<Rightarrow> u64 \<Rightarrow> 't"
    and tracked :: "'t \<Rightarrow> inflight \<Rightarrow> bool"
  assumes begain_law: "tracked t P \<Longrightarrow> tracked (begain t tid now) (inflight_start cap P tid now)"
    and finish_none: "tracked t P \<Longrightarrow> P tid = None \<Longrightarrow> finish t tid now = (t, None)"
    and finish_some: "tracked t P \<Longrightarrow> P tid = Some st \<Longrightarrow>
      snd (finish t tid now) = Some \<lparr>te_id = tid, te_start_ns = st, te_delta_ns = now - st\<rparr>"
    and destroy_law: "tracked t P \<Longrightarrow> P tid = Some st \<Longrightarrow>
      tracked (destroy (fst (finish t tid now)) tid) (P(tid := None))"
begin

text \<open>Starting sections of other tasks leaves a task's own start time alone.\<close>

lemma inflight_foreign:
  "tid \<notin> fst ` set xs \<Longrightarrow> tracked t P \<Longrightarrow>
     \<exists>P'. tracked (fold (\<lambda>(i, now) t. begain t i now) xs t) P' \<and> P' tid = P tid"
proof (induction xs arbitrary: t P)
  case Nil
  then show ?case by auto
next
  case (Cons x xs)
  obtain tid' now where x: "x = (tid', now)" by (cases x)
  have "tracked (begain t tid' now) (inflight_start cap P tid' now)"
    using Cons.prems(2) by (rule begain_law)
  with Cons.IH [of "begain t tid' now"] Cons.prems(1) obtain P'
    where "tracked (fold (\<lambda>(i, now) t. begain t i now) xs (begain t tid' now)) P'"
      "P' tid = inflight_start cap P tid' now tid"
    by (auto simp: x)
  moreover have "inflight_start cap P tid' now tid = P tid"
    using Cons.prems(1) by (auto simp: inflight_start_def x)
  ultimately show ?case by (auto simp: x)
qed

lemma section_time:
  assumes "tracked t P" "tid \<in> dom P \<or> card (dom P) < cap" "tid \<notin> fst ` set xs"
  shows "snd (finish (fold (\<lambda>(i, now) t. begain t i now) xs (begain t tid t0)) tid t1) =
           Some \<lparr>te_id = tid, te_start_ns = t0, te_delta_ns = t1 - t0\<rparr>"
proof -
  have "tracked (begain t tid t0) (inflight_start cap P tid t0)"
    using assms(1) by (rule begain_law)
  moreover have "inflight_start cap P tid t0 tid = Some t0"
    using assms(2) by (simp add: inflight_start_def)
  ultimately obtain P' where
    "tracked (fold (\<lambda>(i, now) t. begain t i now) xs (begain t tid t0)) P'" "P' tid = Some t0"
    using inflight_foreign [OF assms(3)] by metis
  then show ?thesis by (rule finish_some)
qed

end

section \<open>The header implements the contract\<close>

lemma tracks_dom: "tracks T t P \<Longrightarrow> dom (lookup_elem T t) = dom P"
  by (auto simp: tracks_def dom_def)

lemma tracks_begain:
  assumes "bpf_hash_map T cap" "tracks T t P"
  shows "tracks T (func_trace_begain T t tid now) (inflight_start cap P tid now)"
proof -
  let ?e = "\<lparr>te_id = tid, te_start_ns = now, te_delta_ns = 0\<rparr>"
  note M = bpf_hash_map.axioms(1) [OF assms(1)]
  have ok: "(snd (update_elem T t tid ?e COMPAT_BPF_ANY) = 0) =
      (tid \<in> dom P \<or> card (dom P) < cap)"
  proof (cases "tid \<in> dom P")
    case True
    then have "lookup_elem T t tid \<noteq> None" using tracks_dom [OF assms(2)] by blast
    with True show ?thesis by (simp add: bpf_map.update_present [OF M])
  next
    case False
    then have "lookup_elem T t tid = None" using tracks_dom [OF assms(2)] by blast
    with False show ?thesis
      using bpf_hash_map.room [OF assms(1), of t COMPAT_BPF_ANY tid ?e]
        bpf_hash_map.full [OF assms(1), of t tid ?e COMPAT_BPF_ANY] tracks_dom [OF assms(2)]
      by (auto simp: not_less)
  qed
  show ?thesis
    using assms(2) ok
    by (auto simp: tracks_def func_trace_begain_def bpf_map.lookup_update [OF M]
        inflight_start_def)
qed

lemma func_trace_end_some:
  assumes "tracks T t P" "P tid = Some st"
  shows "func_trace_end T t tid now =
     (store_elem T t tid \<lparr>te_id = tid, te_start_ns = st, te_delta_ns = now - st\<rparr>,
      Some \<lparr>te_id = tid, te_start_ns = st, te_delta_ns = now - st\<rparr>)"
  using assms by (simp add: func_trace_end_def tracks_def Let_def)

lemma func_trace_end_none:
  "tracks T t P \<Longrightarrow> P tid = None \<Longrightarrow> func_trace_end T t tid now = (t, None)"
  by (simp add: func_trace_end_def tracks_def)

lemma tracks_destroy:
  assumes "bpf_hash_map T cap" "tracks T t P" "P tid = Some st"
  shows "tracks T (func_trace_destroy T (fst (func_trace_end T t tid now)) tid) (P(tid := None))"
proof -
  note M = bpf_hash_map.axioms(1) [OF assms(1)]
  have "lookup_elem T t tid \<noteq> None" using assms(2,3) by (simp add: tracks_def)
  then show ?thesis
    using assms(2)
    by (simp add: tracks_def func_trace_end_some [OF assms(2,3)] func_trace_destroy_def
        bpf_hash_map.delete_key [OF assms(1)] bpf_map.store_present [OF M])
qed

lemma func_tracer_hash:
  assumes "bpf_hash_map T cap"
  shows "func_tracer cap (func_trace_begain T) (func_trace_end T) (func_trace_destroy T) (tracks T)"
proof unfold_locales
  show "tracks T (func_trace_destroy T (fst (func_trace_end T t tid now)) tid) (P(tid := None))"
    if "tracks T t P" "P tid = Some st" for t P tid st now
    using assms that by (rule tracks_destroy)
qed (simp_all add: tracks_begain [OF assms] func_trace_end_none func_trace_end_some)

interpretation ft: func_tracer n "func_trace_begain (hash_ops n)" "func_trace_end (hash_ops n)"
    "func_trace_destroy (hash_ops n)" "tracks (hash_ops n)"
  by (rule func_tracer_hash) simp

text \<open>
  Timing a kernel function: between the entry of a task at \<open>t0\<close> and its exit at \<open>t1\<close> any
  number of other tasks may enter; the exit yields the task's own entry with
  \<open>delta_ns = t1 - t0\<close>, as long as the map had room for the task.
\<close>

theorem func_trace_section_time:
  assumes "bpf_hash_map T func_trace_max_entries" "tracks T t P"
    and "tid \<in> dom P \<or> card (dom P) < func_trace_max_entries" and "tid \<notin> fst ` set others"
  shows "snd (func_trace_end T
           (fold (\<lambda>(i, now) t. func_trace_begain T t i now) others (func_trace_begain T t tid t0))
           tid t1) =
         Some \<lparr>te_id = tid, te_start_ns = t0, te_delta_ns = t1 - t0\<rparr>"
  using func_tracer.section_time [OF func_tracer_hash [OF assms(1)] assms(2-4)] .

theorem func_trace_section_time_witness:
  "snd (func_trace_end (hash_ops 10240)
     (fold (\<lambda>(i, now) t. func_trace_begain (hash_ops 10240) t i now) [(8, 150)]
        (func_trace_begain (hash_ops 10240) [] 7 100)) 7 400) =
   Some \<lparr>te_id = 7, te_start_ns = 100, te_delta_ns = 300\<rparr>"
proof -
  have h: "bpf_hash_map (hash_ops 10240 :: (u64, trace_entry_ctx, _) map_ops) func_trace_max_entries"
    "tracks (hash_ops 10240) [] Map.empty"
    "(7::u64) \<in> dom (Map.empty :: inflight) \<or>
       card (dom (Map.empty :: inflight)) < func_trace_max_entries"
    "(7::u64) \<notin> fst ` set [(8::u64, 150::u64)]"
    by (simp_all add: func_trace_max_entries_def tracks_def)
  show ?thesis using func_trace_section_time [OF h, of 100 400] by simp
qed

end
