(* ===== verification/Memory.thy ===== *)
theory Memory
  imports Func_Trace Vmlinux_Env
begin

unbundle bit_operations_syntax

text \<open>
  The memory programs: \<^verbatim>\<open>bpf/memory_free_compact.c\<close> (host latency of direct reclaim and
  compaction), \<^verbatim>\<open>bpf/memory_reclaim.c\<close> (direct reclaims per memory control group) and
  \<^verbatim>\<open>bpf/memory_reclaim_events.c\<close> (long reclaims reported to user space). Each program is
  shown to implement a small abstract machine over all sequences of its hooks.
\<close>

section \<open>memory\_free\_compact.c\<close>

record mm_free_compact_entry =
  compaction_stat :: u64
  allocstall_stat :: u64

definition mm_free_compact_max_entries :: nat where
  "mm_free_compact_max_entries = 10240"

record ('t, 'f) mfc_state =
  mfc_trace :: 't
  mfc_metric :: 'f

type_synonym 't trace_ops = "(u64, trace_entry_ctx, 't) map_ops"
type_synonym 'f metric_ops = "(u32, mm_free_compact_entry, 'f) map_ops"

definition update_metric_map :: "'f metric_ops \<Rightarrow> 'f \<Rightarrow> u64 \<Rightarrow> u64 \<Rightarrow> 'f" where
  "update_metric_map F m free_delta_ns compact_delta_ns =
     (let key = 0 in
      case lookup_elem F m key of
        None \<Rightarrow>
          update_elem' F m key
            \<lparr>compaction_stat = compact_delta_ns, allocstall_stat = free_delta_ns\<rparr> COMPAT_BPF_ANY
      | Some valp \<Rightarrow>
          let v1 = (if free_delta_ns \<noteq> 0
                    then valp\<lparr>allocstall_stat := allocstall_stat valp + free_delta_ns\<rparr> else valp);
              v2 = (if compact_delta_ns \<noteq> 0
                    then v1\<lparr>compaction_stat := compaction_stat v1 + compact_delta_ns\<rparr> else v1)
          in store_elem F m key v2)"

definition func_trace_end_and_update_metric ::
    "'t trace_ops \<Rightarrow> 'f metric_ops \<Rightarrow> bpf_env \<Rightarrow> bool \<Rightarrow> ('t, 'f) mfc_state \<Rightarrow> ('t, 'f) mfc_state" where
  "func_trace_end_and_update_metric T F e free_pages s =
     (case func_trace_end T (mfc_trace s) (current_pid_tgid e) (ktime_get_ns e 0) of
        (t, None) \<Rightarrow> s\<lparr>mfc_trace := t\<rparr>
      | (t, Some entry) \<Rightarrow>
          let m = (if free_pages then update_metric_map F (mfc_metric s) (te_delta_ns entry) 0
                   else update_metric_map F (mfc_metric s) 0 (te_delta_ns entry))
          in s\<lparr>mfc_trace := func_trace_destroy T t (te_id entry), mfc_metric := m\<rparr>)"

definition tracepoint_try_to_free_pages_begin ::
    "'t trace_ops \<Rightarrow> bpf_env \<Rightarrow> ('t, 'f) mfc_state \<Rightarrow> ('t, 'f) mfc_state" where
  "tracepoint_try_to_free_pages_begin T e s =
     s\<lparr>mfc_trace := func_trace_begain T (mfc_trace s) (current_pid_tgid e) (ktime_get_ns e 0)\<rparr>"

definition tracepoint_try_to_free_pages_end ::
    "'t trace_ops \<Rightarrow> 'f metric_ops \<Rightarrow> bpf_env \<Rightarrow> ('t, 'f) mfc_state \<Rightarrow> ('t, 'f) mfc_state" where
  "tracepoint_try_to_free_pages_end T F e s = func_trace_end_and_update_metric T F e True s"

definition kprobe_try_to_compact_pages_host ::
    "'t trace_ops \<Rightarrow> bpf_env \<Rightarrow> ('t, 'f) mfc_state \<Rightarrow> ('t, 'f) mfc_state" where
  "kprobe_try_to_compact_pages_host T e s =
     s\<lparr>mfc_trace := func_trace_begain T (mfc_trace s) (current_pid_tgid e) (ktime_get_ns e 0)\<rparr>"

definition kretprobe_try_to_compact_pages_host ::
    "'t trace_ops \<Rightarrow> 'f metric_ops \<Rightarrow> bpf_env \<Rightarrow> ('t, 'f) mfc_state \<Rightarrow> ('t, 'f) mfc_state" where
  "kretprobe_try_to_compact_pages_host T F e s = func_trace_end_and_update_metric T F e False s"

text \<open>The hooks in the order the kernel fires them.\<close>

datatype mfc_hook = Reclaim_begin | Reclaim_end | Compact_begin | Compact_end

fun mfc_step :: "'t trace_ops \<Rightarrow> 'f metric_ops \<Rightarrow> ('t, 'f) mfc_state \<Rightarrow> mfc_hook \<times> bpf_env \<Rightarrow>
    ('t, 'f) mfc_state" where
  "mfc_step T F s (Reclaim_begin, e) = tracepoint_try_to_free_pages_begin T e s"
| "mfc_step T F s (Reclaim_end, e) = tracepoint_try_to_free_pages_end T F e s"
| "mfc_step T F s (Compact_begin, e) = kprobe_try_to_compact_pages_host T e s"
| "mfc_step T F s (Compact_end, e) = kretprobe_try_to_compact_pages_host T F e s"

text \<open>
  The abstract machine: who is inside a section since when, and the two totals.
\<close>

record mfc_spec =
  sp_inflight :: inflight
  sp_alloc :: u64
  sp_compact :: u64

fun mfc_spec_step :: "mfc_spec \<Rightarrow> mfc_hook \<times> bpf_env \<Rightarrow> mfc_spec" where
  "mfc_spec_step a (Reclaim_begin, e) =
     a\<lparr>sp_inflight := inflight_start func_trace_max_entries (sp_inflight a)
         (current_pid_tgid e) (ktime_get_ns e 0)\<rparr>"
| "mfc_spec_step a (Compact_begin, e) =
     a\<lparr>sp_inflight := inflight_start func_trace_max_entries (sp_inflight a)
         (current_pid_tgid e) (ktime_get_ns e 0)\<rparr>"
| "mfc_spec_step a (Reclaim_end, e) =
     (case sp_inflight a (current_pid_tgid e) of
        None \<Rightarrow> a
      | Some t0 \<Rightarrow> a\<lparr>sp_inflight := (sp_inflight a)(current_pid_tgid e := None),
                     sp_alloc := sp_alloc a + (ktime_get_ns e 0 - t0)\<rparr>)"
| "mfc_spec_step a (Compact_end, e) =
     (case sp_inflight a (current_pid_tgid e) of
        None \<Rightarrow> a
      | Some t0 \<Rightarrow> a\<lparr>sp_inflight := (sp_inflight a)(current_pid_tgid e := None),
                     sp_compact := sp_compact a + (ktime_get_ns e 0 - t0)\<rparr>)"

text \<open>The totals a reader of the metric map sees; a missing entry reads as zero.\<close>

definition metric_total :: "'f metric_ops \<Rightarrow> 'f \<Rightarrow> u64 \<times> u64" where
  "metric_total F m = (case lookup_elem F m 0 of
     None \<Rightarrow> (0, 0) | Some v \<Rightarrow> (allocstall_stat v, compaction_stat v))"

definition mfc_rel :: "'t trace_ops \<Rightarrow> 'f metric_ops \<Rightarrow> ('t, 'f) mfc_state \<Rightarrow> mfc_spec \<Rightarrow> bool" where
  "mfc_rel T F s a \<longleftrightarrow> tracks T (mfc_trace s) (sp_inflight a) \<and>
     dom (lookup_elem F (mfc_metric s)) \<subseteq> {0} \<and>
     metric_total F (mfc_metric s) = (sp_alloc a, sp_compact a)"

lemma update_metric_map_rel:
  assumes "bpf_hash_map F mm_free_compact_max_entries" "dom (lookup_elem F m) \<subseteq> {0}"
  shows "dom (lookup_elem F (update_metric_map F m x y)) \<subseteq> {0} \<and>
         metric_total F (update_metric_map F m x y) =
           (fst (metric_total F m) + x, snd (metric_total F m) + y)"
proof (cases "lookup_elem F m 0")
  case None
  then have "dom (lookup_elem F m) = {}" using assms(2) by auto
  then have "card (dom (lookup_elem F m)) < mm_free_compact_max_entries"
    by (simp add: mm_free_compact_max_entries_def)
  from bpf_hash_map.update_any_ok [OF assms(1) this] None assms(2) show ?thesis
    by (simp add: update_metric_map_def metric_total_def)
next
  case (Some v)
  then have "lookup_elem F m 0 \<noteq> None" by simp
  from bpf_map.store_present [OF bpf_hash_map.axioms(1) [OF assms(1)] this] Some assms(2)
  show ?thesis by (auto simp: update_metric_map_def metric_total_def Let_def)
qed

lemma mfc_end_rel:
  assumes "bpf_hash_map T func_trace_max_entries" "bpf_hash_map F mm_free_compact_max_entries"
    and "mfc_rel T F s a"
  shows "mfc_rel T F (mfc_step T F s (Reclaim_end, e)) (mfc_spec_step a (Reclaim_end, e))"
    and "mfc_rel T F (mfc_step T F s (Compact_end, e)) (mfc_spec_step a (Compact_end, e))"
proof -
  have t: "tracks T (mfc_trace s) (sp_inflight a)" using assms(3) by (simp add: mfc_rel_def)
  let ?i = "current_pid_tgid e" and ?n = "ktime_get_ns e 0"
  note defs = tracepoint_try_to_free_pages_end_def kretprobe_try_to_compact_pages_host_def
    func_trace_end_and_update_metric_def
  show "mfc_rel T F (mfc_step T F s (Reclaim_end, e)) (mfc_spec_step a (Reclaim_end, e))"
    and "mfc_rel T F (mfc_step T F s (Compact_end, e)) (mfc_spec_step a (Compact_end, e))"
  proof (atomize (full), cases "sp_inflight a ?i")
    case None
    then show "mfc_rel T F (mfc_step T F s (Reclaim_end, e)) (mfc_spec_step a (Reclaim_end, e)) \<and>
      mfc_rel T F (mfc_step T F s (Compact_end, e)) (mfc_spec_step a (Compact_end, e))"
      using assms(3) by (simp add: defs func_trace_end_none [OF t None])
  next
    case (Some st)
    from tracks_destroy [OF assms(1) t Some, of ?n] assms(3)
      update_metric_map_rel [OF assms(2), of "mfc_metric s"]
    show "mfc_rel T F (mfc_step T F s (Reclaim_end, e)) (mfc_spec_step a (Reclaim_end, e)) \<and>
      mfc_rel T F (mfc_step T F s (Compact_end, e)) (mfc_spec_step a (Compact_end, e))"
      by (simp add: defs func_trace_end_some [OF t Some] Some mfc_rel_def Let_def)
  qed
qed

lemma mfc_step_rel:
  assumes "bpf_hash_map T func_trace_max_entries" "bpf_hash_map F mm_free_compact_max_entries"
    and "mfc_rel T F s a"
  shows "mfc_rel T F (mfc_step T F s h) (mfc_spec_step a h)"
proof -
  obtain k e where h: "h = (k, e)" by (cases h)
  show ?thesis
    using assms tracks_begain [OF assms(1)] mfc_end_rel [OF assms, of e]
    unfolding h
    by (cases k) (auto simp: mfc_rel_def tracepoint_try_to_free_pages_begin_def
        kprobe_try_to_compact_pages_host_def)
qed

lemma mfc_run_rel:
  assumes "bpf_hash_map T func_trace_max_entries" "bpf_hash_map F mm_free_compact_max_entries"
  shows "mfc_rel T F s a \<Longrightarrow>
     mfc_rel T F (foldl (mfc_step T F) s hs) (foldl mfc_spec_step a hs)"
  by (induction hs arbitrary: s a) (simp_all add: mfc_step_rel [OF assms])

text \<open>
  C10. Host metrics of direct reclaim and compaction: from empty maps and for every sequence
  of hooks of any tasks, the two totals a reader finds in \<open>mm_free_compact_map\<close> are those of
  the abstract machine, which adds \<open>end - begin\<close> of every section that ends.
\<close>

theorem mfc_refines:
  assumes "bpf_hash_map T func_trace_max_entries" "bpf_hash_map F mm_free_compact_max_entries"
    and "lookup_elem T t0 = Map.empty" "lookup_elem F m0 = Map.empty"
  shows "metric_total F (mfc_metric
             (foldl (mfc_step T F) \<lparr>mfc_trace = t0, mfc_metric = m0\<rparr> hs)) =
           (let a = foldl mfc_spec_step \<lparr>sp_inflight = Map.empty, sp_alloc = 0, sp_compact = 0\<rparr> hs
            in (sp_alloc a, sp_compact a))"
proof -
  have "mfc_rel T F \<lparr>mfc_trace = t0, mfc_metric = m0\<rparr>
      \<lparr>sp_inflight = Map.empty, sp_alloc = 0, sp_compact = 0\<rparr>"
    using assms(3,4) by (simp add: mfc_rel_def tracks_def metric_total_def)
  from mfc_run_rel [OF assms(1,2) this, of hs] show ?thesis
    by (simp add: mfc_rel_def Let_def)
qed

theorem mfc_refines_witness:
  "metric_total (hash_ops 10240) (mfc_metric (foldl (mfc_step (hash_ops 10240) (hash_ops 10240))
     \<lparr>mfc_trace = [], mfc_metric = []\<rparr>
     [(Reclaim_begin, kernel_env [] 0 7 100), (Compact_begin, kernel_env [] 0 8 120),
      (Reclaim_end, kernel_env [] 0 7 150), (Compact_end, kernel_env [] 0 8 200)])) = (50, 80)"
proof -
  have h: "bpf_hash_map (hash_ops 10240 :: (u64, trace_entry_ctx, _) map_ops) func_trace_max_entries"
    "bpf_hash_map (hash_ops 10240 :: (u32, mm_free_compact_entry, _) map_ops)
       mm_free_compact_max_entries"
    "lookup_elem (hash_ops 10240 :: (u64, trace_entry_ctx, _) map_ops) [] = Map.empty"
    "lookup_elem (hash_ops 10240 :: (u32, mm_free_compact_entry, _) map_ops) [] = Map.empty"
    by (simp_all add: func_trace_max_entries_def mm_free_compact_max_entries_def lookup_hash_ops)
  show ?thesis
    unfolding mfc_refines [OF h]
    by (simp add: Let_def inflight_start_def func_trace_max_entries_def)
qed

section \<open>memory\_reclaim.c\<close>

definition PF_KSWAPD :: u32 where "PF_KSWAPD = 0x00020000"

record mem_cgroup_metric =
  directstall_count :: u64

definition mem_cgroup_max_entries :: nat where
  "mem_cgroup_max_entries = 10240"

type_synonym 'm memcg_ops = "(u64, mem_cgroup_metric, 'm) map_ops"

definition is_kswapd :: "bpf_env \<Rightarrow> bool" where
  "is_kswapd e \<longleftrightarrow> read32 e (current_task e) ''task_struct'' [''flags''] AND PF_KSWAPD \<noteq> 0"

definition tracepoint_vmscan_mm_vmscan_memcg_reclaim_begin ::
    "'m memcg_ops \<Rightarrow> bpf_env \<Rightarrow> 'm \<Rightarrow> 'm" where
  "tracepoint_vmscan_mm_vmscan_memcg_reclaim_begin M e m =
     (let task = current_task e in
      if is_kswapd e then m
      else let mm_subsys = task_css e task memory_cgrp_id in
        case lookup_elem M m mm_subsys of
          None \<Rightarrow> update_elem' M m mm_subsys \<lparr>directstall_count = 1\<rparr> COMPAT_BPF_ANY
        | Some valp \<Rightarrow>
            store_elem M m mm_subsys (valp\<lparr>directstall_count := directstall_count valp + 1\<rparr>))"

text \<open>The argument is \<open>PT_REGS_PARM1(ctx)\<close>.\<close>

definition kprobe_mem_cgroup_css_released :: "'m memcg_ops \<Rightarrow> u64 \<Rightarrow> 'm \<Rightarrow> 'm" where
  "kprobe_mem_cgroup_css_released M css m = delete_elem' M m css"

datatype memcg_hook = Memcg_reclaim bpf_env | Css_released u64

fun memcg_step :: "'m memcg_ops \<Rightarrow> 'm \<Rightarrow> memcg_hook \<Rightarrow> 'm" where
  "memcg_step M m (Memcg_reclaim e) = tracepoint_vmscan_mm_vmscan_memcg_reclaim_begin M e m"
| "memcg_step M m (Css_released css) = kprobe_mem_cgroup_css_released M css m"

text \<open>Direct reclaims charged to a group since its last release, \<open>n\<close> before the sequence.\<close>

definition memcg_of :: "bpf_env \<Rightarrow> u64" where
  "memcg_of e = task_css e (current_task e) memory_cgrp_id"

fun stalls :: "u64 \<Rightarrow> nat \<Rightarrow> memcg_hook list \<Rightarrow> nat" where
  "stalls css n [] = n"
| "stalls css n (Memcg_reclaim e # hs) =
     stalls css (if \<not> is_kswapd e \<and> memcg_of e = css then Suc n else n) hs"
| "stalls css n (Css_released c # hs) = stalls css (if c = css then 0 else n) hs"

fun memcg_keys :: "memcg_hook list \<Rightarrow> u64 set" where
  "memcg_keys [] = {}"
| "memcg_keys (Memcg_reclaim e # hs) = insert (memcg_of e) (memcg_keys hs)"
| "memcg_keys (Css_released c # hs) = memcg_keys hs"

text \<open>The map counts as \<open>N\<close> does.\<close>

definition counts_as :: "'m memcg_ops \<Rightarrow> 'm \<Rightarrow> (u64 \<Rightarrow> nat) \<Rightarrow> bool" where
  "counts_as M m N \<longleftrightarrow> (\<forall>css. lookup_elem M m css =
     (if N css = 0 then None else Some \<lparr>directstall_count = of_nat (N css)\<rparr>))"

lemma counts_as_dom: "counts_as M m N \<Longrightarrow> dom (lookup_elem M m) = {css. N css \<noteq> 0}"
  by (auto simp: counts_as_def dom_def)

lemma memcg_reclaim_lookup:
  assumes M: "bpf_hash_map M mem_cgroup_max_entries" and "\<not> is_kswapd e"
    and "lookup_elem M m (memcg_of e) = None \<Longrightarrow> card (dom (lookup_elem M m)) < mem_cgroup_max_entries"
  shows "lookup_elem M (tracepoint_vmscan_mm_vmscan_memcg_reclaim_begin M e m) =
     (lookup_elem M m)(memcg_of e \<mapsto> \<lparr>directstall_count =
        (case lookup_elem M m (memcg_of e) of None \<Rightarrow> 1 | Some v \<Rightarrow> directstall_count v + 1)\<rparr>)"
proof (cases "lookup_elem M m (memcg_of e)")
  case None
  from bpf_hash_map.update_any_ok [OF M assms(3) [OF None]] None assms(2) show ?thesis
    by (simp add: tracepoint_vmscan_mm_vmscan_memcg_reclaim_begin_def memcg_of_def)
next
  case (Some v)
  then have "lookup_elem M m (memcg_of e) \<noteq> None" by simp
  from bpf_map.store_present [OF bpf_hash_map.axioms(1) [OF M] this] Some assms(2) show ?thesis
    by (cases v) (simp add: tracepoint_vmscan_mm_vmscan_memcg_reclaim_begin_def memcg_of_def)
qed

lemma counts_as_reclaim:
  assumes M: "bpf_hash_map M mem_cgroup_max_entries" and N: "counts_as M m N"
    and K: "{css. N css \<noteq> 0} \<subseteq> K" "memcg_of e \<in> K" "card K \<le> mem_cgroup_max_entries"
  shows "counts_as M (tracepoint_vmscan_mm_vmscan_memcg_reclaim_begin M e m)
     (\<lambda>css. if \<not> is_kswapd e \<and> memcg_of e = css then Suc (N css) else N css)"
proof (cases "is_kswapd e")
  case True
  then show ?thesis
    using N by (simp add: tracepoint_vmscan_mm_vmscan_memcg_reclaim_begin_def)
next
  case False
  let ?c = "memcg_of e"
  have "card (dom (lookup_elem M m)) < mem_cgroup_max_entries" if "lookup_elem M m ?c = None"
  proof -
    from that N have "{css. N css \<noteq> 0} \<subset> K"
      using K(1,2) by (auto simp: counts_as_def split: if_splits)
    then have "card {css. N css \<noteq> 0} < card K" by (intro psubset_card_mono) simp_all
    with K(3) show ?thesis by (simp add: counts_as_dom [OF N])
  qed
  from memcg_reclaim_lookup [OF M False this] N False show ?thesis
    by (simp add: counts_as_def add.commute)
qed

lemma counts_as_released:
  assumes "bpf_hash_map M mem_cgroup_max_entries" "counts_as M m N"
  shows "counts_as M (kprobe_mem_cgroup_css_released M c m) (\<lambda>css. if c = css then 0 else N css)"
  using assms
  by (auto simp: kprobe_mem_cgroup_css_released_def counts_as_def
      bpf_hash_map.delete_key [OF assms(1)])

lemma memcg_run_counts:
  assumes "bpf_hash_map M mem_cgroup_max_entries"
  shows "counts_as M m N \<Longrightarrow> {css. N css \<noteq> 0} \<subseteq> K \<Longrightarrow> memcg_keys hs \<subseteq> K \<Longrightarrow>
     card K \<le> mem_cgroup_max_entries \<Longrightarrow>
     counts_as M (foldl (memcg_step M) m hs) (\<lambda>css. stalls css (N css) hs)"
proof (induction hs arbitrary: m N)
  case Nil
  then show ?case by simp
next
  case (Cons h hs)
  show ?case
  proof (cases h)
    case (Memcg_reclaim e)
    let ?N = "\<lambda>css. if \<not> is_kswapd e \<and> memcg_of e = css then Suc (N css) else N css"
    have "counts_as M (memcg_step M m h) ?N"
      using Cons.prems counts_as_reclaim [OF assms Cons.prems(1,2), of e] Memcg_reclaim by simp
    moreover have "{css. ?N css \<noteq> 0} \<subseteq> K"
      using Cons.prems(2,3) Memcg_reclaim by auto
    ultimately show ?thesis
      using Cons.IH [of "memcg_step M m h" ?N] Cons.prems Memcg_reclaim by simp
  next
    case (Css_released c)
    let ?N = "\<lambda>css. if c = css then 0 else N css"
    have "counts_as M (memcg_step M m h) ?N"
      using Cons.prems(1) Css_released by (simp add: counts_as_released [OF assms])
    moreover have "{css. ?N css \<noteq> 0} \<subseteq> K" using Cons.prems(2) by auto
    ultimately show ?thesis
      using Cons.IH [of "memcg_step M m h" ?N] Cons.prems Css_released by simp
  qed
qed

text \<open>
  C11. Direct reclaims per memory control group: for every sequence of reclaims and releases
  that names at most 10240 groups, the map entry of a group is the number of reclaims begun
  by its tasks other than kswapd since the group was last released (modulo \<open>2 ^ 64\<close>), and
  there is no entry when that number is zero.
\<close>

theorem memcg_counts:
  assumes "bpf_hash_map M mem_cgroup_max_entries" "lookup_elem M m0 = Map.empty"
    and "card (memcg_keys hs) \<le> mem_cgroup_max_entries"
  shows "lookup_elem M (foldl (memcg_step M) m0 hs) css =
     (if stalls css 0 hs = 0 then None
      else Some \<lparr>directstall_count = of_nat (stalls css 0 hs)\<rparr>)"
proof -
  have "counts_as M m0 (\<lambda>_. 0)" using assms(2) by (simp add: counts_as_def)
  from memcg_run_counts [OF assms(1) this, of "memcg_keys hs" hs] assms(3) show ?thesis
    by (simp add: counts_as_def)
qed

text \<open>A task at 4096 whose \<open>cgroups\<close> is at 8192, with the memory subsystem state 77.\<close>

definition task_cells :: "u32 \<Rightarrow> u64 \<Rightarrow> (u64 \<times> byte list) list" where
  "task_cells flags memcg =
     [(4096 + 36, enc 4 flags), (4096 + 3336, enc 8 (8192 :: u64)), (8192 + 32, enc 8 memcg)]"

lemma task_cells_eval:
  "is_kswapd (kernel_env (task_cells flags memcg) 4096 pid now) = (flags AND PF_KSWAPD \<noteq> 0)"
  "memcg_of (kernel_env (task_cells flags memcg) 4096 pid now) = memcg"
proof -
  have "dec (enc 4 flags) = flags" "dec (enc 8 (8192 :: u64)) = (8192 :: u64)"
    "dec (enc 8 memcg) = memcg"
    by (rule dec_enc; simp)+
  then show "is_kswapd (kernel_env (task_cells flags memcg) 4096 pid now) = (flags AND PF_KSWAPD \<noteq> 0)"
    and "memcg_of (kernel_env (task_cells flags memcg) 4096 pid now) = memcg"
    by (simp_all add: is_kswapd_def memcg_of_def task_css_def memory_cgrp_id_def task_cells_def
        core_read_def core_addr_def read32_def read64_def read64_at_def cells_read_def)
qed

theorem memcg_counts_witness:
  "lookup_elem (hash_ops 10240) (foldl (memcg_step (hash_ops 10240)) []
     [Memcg_reclaim (kernel_env (task_cells 0 77) 4096 1 5),
      Memcg_reclaim (kernel_env (task_cells PF_KSWAPD 77) 4096 2 6),
      Memcg_reclaim (kernel_env (task_cells 0 77) 4096 1 7)]) 77 =
   Some \<lparr>directstall_count = 2\<rparr>"
proof -
  let ?M = "hash_ops 10240 :: (u64, mem_cgroup_metric, _) map_ops"
  let ?hs = "[Memcg_reclaim (kernel_env (task_cells 0 77) 4096 1 5),
      Memcg_reclaim (kernel_env (task_cells PF_KSWAPD 77) 4096 2 6),
      Memcg_reclaim (kernel_env (task_cells 0 77) 4096 1 7)]"
  have h: "bpf_hash_map ?M mem_cgroup_max_entries" "lookup_elem ?M [] = Map.empty"
    "card (memcg_keys ?hs) \<le> mem_cgroup_max_entries"
    by (simp_all add: mem_cgroup_max_entries_def lookup_hash_ops task_cells_eval)
  show ?thesis using memcg_counts [OF h, of 77]
    by (simp add: task_cells_eval PF_KSWAPD_def del: hash_ops_sel)
qed

section \<open>memory\_reclaim\_events.c\<close>

record reclaim_entry =
  re_comm :: "byte list"
  re_delta_time :: u64
  re_css :: u64
  re_pid :: u64

record 't reclaim_state =
  rc_trace :: 't
  rc_out :: "reclaim_entry list"

definition kprobe_try_to_free_pages ::
    "'t trace_ops \<Rightarrow> bpf_env \<Rightarrow> 't reclaim_state \<Rightarrow> 't reclaim_state" where
  "kprobe_try_to_free_pages T e s =
     s\<lparr>rc_trace := func_trace_begain T (rc_trace s) (current_pid_tgid e) (ktime_get_ns e 0)\<rparr>"

text \<open>\<open>deltath\<close> is the constant of the same name that the loader sets.\<close>

definition kretprobe_try_to_free_pages ::
    "'t trace_ops \<Rightarrow> u64 \<Rightarrow> bpf_env \<Rightarrow> 't reclaim_state \<Rightarrow> 't reclaim_state" where
  "kretprobe_try_to_free_pages T deltath e s =
     (case func_trace_end T (rc_trace s) (current_pid_tgid e) (ktime_get_ns e 0) of
        (t, None) \<Rightarrow> s\<lparr>rc_trace := t\<rparr>
      | (t, Some entry) \<Rightarrow>
          let out = (if te_delta_ns entry > deltath
                     then [\<lparr>re_comm = current_comm e, re_delta_time = te_delta_ns entry,
                            re_css = task_css e (current_task e) cpu_cgrp_id,
                            re_pid = te_id entry\<rparr>]
                     else [])
          in s\<lparr>rc_trace := func_trace_destroy T t (te_id entry), rc_out := rc_out s @ out\<rparr>)"

datatype reclaim_hook = Free_enter bpf_env | Free_exit bpf_env

fun reclaim_step :: "'t trace_ops \<Rightarrow> u64 \<Rightarrow> 't reclaim_state \<Rightarrow> reclaim_hook \<Rightarrow> 't reclaim_state" where
  "reclaim_step T d s (Free_enter e) = kprobe_try_to_free_pages T e s"
| "reclaim_step T d s (Free_exit e) = kretprobe_try_to_free_pages T d e s"

text \<open>
  The abstract machine reports the calls of \<open>try_to_free_pages\<close> that lasted longer than the
  threshold, in the order in which they return.
\<close>

fun reclaim_spec :: "u64 \<Rightarrow> inflight \<Rightarrow> reclaim_hook list \<Rightarrow> reclaim_entry list" where
  "reclaim_spec d P [] = []"
| "reclaim_spec d P (Free_enter e # hs) =
     reclaim_spec d (inflight_start func_trace_max_entries P (current_pid_tgid e) (ktime_get_ns e 0)) hs"
| "reclaim_spec d P (Free_exit e # hs) =
     (case P (current_pid_tgid e) of
        None \<Rightarrow> reclaim_spec d P hs
      | Some t0 \<Rightarrow>
          (if ktime_get_ns e 0 - t0 > d
           then [\<lparr>re_comm = current_comm e, re_delta_time = ktime_get_ns e 0 - t0,
                  re_css = task_css e (current_task e) cpu_cgrp_id,
                  re_pid = current_pid_tgid e\<rparr>]
           else []) @ reclaim_spec d (P(current_pid_tgid e := None)) hs)"

lemma reclaim_run:
  assumes "bpf_hash_map T func_trace_max_entries"
  shows "tracks T (rc_trace s) P \<Longrightarrow>
     rc_out (foldl (reclaim_step T d) s hs) = rc_out s @ reclaim_spec d P hs"
proof (induction hs arbitrary: s P)
  case Nil
  then show ?case by simp
next
  case (Cons h hs)
  show ?case
  proof (cases h)
    case (Free_enter e)
    have "tracks T (rc_trace (kprobe_try_to_free_pages T e s))
        (inflight_start func_trace_max_entries P (current_pid_tgid e) (ktime_get_ns e 0))"
      by (simp add: kprobe_try_to_free_pages_def tracks_begain [OF assms Cons.prems])
    from Cons.IH [OF this] show ?thesis using Free_enter
      by (simp add: kprobe_try_to_free_pages_def)
  next
    case (Free_exit e)
    show ?thesis
    proof (cases "P (current_pid_tgid e)")
      case None
      with Cons Free_exit show ?thesis
        by (simp add: kretprobe_try_to_free_pages_def func_trace_end_none)
    next
      case (Some t0)
      from tracks_destroy [OF assms Cons.prems Some, of "ktime_get_ns e 0"] Cons.IH
      show ?thesis
        by (simp add: Free_exit Some kretprobe_try_to_free_pages_def Let_def
            func_trace_end_some [OF Cons.prems Some] fun_upd_def)
    qed
  qed
qed

text \<open>
  C13. Long reclaims: for every sequence of entries and returns of \<open>try_to_free_pages\<close>, the
  events sent to user space are exactly the calls, in order of return, whose duration
  exceeds \<open>deltath\<close>, with their duration and the task that made them.
\<close>

theorem reclaim_events_refine:
  assumes "bpf_hash_map T func_trace_max_entries" "lookup_elem T t0 = Map.empty"
  shows "rc_out (foldl (reclaim_step T deltath) \<lparr>rc_trace = t0, rc_out = []\<rparr> hs) =
           reclaim_spec deltath Map.empty hs"
proof -
  have "tracks T (rc_trace \<lparr>rc_trace = t0, rc_out = []\<rparr>) Map.empty"
    using assms(2) by (simp add: tracks_def)
  from reclaim_run [OF assms(1) this] show ?thesis by simp
qed

theorem reclaim_events_refine_witness:
  "map re_delta_time (rc_out (foldl (reclaim_step (hash_ops 10240) 100) \<lparr>rc_trace = [], rc_out = []\<rparr>
     [Free_enter (kernel_env [] 0 7 1000), Free_enter (kernel_env [] 0 8 1000),
      Free_exit (kernel_env [] 0 7 1100), Free_exit (kernel_env [] 0 8 1101)])) = [101]"
proof -
  have h: "bpf_hash_map (hash_ops 10240 :: (u64, trace_entry_ctx, _) map_ops) func_trace_max_entries"
    "lookup_elem (hash_ops 10240 :: (u64, trace_entry_ctx, _) map_ops) [] = Map.empty"
    by (simp_all add: func_trace_max_entries_def lookup_hash_ops)
  show ?thesis
    unfolding reclaim_events_refine [OF h]
    by (simp add: inflight_start_def func_trace_max_entries_def)
qed

end
