(* ===== verification/Counter_Smp.thy ===== *)
theory Counter_Smp
  imports Perf Runqlat Memory
begin

text \<open>
  Counters that several CPUs update at once. The programs are not atomic: each CPU looks the
  entry of a key up, creates it if it is missing, and adds to it, and other CPUs run in
  between; each of these accesses is one step. \<^verbatim>\<open>bpf/runqlat_tracing.c\<close> creates the entry with
  zero only if there is none and adds afterwards; \<^verbatim>\<open>bpf/perf.c\<close> and \<^verbatim>\<open>bpf/memory_reclaim.c\<close>
  overwrite it with one. The first idiom never loses a count; the second one can.
\<close>

section \<open>Steps\<close>

text \<open>Where a CPU is in the update of a counter.\<close>

datatype count_pc = At_lookup | At_create | At_relookup | At_add | At_done

text \<open>
  One access to the entry, \<open>None\<close> while the map has none: \<open>overwrite\<close> is the idiom of
  \<^verbatim>\<open>perf.c\<close>, \<open>no_overwrite\<close> that of \<^verbatim>\<open>runqlat_tracing.c\<close> in a map that has room.
\<close>

fun overwrite :: "count_pc \<Rightarrow> u64 option \<Rightarrow> count_pc \<times> u64 option" where
  "overwrite At_lookup None = (At_create, None)"
| "overwrite At_lookup (Some v) = (At_add, Some v)"
| "overwrite At_create slot = (At_done, Some 1)"
| "overwrite At_add None = (At_done, None)"
| "overwrite At_add (Some v) = (At_done, Some (v + 1))"
| "overwrite pc slot = (At_done, slot)"

fun no_overwrite :: "count_pc \<Rightarrow> u64 option \<Rightarrow> count_pc \<times> u64 option" where
  "no_overwrite At_lookup None = (At_create, None)"
| "no_overwrite At_lookup (Some v) = (At_add, Some v)"
| "no_overwrite At_create None = (At_relookup, Some 0)"
| "no_overwrite At_create (Some v) = (At_relookup, Some v)"
| "no_overwrite At_relookup None = (At_done, None)"
| "no_overwrite At_relookup (Some v) = (At_add, Some v)"
| "no_overwrite At_add None = (At_done, None)"
| "no_overwrite At_add (Some v) = (At_done, Some (v + 1))"
| "no_overwrite At_done slot = (At_done, slot)"

type_synonym count_smp = "u64 option \<times> count_pc list"

inductive count_reach ::
    "(count_pc \<Rightarrow> u64 option \<Rightarrow> count_pc \<times> u64 option) \<Rightarrow> nat \<Rightarrow> count_smp \<Rightarrow> bool"
  for access :: "count_pc \<Rightarrow> u64 option \<Rightarrow> count_pc \<times> u64 option" and n :: nat where
  start: "count_reach access n (None, replicate n At_lookup)"
| step: "count_reach access n (slot, pcs) \<Longrightarrow> i < length pcs \<Longrightarrow> pcs ! i \<noteq> At_done \<Longrightarrow>
     access (pcs ! i) slot = (pc, slot') \<Longrightarrow> count_reach access n (slot', pcs[i := pc])"

definition finished :: "count_pc list \<Rightarrow> nat" where
  "finished pcs = count_list pcs At_done"

text \<open>A CPU that runs alone: at most four accesses.\<close>

definition alone :: "(count_pc \<Rightarrow> u64 option \<Rightarrow> count_pc \<times> u64 option) \<Rightarrow> u64 option \<Rightarrow> count_pc \<times> u64 option" where
  "alone access slot = ((\<lambda>(pc, s). access pc s) ^^ 4) (At_lookup, slot)"

section \<open>The steps are those of the programs\<close>

text \<open>
  The accesses, made by one CPU without interruption, do to the entry of a key what the
  programs do to it: the profiler's and the reclaim counter's update overwrites, and the two
  updates of the scheduler statistics create and modify.
\<close>

theorem accesses_of_programs:
  assumes "bpf_hash_map M cap" "k \<in> dom (lookup_elem M m) \<or> card (dom (lookup_elem M m)) < cap"
    and "bpf_hash_map T cap" "g \<in> dom (lookup_elem T t) \<or> card (dom (lookup_elem T t)) < cap"
  shows "alone overwrite (lookup_elem M m k) = (At_done, lookup_elem M (count_elem M m k) k) \<and>
    alone no_overwrite (map_option nvcsw (lookup_elem T t g)) =
      (At_done, map_option nvcsw (lookup_elem T
         (modify_elem T (fst (lookup_or_create T t g new_stat)) g (count_switch True)) g))"
proof -
  have p: "(f ^^ 4) x = f (f (f (f x)))" for f :: "count_pc \<times> u64 option \<Rightarrow> count_pc \<times> u64 option" and x
    by (simp add: numeral_eq_Suc)
  have c: "snd (lookup_or_create T t g new_stat)"
    using assms(4) by (simp add: bpf_hash_map.created_iff [OF assms(3)])
  have "alone overwrite (lookup_elem M m k) = (At_done, lookup_elem M (count_elem M m k) k)"
    unfolding count_elem_lookup [OF assms(1,2)]
    by (cases "lookup_elem M m k") (simp_all add: alone_def p)
  moreover have "alone no_overwrite (map_option nvcsw (lookup_elem T t g)) =
      (At_done, map_option nvcsw (lookup_elem T
         (modify_elem T (fst (lookup_or_create T t g new_stat)) g (count_switch True)) g))"
    unfolding bpf_map.modify_created [OF bpf_hash_map.axioms(1) [OF assms(3)] c]
    by (cases "lookup_elem T t g") (simp_all add: alone_def p count_switch_def new_stat_def)
  ultimately show ?thesis by blast
qed

section \<open>Creating without overwriting is exact\<close>

text \<open>While there is no entry nobody has got past creating it; afterwards it counts the CPUs that are done.\<close>

definition exact :: "count_smp \<Rightarrow> bool" where
  "exact = (\<lambda>(slot, pcs). case slot of
     None \<Rightarrow> set pcs \<subseteq> {At_lookup, At_create}
   | Some v \<Rightarrow> v = of_nat (finished pcs))"

lemma finished_update:
  assumes "i < length pcs" "pcs ! i \<noteq> At_done"
  shows "finished (pcs[i := pc]) = finished pcs + (if pc = At_done then 1 else 0)"
proof -
  have app: "finished (xs @ x # ys) = finished xs + (if x = At_done then 1 else 0) + finished ys" for xs x ys
    by (simp add: finished_def)
  have "finished pcs = finished (take i pcs @ pcs ! i # drop (Suc i) pcs)"
    using id_take_nth_drop [OF assms(1)] by (rule arg_cong)
  moreover have "pcs[i := pc] = take i pcs @ pc # drop (Suc i) pcs" using assms(1) by (rule upd_conv_take_nth_drop)
  ultimately show ?thesis using assms(2) by (simp only: app) simp
qed

lemma finished_none: "set pcs \<subseteq> {At_lookup, At_create} \<Longrightarrow> finished pcs = 0"
  by (auto simp: finished_def count_list_0_iff)

lemma exact_reach: "count_reach no_overwrite n s \<Longrightarrow> exact s"
proof (induction rule: count_reach.induct)
  case start
  then show ?case by (auto simp: exact_def)
next
  case (step slot pcs i pc slot')
  note u = finished_update [OF step.hyps(2,3), of pc]
  show ?case
  proof (cases slot)
    case None
    with step.IH have all: "set pcs \<subseteq> {At_lookup, At_create}" by (simp add: exact_def)
    then have "pcs ! i \<in> {At_lookup, At_create}" using step.hyps(2) nth_mem by blast
    moreover have "set (pcs[i := At_create]) \<subseteq> {At_lookup, At_create}"
      using all by (intro set_update_subsetI) auto
    ultimately show ?thesis
      using step.hyps(4) None u finished_none [OF all] by (auto simp: exact_def)
  next
    case (Some v)
    with step.IH step.hyps(3,4) u show ?thesis
      by (cases "pcs ! i") (auto simp: exact_def)
  qed
qed

text \<open>
  C33. Scheduler counters on many CPUs: whatever the interleaving of any number of CPUs that
  update the counter of one group, once all of them are done the counter equals their number
  (modulo \<open>2 ^ 64\<close>), and at every moment it equals the number of those that are done.
\<close>

theorem no_overwrite_exact:
  assumes "count_reach no_overwrite n (slot, pcs)" "0 < n"
  shows "(case slot of None \<Rightarrow> finished pcs = 0 | Some v \<Rightarrow> v = of_nat (finished pcs)) \<and>
         (finished pcs = n \<longrightarrow> slot = Some (of_nat n))"
proof -
  have "exact (slot, pcs)" using assms(1) by (rule exact_reach)
  then show ?thesis
    using assms(2) by (cases slot) (auto simp: exact_def finished_none)
qed

section \<open>Overwriting loses counts\<close>

lemma finished_all: "finished (replicate n At_done) = n"
  by (induction n) (simp_all add: finished_def)

lemma reach_all_lookup:
  "i \<le> n \<Longrightarrow> count_reach overwrite n (None, replicate i At_create @ replicate (n - i) At_lookup)"
proof (induction i)
  case 0
  then show ?case using count_reach.start [of overwrite n] by simp
next
  case (Suc i)
  let ?pcs = "replicate i At_create @ replicate (n - i) At_lookup"
  have at: "?pcs ! i = At_lookup" "i < length ?pcs" using Suc.prems by (simp_all add: nth_append)
  have "n - i = Suc (n - Suc i)" using Suc.prems by simp
  then have "?pcs[i := At_create] = replicate (Suc i) At_create @ replicate (n - Suc i) At_lookup"
    by (simp add: list_update_append replicate_app_Cons_same)
  with count_reach.step [OF Suc.IH at(2), of At_create None] at Suc.prems show ?case by simp
qed

lemma reach_all_created:
  "0 < i \<Longrightarrow> i \<le> n \<Longrightarrow> count_reach overwrite n (Some 1, replicate i At_done @ replicate (n - i) At_create)"
proof (induction i)
  case (Suc i)
  let ?pcs = "replicate i At_done @ replicate (n - i) At_create" and ?slot = "if i = 0 then None else Some 1"
  have r: "count_reach overwrite n (?slot, ?pcs)"
    using Suc reach_all_lookup [of n n] by (cases "i = 0") simp_all
  have at: "?pcs ! i = At_create" "i < length ?pcs" using Suc.prems by (simp_all add: nth_append)
  have "n - i = Suc (n - Suc i)" using Suc.prems by simp
  then have "?pcs[i := At_done] = replicate (Suc i) At_done @ replicate (n - Suc i) At_create"
    by (simp add: list_update_append replicate_app_Cons_same)
  with count_reach.step [OF r at(2), of At_done "Some 1"] at Suc.prems show ?case by simp
qed simp

text \<open>
  Lost counts: with the update of the profiler and of the reclaim counter, any number of
  CPUs can all be done while the counter says one. It happens when all of them look the key
  up before the first one has created it; all counts but one are lost.
\<close>

theorem overwrite_loses_counts:
  assumes "0 < n"
  shows "\<exists>pcs. count_reach overwrite n (Some 1, pcs) \<and> finished pcs = n"
proof (intro exI conjI)
  show "count_reach overwrite n (Some 1, replicate n At_done)"
    using reach_all_created [of n n] assms by simp
  show "finished (replicate n At_done) = n"
    by (rule finished_all)
qed

theorem overwrite_loses_counts_witness:
  "\<exists>pcs. count_reach overwrite 3 (Some 1, pcs) \<and> finished pcs = 3"
  by (rule overwrite_loses_counts) simp

section \<open>Instances\<close>

text \<open>Running a given schedule.\<close>

fun sched_run :: "(count_pc \<Rightarrow> u64 option \<Rightarrow> count_pc \<times> u64 option) \<Rightarrow> count_smp \<Rightarrow> nat list \<Rightarrow> count_smp option" where
  "sched_run access s [] = Some s"
| "sched_run access (slot, pcs) (i # is) =
     (if i < length pcs \<and> pcs ! i \<noteq> At_done
      then case access (pcs ! i) slot of (pc, slot') \<Rightarrow> sched_run access (slot', pcs[i := pc]) is
      else None)"

lemma sched_run_reach:
  "sched_run access s is = Some s' \<Longrightarrow> count_reach access n s \<Longrightarrow> count_reach access n s'"
  by (induction access s "is" rule: sched_run.induct)
    (auto split: if_splits prod.splits intro: count_reach.step)

theorem no_overwrite_exact_witness:
  "sched_run no_overwrite (None, [At_lookup, At_lookup]) [0, 1, 0, 1, 1, 0, 0, 1] =
     Some (Some 2, [At_done, At_done]) \<and> (Some 2 :: u64 option) = Some (of_nat 2)"
proof -
  have run: "sched_run no_overwrite (None, [At_lookup, At_lookup]) [0, 1, 0, 1, 1, 0, 0, 1] =
      Some (Some 2, [At_done, At_done])"
    by simp
  have "count_reach no_overwrite 2 (None, [At_lookup, At_lookup])"
    using count_reach.start [of no_overwrite 2] by (simp add: numeral_2_eq_2)
  from no_overwrite_exact [OF sched_run_reach [OF run this]] run
  show ?thesis by (simp add: finished_def)
qed

theorem accesses_of_programs_witness:
  "alone overwrite (Some 4) = (At_done, lookup_elem (hash_ops 1024)
     (count_elem (hash_ops 1024) [(7 :: u64, 4)] 7) 7) \<and>
   alone no_overwrite None = (At_done, Some 1)"
proof -
  have h: "bpf_hash_map (hash_ops 1024 :: (u64, u64, _) map_ops) 1024"
    "(7 :: u64) \<in> dom (lookup_elem (hash_ops 1024) [(7 :: u64, 4 :: u64)]) \<or>
       card (dom (lookup_elem (hash_ops 1024) [(7 :: u64, 4 :: u64)])) < 1024"
    "bpf_hash_map (hash_ops 1024 :: (u64, stat_t, _) map_ops) 1024"
    "(5 :: u64) \<in> dom (lookup_elem (hash_ops 1024) ([] :: (u64, stat_t) alist)) \<or>
       card (dom (lookup_elem (hash_ops 1024) ([] :: (u64, stat_t) alist))) < 1024"
    by (simp_all add: lookup_hash_ops)
  from accesses_of_programs [OF h] show ?thesis
    by (simp add: lookup_or_create_def modify_elem_def Let_def alist_update_def update_elem'_def
        alist_put_def alist_keys_def new_stat_def count_switch_def)
qed

end
