(* ===== verification/Wire.thy ===== *)
theory Wire
  imports Skb
begin

text \<open>
  The boundary between the programs and user space: the C structures of the events and map
  values under \<^verbatim>\<open>bpf/\<close>, the Go structures they are decoded into under \<^verbatim>\<open>core/\<close>, \<^verbatim>\<open>internal/\<close> and
  \<^verbatim>\<open>cmd/\<close>, and the decoder (\<open>binary.Read\<close> of Go's standard library, which reads the fields one
  after the other without padding). The C side has the layout of \<open>C_Layout\<close>.
\<close>

section \<open>C structures\<close>

abbreviation c_u8 :: ctype where "c_u8 \<equiv> CInt 1"
abbreviation c_u16 :: ctype where "c_u16 \<equiv> CInt 2"
abbreviation c_u32 :: ctype where "c_u32 \<equiv> CInt 4"
abbreviation c_u64 :: ctype where "c_u64 \<equiv> CInt 8"
abbreviation c_comm :: ctype where "c_comm \<equiv> CArr (CInt 1) 16"

definition c_drop_event :: ctype where
  "c_drop_event = CStruct False
    [Fld ''tgid_pid'' c_u64, Fld ''saddr'' c_u32, Fld ''daddr'' c_u32, Fld ''sport'' c_u16,
     Fld ''dport'' c_u16, Fld ''seq'' c_u32, Fld ''ack_seq'' c_u32, Fld ''queue_mapping'' c_u32,
     Fld ''pkt_len'' c_u64, Fld ''stack_size'' c_u64, Fld ''stack'' (CArr c_u64 127),
     Fld ''sk_max_ack_backlog'' c_u32, Fld ''state'' c_u8, Fld ''type'' c_u8, Fld ''comm'' c_comm]"

definition c_netrecv_event :: ctype where
  "c_netrecv_event = CStruct False
    [Fld ''comm'' c_comm, Fld ''latency'' c_u64, Fld ''tgid_pid'' c_u64, Fld ''pkt_len'' c_u64,
     Fld ''sport'' c_u16, Fld ''dport'' c_u16, Fld ''saddr'' c_u32, Fld ''daddr'' c_u32,
     Fld ''seq'' c_u32, Fld ''ack_seq'' c_u32, Fld ''state'' c_u8, Fld ''where'' c_u8]"

definition c_reclaim_entry :: ctype where
  "c_reclaim_entry = CStruct False
    [Fld ''comm'' c_comm, Fld ''delta_time'' c_u64, Fld ''css'' c_u64, Fld ''pid'' c_u64]"

definition c_report_event :: ctype where
  "c_report_event = CStruct False
    [Fld ''stack'' (CArr c_u64 127), Fld ''stack_size'' c_u64, Fld ''now'' c_u64,
     Fld ''stall_time'' c_u64, Fld ''comm'' c_comm, Fld ''pid'' c_u32, Fld ''cpu'' c_u32]"

definition c_oom_info :: ctype where
  "c_oom_info = CStruct False
    [Fld ''trigger_comm'' c_comm, Fld ''victim_comm'' c_comm, Fld ''trigger_pid'' c_u32,
     Fld ''victim_pid'' c_u32, Fld ''trigger_memcg_css'' c_u64, Fld ''victim_memcg_css'' c_u64]"

definition c_softlockup_info :: ctype where
  "c_softlockup_info = CStruct False [Fld ''cpu'' c_u32, Fld ''pid'' c_u32, Fld ''comm'' c_comm]"

definition c_hungtask_info :: ctype where
  "c_hungtask_info = CStruct False [Fld ''pid'' c_u32, Fld ''comm'' c_comm]"

definition c_cgroup_perf_event_t :: ctype where
  "c_cgroup_perf_event_t = CStruct False
    [Fld ''cgroup'' c_u64, Fld ''ops_type'' c_u64, Fld ''cgroup_root'' c_u32, Fld ''cgroup_level'' c_u32,
     Fld ''css'' (CArr c_u64 13), Fld ''knode_name'' (CArr c_u8 66)]"

definition c_key_t :: ctype where
  "c_key_t = CStruct False
    [Fld ''ustack'' (CArr c_u64 20), Fld ''kstack'' (CArr c_u64 20), Fld ''ustack_size'' c_u64,
     Fld ''kstack_size'' c_u64, Fld ''pid'' c_u32, Fld ''name'' c_comm]"

definition c_stat_t :: ctype where
  "c_stat_t = CStruct False
    [Fld ''nvcsw'' c_u64, Fld ''nivcsw'' c_u64, Fld ''nlat_01'' c_u64, Fld ''nlat_02'' c_u64,
     Fld ''nlat_03'' c_u64, Fld ''nlat_04'' c_u64]"

definition c_g_stat_t :: ctype where
  "c_g_stat_t = CStruct False
    [Fld ''g_nvcsw'' c_u64, Fld ''g_nivcsw'' c_u64, Fld ''g_nlat_01'' c_u64, Fld ''g_nlat_02'' c_u64,
     Fld ''g_nlat_03'' c_u64, Fld ''g_nlat_04'' c_u64]"

definition c_softirq_lat :: ctype where
  "c_softirq_lat = CStruct False [Fld ''timestamp'' c_u64, Fld ''total_latency'' (CArr c_u64 4)]"

definition c_mm_free_compact_entry :: ctype where
  "c_mm_free_compact_entry = CStruct False [Fld ''compaction_stat'' c_u64, Fld ''allocstall_stat'' c_u64]"

definition c_mem_cgroup_metric :: ctype where
  "c_mem_cgroup_metric = CStruct False [Fld ''directstall_count'' c_u64]"

lemmas c_structs = c_drop_event_def c_netrecv_event_def c_reclaim_entry_def c_report_event_def
  c_oom_info_def c_softlockup_info_def c_hungtask_info_def c_cgroup_perf_event_t_def c_key_t_def
  c_stat_t_def c_g_stat_t_def c_softirq_lat_def c_mm_free_compact_entry_def c_mem_cgroup_metric_def

section \<open>Go structures\<close>

text \<open>The fields in order, with their sizes in bytes.\<close>

type_synonym go_struct = "(string \<times> nat) list"

definition go_perfEventT :: go_struct where
  "go_perfEventT = [(''TgidPid'', 8), (''Saddr'', 4), (''Daddr'', 4), (''Sport'', 2), (''Dport'', 2),
     (''Seq'', 4), (''AckSeq'', 4), (''QueueMapping'', 4), (''PktLen'', 8), (''StackSize'', 8),
     (''Stack'', 127 * 8), (''SkMaxAckBacklog'', 4), (''State'', 1), (''Type'', 1), (''Comm'', 16)]"

definition go_netRcvPerfEvent :: go_struct where
  "go_netRcvPerfEvent = [(''Comm'', 16), (''Latency'', 8), (''TgidPid'', 8), (''PktLen'', 8),
     (''Sport'', 2), (''Dport'', 2), (''Saddr'', 4), (''Daddr'', 4), (''Seq'', 4), (''AckSeq'', 4),
     (''State'', 1), (''Where'', 1)]"

definition go_memoryReclaimPerfEvent :: go_struct where
  "go_memoryReclaimPerfEvent = [(''Comm'', 16), (''Deltatime'', 8), (''CSS'', 8), (''Pid'', 8)]"

definition go_softirqPerfEvent :: go_struct where
  "go_softirqPerfEvent = [(''Stack'', 127 * 8), (''StackSize'', 8), (''Now'', 8), (''StallTime'', 8),
     (''Comm'', 16), (''Pid'', 4), (''CPU'', 4)]"

definition go_perfEventData :: go_struct where
  "go_perfEventData = [(''TriggerProcessName'', 16), (''VictimProcessName'', 16), (''TriggerPid'', 4),
     (''VictimPid'', 4), (''TriggerMemcgCSS'', 8), (''VictimMemcgCSS'', 8)]"

definition go_softLockupPerfEventData :: go_struct where
  "go_softLockupPerfEventData = [(''CPU'', 4), (''Pid'', 4), (''Comm'', 16)]"

definition go_hungTaskPerfEventData :: go_struct where
  "go_hungTaskPerfEventData = [(''Pid'', 4), (''Comm'', 16)]"

definition go_containerCssPerfEvent :: go_struct where
  "go_containerCssPerfEvent = [(''Cgroup'', 8), (''OpsType'', 8), (''CgroupRoot'', 4), (''CgroupLevel'', 4),
     (''CSS'', 13 * 8), (''KnodeName'', 66)]"

definition go_eventdata :: go_struct where
  "go_eventdata = [(''Ustack'', 20 * 8), (''Kstack'', 20 * 8), (''UstackSize'', 8), (''KstackSize'', 8),
     (''Pid'', 4), (''Name'', 16)]"

definition go_latencyBpfData :: go_struct where
  "go_latencyBpfData = [(''NumVoluntarySwitch'', 8), (''NumInVoluntarySwitch'', 8), (''NumLatency01'', 8),
     (''NumLatency02'', 8), (''NumLatency03'', 8), (''NumLatency04'', 8)]"

definition go_softirqLatencyData :: go_struct where
  "go_softirqLatencyData = [(''Timestamp'', 8), (''TotalLatency'', 4 * 8)]"

definition go_memoryHostMetric :: go_struct where
  "go_memoryHostMetric = [(''CompactionStat'', 8), (''AllocstallStat'', 8)]"

definition go_memoryCgroupMetric :: go_struct where
  "go_memoryCgroupMetric = [(''DirectstallCount'', 8)]"

lemmas go_structs = go_perfEventT_def go_netRcvPerfEvent_def go_memoryReclaimPerfEvent_def
  go_softirqPerfEvent_def go_perfEventData_def go_softLockupPerfEventData_def go_hungTaskPerfEventData_def
  go_containerCssPerfEvent_def go_eventdata_def go_latencyBpfData_def go_softirqLatencyData_def
  go_memoryHostMetric_def go_memoryCgroupMetric_def

text \<open>
  \<open>binary.Read\<close>: the fields one after the other, \<open>None\<close> for the error of a buffer that is too
  short; bytes after the last field are left.
\<close>

fun binary_read :: "go_struct \<Rightarrow> byte list \<Rightarrow> (string \<times> byte list) list option" where
  "binary_read [] bs = Some []"
| "binary_read ((f, n) # fs) bs =
     (if length bs < n then None
      else map_option ((#) (f, take n bs)) (binary_read fs (drop n bs)))"

text \<open>Which C structure is decoded into which Go structure.\<close>

definition wire_structs :: "(ctype \<times> go_struct) list" where
  "wire_structs = [(c_drop_event, go_perfEventT), (c_netrecv_event, go_netRcvPerfEvent),
     (c_reclaim_entry, go_memoryReclaimPerfEvent), (c_report_event, go_softirqPerfEvent),
     (c_oom_info, go_perfEventData), (c_softlockup_info, go_softLockupPerfEventData),
     (c_hungtask_info, go_hungTaskPerfEventData), (c_cgroup_perf_event_t, go_containerCssPerfEvent),
     (c_key_t, go_eventdata), (c_stat_t, go_latencyBpfData), (c_g_stat_t, go_latencyBpfData),
     (c_softirq_lat, go_softirqLatencyData), (c_mm_free_compact_entry, go_memoryHostMetric),
     (c_mem_cgroup_metric, go_memoryCgroupMetric)]"

section \<open>The two sides agree\<close>

fun members :: "ctype \<Rightarrow> cmember list" where
  "members (CStruct p ms) = ms"
| "members t = []"

text \<open>The bytes of a member, by its name.\<close>

definition member_bytes :: "ctype \<Rightarrow> byte list \<Rightarrow> cmember \<Rightarrow> byte list" where
  "member_bytes t img m = (case m of
     Fld f u \<Rightarrow> local_member t img f (sizeof u)
   | Bits f n w \<Rightarrow> [])"

text \<open>From byte \<open>k\<close> on, the members follow each other without gaps and have the sizes of the Go fields.\<close>

fun contiguous :: "ctype \<Rightarrow> nat \<Rightarrow> cmember list \<Rightarrow> go_struct \<Rightarrow> bool" where
  "contiguous t k [] [] = (k \<le> sizeof t)"
| "contiguous t k (Fld f u # ms) ((g, n) # gs) =
     (offsetof t [f] = Some k \<and> sizeof u = n \<and> contiguous t (k + n) ms gs)"
| "contiguous t k _ _ = False"

lemma contiguous_bound: "contiguous t k ms gs \<Longrightarrow> k + sum_list (map snd gs) \<le> sizeof t"
  by (induction t k ms gs rule: contiguous.induct) auto

lemma binary_read_contiguous:
  assumes "length img = sizeof t"
  shows "contiguous t k ms gs \<Longrightarrow>
     binary_read gs (drop k img) = Some (zip (map fst gs) (map (member_bytes t img) ms))"
proof (induction ms arbitrary: k gs)
  case Nil
  then show ?case by (cases gs) simp_all
next
  case (Cons m ms)
  from Cons.prems obtain f u g n gs' where
    m: "m = Fld f u" "gs = (g, n) # gs'" "offsetof t [f] = Some k" "sizeof u = n" "contiguous t (k + n) ms gs'"
    by (cases m; cases gs) auto
  have "\<not> length img - k < n" using contiguous_bound [OF m(5)] assms by linarith
  moreover have "member_bytes t img m = take n (drop k img)"
    unfolding member_bytes_def local_member_def m(1) by (simp only: cmember.case m(3,4) option.sel)
  ultimately show ?case using Cons.IH [OF m(5)] by (simp add: m(2) add.commute)
qed

lemma wire_contiguous: "list_all (\<lambda>(t, gs). contiguous t 0 (members t) gs) wire_structs"
  by (simp add: wire_structs_def) (simp add: c_structs go_structs layout_eval)

text \<open>
  C35. Wire formats: for each of the fourteen structures the programs hand to user space and
  every content of its memory, decoding succeeds, and each Go field gets the bytes of the C
  member at the same place of the declaration, whole and without a shift by padding.
\<close>

theorem wire_formats_agree:
  assumes "(t, gs) \<in> set wire_structs" "length img = sizeof t"
  shows "binary_read gs img = Some (zip (map fst gs) (map (member_bytes t img) (members t))) \<and>
         length gs = length (members t)"
proof -
  have c: "contiguous t 0 (members t) gs"
    using wire_contiguous assms(1) by (auto simp: list_all_iff)
  have "contiguous t k ms gs \<Longrightarrow> length gs = length ms" for k ms
    by (induction t k ms gs rule: contiguous.induct) simp_all
  with c binary_read_contiguous [OF assms(2) c] show ?thesis by simp
qed

theorem wire_formats_agree_witness:
  "binary_read go_hungTaskPerfEventData ([7, 0, 0, 0] @ replicate 16 97) =
     Some [(''Pid'', [7, 0, 0, 0]), (''Comm'', replicate 16 97)]"
proof -
  have h: "(c_hungtask_info, go_hungTaskPerfEventData) \<in> set wire_structs"
    "length ([7, 0, 0, 0] @ replicate 16 97 :: byte list) = sizeof c_hungtask_info"
    by (simp add: wire_structs_def) (simp add: c_hungtask_info_def layout_eval)
  show ?thesis
    using wire_formats_agree [OF h]
    by (simp add: c_hungtask_info_def go_hungTaskPerfEventData_def member_bytes_def local_member_def layout_eval)
qed

end
