(* ===== verification/Metrics.thy ===== *)
theory Metrics
  imports Memory Runqlat Wire
begin

text \<open>
  The agent's side of the maps: \<open>DumpMap\<close> of \<^verbatim>\<open>internal/bpf/bpf_default.go\<close>, the search for a
  container in \<^verbatim>\<open>internal/pod/container.go\<close>, and the collectors \<^verbatim>\<open>core/metrics/memory_reclaim.go\<close>
  and \<^verbatim>\<open>core/metrics/runqlat.go\<close> with \<^verbatim>\<open>runqlat_tracing.go\<close>. A map handle of the package
  cilium/ebpf is a parameter, the record \<open>ebpf_map\<close>; the locale \<open>ebpf_cursor\<close> states what the
  package documents for a map that does not change while it is walked. Metric values are the
  integers before their conversion to \<open>float64\<close>.
\<close>

section \<open>Dumping a map\<close>

datatype go_error = Next_key_error | Lookup_error | Read_error | Container_error

record ebpf_map =
  eb_max_entries :: nat
  eb_next_key :: "byte list option \<Rightarrow> go_error + byte list"
  eb_lookup :: "byte list \<Rightarrow> go_error + byte list option"

type_synonym map_item = "byte list \<times> byte list"

text \<open>The rounds of the loop that are left, the key of the last item, and the items so far.\<close>

fun dump_loop :: "ebpf_map \<Rightarrow> nat \<Rightarrow> byte list option \<Rightarrow> map_item list \<Rightarrow> go_error + map_item list" where
  "dump_loop m 0 prevKey items = Inr items"
| "dump_loop m (Suc n) prevKey items =
     (case eb_next_key m prevKey of
        Inl err \<Rightarrow> Inl err
      | Inr nextKey \<Rightarrow>
          if nextKey = [] then Inr items
          else case eb_lookup m nextKey of
            Inl err \<Rightarrow> Inl err
          | Inr None \<Rightarrow> dump_loop m n prevKey items
          | Inr (Some v) \<Rightarrow> dump_loop m n (Some nextKey) (items @ [(nextKey, v)]))"

definition DumpMap :: "ebpf_map \<Rightarrow> go_error + map_item list" where
  "DumpMap m = dump_loop m (eb_max_entries m) None []"

text \<open>A handle of a map with the given content, whose keys are walked in the order \<open>ks\<close>.\<close>

definition key_from :: "byte list list \<Rightarrow> nat \<Rightarrow> byte list" where
  "key_from ks i = (if i < length ks then ks ! i else [])"

locale ebpf_cursor =
  fixes b :: ebpf_map and ks :: "byte list list" and content :: "byte list \<rightharpoonup> byte list"
  assumes keys: "distinct ks" "set ks = dom content" "[] \<notin> set ks"
    and bounded: "length ks \<le> eb_max_entries b"
    and next_first: "eb_next_key b None = Inr (key_from ks 0)"
    and next_step: "i < length ks \<Longrightarrow> eb_next_key b (Some (ks ! i)) = Inr (key_from ks (Suc i))"
    and lookup_key: "eb_lookup b k = Inr (content k)"
begin

lemma dump_from:
  assumes "eb_next_key b prev = Inr (key_from ks i)"
  shows "dump_loop b n prev items = Inr (items @ map (\<lambda>k. (k, the (content k))) (take n (drop i ks)))"
  using assms
proof (induction n arbitrary: prev i items)
  case (Suc n)
  show ?case
  proof (cases "i < length ks")
    case True
    then have mem: "ks ! i \<in> set ks" by simp
    then have k: "ks ! i \<noteq> []" using keys(3) by metis
    from mem obtain v where v: "content (ks ! i) = Some v" unfolding keys(2) by blast
    have d: "drop i ks = ks ! i # drop (Suc i) ks" using True by (simp add: Cons_nth_drop_Suc)
    from Suc.IH [OF next_step [OF True]] True k v Suc.prems show ?thesis
      by (simp add: key_from_def lookup_key d)
  next
    case False
    with Suc.prems show ?thesis by (simp add: key_from_def)
  qed
qed simp

lemma dump_all: "DumpMap b = Inr (map (\<lambda>k. (k, the (content k))) ks)"
  using dump_from [OF next_first] bounded by (simp add: DumpMap_def)

lemma dump_content: "map_of (map (\<lambda>k. (k, the (content k))) ks) = content"
proof
  fix k
  show "map_of (map (\<lambda>k. (k, the (content k))) ks) k = content k"
    by (simp add: map_of_map_restrict restrict_map_def keys(2) domIff)
qed

end

text \<open>The handle of an association list with 64-bit keys.\<close>

definition byte_items :: "('v \<Rightarrow> byte list) \<Rightarrow> (u64 \<times> 'v) list \<Rightarrow> map_item list" where
  "byte_items vb xs = map (\<lambda>(k, v). (enc 8 k, vb v)) xs"

definition item_keys :: "('v \<Rightarrow> byte list) \<Rightarrow> (u64 \<times> 'v) list \<Rightarrow> byte list list" where
  "item_keys vb xs = remdups (map fst (byte_items vb xs))"

definition ebpf_of :: "('v \<Rightarrow> byte list) \<Rightarrow> (u64 \<times> 'v) list \<Rightarrow> ebpf_map" where
  "ebpf_of vb xs = \<lparr>eb_max_entries = length xs,
     eb_next_key = (\<lambda>prev. Inr (key_from (item_keys vb xs)
        (case prev of None \<Rightarrow> 0 | Some k \<Rightarrow> Suc (length (takeWhile (\<lambda>x. x \<noteq> k) (item_keys vb xs)))))),
     eb_lookup = (\<lambda>k. Inr (map_of (byte_items vb xs) k))\<rparr>"

lemma position_distinct:
  assumes "distinct ks" "i < length ks"
  shows "length (takeWhile (\<lambda>x. x \<noteq> ks ! i) ks) = i"
proof -
  have "takeWhile (\<lambda>x. x \<noteq> ks ! i) ks = take i ks"
    using assms by (intro takeWhile_eq_take_P_nth) (auto simp: nth_eq_iff_index_eq)
  with assms(2) show ?thesis by simp
qed

interpretation eb: ebpf_cursor "ebpf_of vb xs" "item_keys vb xs" "map_of (byte_items vb xs)"
proof unfold_locales
  have "length (item_keys vb xs) \<le> length (map fst (byte_items vb xs))"
    unfolding item_keys_def by (rule length_remdups_leq)
  then show "length (item_keys vb xs) \<le> eb_max_entries (ebpf_of vb xs)"
    by (simp add: ebpf_of_def byte_items_def)
  have "length k = 8" if "k \<in> set (item_keys vb xs)" for k
    using that by (auto simp: item_keys_def byte_items_def)
  then show "[] \<notin> set (item_keys vb xs)" by force
  show "set (item_keys vb xs) = dom (map_of (byte_items vb xs))"
    by (simp add: item_keys_def dom_map_of_conv_image_fst)
  show "distinct (item_keys vb xs)" by (simp add: item_keys_def)
  then show "eb_next_key (ebpf_of vb xs) (Some (item_keys vb xs ! i)) = Inr (key_from (item_keys vb xs) (Suc i))"
    if "i < length (item_keys vb xs)" for i
    using that by (simp add: ebpf_of_def position_distinct)
qed (simp_all add: ebpf_of_def)

text \<open>
  C38. Dumping a map: the loop ends within \<open>MaxEntries\<close> rounds without an error, and the items
  it returns are the entries of the map, each exactly once.
\<close>

theorem DumpMap_complete:
  assumes "ebpf_cursor b ks content"
  shows "\<exists>items. DumpMap b = Inr items \<and> distinct (map fst items) \<and> map_of items = content"
  using ebpf_cursor.dump_all [OF assms] ebpf_cursor.dump_content [OF assms] ebpf_cursor.keys(1) [OF assms]
  by (auto simp: comp_def)

theorem DumpMap_complete_witness:
  "\<exists>items. DumpMap (ebpf_of (enc 8) [(7, 1), (9, 2 :: u64)]) = Inr items \<and> distinct (map fst items) \<and>
     map_of items = map_of [(enc 8 (7 :: u64), enc 8 (1 :: u64)), (enc 8 (9 :: u64), enc 8 (2 :: u64))]"
  using DumpMap_complete [OF eb.ebpf_cursor_axioms, of "enc 8" "[(7, 1), (9, 2 :: u64)]"]
  by (simp add: byte_items_def)

text \<open>A map with 64-bit keys, as the bytes a handle shows.\<close>

definition byte_map :: "('v \<Rightarrow> byte list) \<Rightarrow> (u64 \<rightharpoonup> 'v) \<Rightarrow> byte list \<rightharpoonup> byte list" where
  "byte_map vb f = (\<lambda>b. if length b = 8 then map_option vb (f (dec b)) else None)"

lemma enc_eq_iff: "enc 8 (k :: u64) = b \<longleftrightarrow> length b = 8 \<and> k = dec b"
    and eq_enc_iff: "b = enc 8 k \<longleftrightarrow> length b = 8 \<and> k = dec b"
  using enc_dec [where 'a = 64, of b] by auto

lemma byte_map_alist: "map_of (byte_items vb xs) = byte_map vb (map_of xs)"
  by (induction xs) (auto simp: byte_items_def byte_map_def enc_eq_iff eq_enc_iff fun_eq_iff)

text \<open>What \<open>DumpMap\<close> returns for such a map, with the keys \<open>ns\<close> in the order of the walk.\<close>

lemma dump_byte_map:
  assumes "ebpf_cursor b ks (byte_map vb f)"
  obtains ns where "distinct ns" "set ns = dom f"
    "DumpMap b = Inr (map (\<lambda>n. (enc 8 n, vb (the (f n)))) ns)"
proof
  have d: "length k = 8 \<and> f (dec k) \<noteq> None" if "k \<in> set ks" for k
    using that by (auto simp: ebpf_cursor.keys(2) [OF assms] byte_map_def split: if_splits)
  have e: "enc 8 (dec k :: u64) = k" if "k \<in> set ks" for k using d [OF that] by (simp add: enc_eq_iff)
  let ?ns = "map (dec :: byte list \<Rightarrow> u64) ks"
  have "inj_on (dec :: byte list \<Rightarrow> u64) (set ks)" using e by (metis inj_on_inverseI)
  then show "distinct ?ns" using ebpf_cursor.keys(1) [OF assms] by (simp add: distinct_map)
  show "set ?ns = dom f"
  proof (intro set_eqI iffI)
    fix n assume "n \<in> dom f"
    then have "enc 8 n \<in> set ks" by (auto simp: ebpf_cursor.keys(2) [OF assms] byte_map_def)
    then show "n \<in> set ?ns" by (auto intro!: image_eqI [of _ _ "enc 8 n"])
  qed (use d in auto)
  show "DumpMap b = Inr (map (\<lambda>n. (enc 8 n, vb (the (f n)))) ?ns)"
    using d e by (auto simp: ebpf_cursor.dump_all [OF assms] byte_map_def option.map_sel)
qed

section \<open>Containers and metrics\<close>

record container =
  ct_id :: string
  ct_css :: "string \<rightharpoonup> u64"

text \<open>\<open>md_container\<close> is \<open>None\<close> for a metric of the host.\<close>

record metric_data =
  md_container :: "container option"
  md_name :: string
  md_value :: u64

definition NewContainerGaugeData :: "container \<Rightarrow> string \<Rightarrow> u64 \<Rightarrow> metric_data" where
  "NewContainerGaugeData c name v = \<lparr>md_container = Some c, md_name = ''container_'' @ name, md_value = v\<rparr>"

definition NewGaugeData :: "string \<Rightarrow> u64 \<Rightarrow> metric_data" where
  "NewGaugeData name v = \<lparr>md_container = None, md_name = name, md_value = v\<rparr>"

definition GetContainerByCSS :: "go_error + container list \<Rightarrow> u64 \<Rightarrow> string \<Rightarrow> go_error + container option" where
  "GetContainerByCSS all css subsys =
     (case all of Inl err \<Rightarrow> Inl err | Inr cs \<Rightarrow> Inr (find (\<lambda>c. ct_css c subsys = Some css) cs))"

text \<open>\<open>binary.Read\<close> into a value or structure of 64-bit fields.\<close>

definition read_fields :: "go_struct \<Rightarrow> byte list \<Rightarrow> go_error + u64 list" where
  "read_fields gs bs =
     (case binary_read gs bs of None \<Rightarrow> Inl Read_error | Some fs \<Rightarrow> Inr (map (dec \<circ> snd) fs))"

definition read_css :: "byte list \<Rightarrow> go_error + u64" where
  "read_css bs = map_sum id hd (read_fields [(''css'', 8)] bs)"

lemma read_css_enc: "read_css (enc 8 (n :: u64)) = Inr n"
  by (simp add: read_css_def read_fields_def)

section \<open>core/metrics/memory\_reclaim.go\<close>

text \<open>Indexing a Go map yields zero for a key that is absent.\<close>

definition memory_css :: "container \<Rightarrow> u64" where
  "memory_css c = (case ct_css c ''memory'' of None \<Rightarrow> 0 | Some a \<Rightarrow> a)"

definition containersMap :: "container list \<Rightarrow> u64 \<rightharpoonup> container" where
  "containersMap cs = foldl (\<lambda>m c. m(memory_css c \<mapsto> c)) Map.empty cs"

fun directstall_items :: "(u64 \<rightharpoonup> container) \<Rightarrow> map_item list \<Rightarrow> go_error + metric_data list" where
  "directstall_items cm [] = Inr []"
| "directstall_items cm ((k, v) # items) =
     (case read_css k of
        Inl err \<Rightarrow> Inl err
      | Inr css \<Rightarrow>
          case read_fields go_memoryCgroupMetric v of
            Inl err \<Rightarrow> Inl err
          | Inr cgroupMetric \<Rightarrow>
              case directstall_items cm items of
                Inl err \<Rightarrow> Inl err
              | Inr ms \<Rightarrow>
                  Inr ((case cm css of
                          None \<Rightarrow> []
                        | Some c \<Rightarrow> [NewContainerGaugeData c ''directstall'' (hd cgroupMetric)]) @ ms))"

text \<open>\<open>order\<close> is the order in which the keys of \<open>containersMap\<close> are visited.\<close>

definition memoryCgroup_Update ::
    "bool \<Rightarrow> go_error + container list \<Rightarrow> go_error + map_item list \<Rightarrow> u64 list \<Rightarrow> go_error + metric_data list" where
  "memoryCgroup_Update isRuning containers dump order =
     (if \<not> isRuning then Inr []
      else case containers of
        Inl err \<Rightarrow> Inl err
      | Inr cs \<Rightarrow>
          case dump of
            Inl err \<Rightarrow> Inl err
          | Inr items \<Rightarrow>
              case directstall_items (containersMap cs) items of
                Inl err \<Rightarrow> Inl err
              | Inr ms \<Rightarrow>
                  Inr (ms @ (if items = []
                     then map (\<lambda>k. NewContainerGaugeData (the (containersMap cs k)) ''directstall'' 0) order
                     else [])))"

definition memcg_bytes :: "mem_cgroup_metric \<Rightarrow> byte list" where
  "memcg_bytes v = enc 8 (directstall_count v)"

lemma containersMap_inj:
  assumes "inj_on memory_css (set cs)"
  shows "containersMap cs k = Some c \<longleftrightarrow> c \<in> set cs \<and> memory_css c = k"
  using assms
proof (induction cs rule: rev_induct)
  case Nil
  then show ?case by (simp add: containersMap_def)
next
  case (snoc x cs)
  have "containersMap (cs @ [x]) = (containersMap cs)(memory_css x \<mapsto> x)" by (simp add: containersMap_def)
  with snoc show ?case by (auto simp: inj_on_def)
qed

text \<open>The metrics of the containers found for the given keys.\<close>

definition gauges :: "(u64 \<rightharpoonup> container) \<Rightarrow> (u64 \<Rightarrow> u64) \<Rightarrow> u64 list \<Rightarrow> metric_data list" where
  "gauges cm val ns = concat (map (\<lambda>n. case cm n of None \<Rightarrow> []
     | Some c \<Rightarrow> [NewContainerGaugeData c ''directstall'' (val n)]) ns)"

lemma directstall_items_eq:
  "directstall_items cm (map (\<lambda>n. (enc 8 n, memcg_bytes (g n))) ns) =
     Inr (gauges cm (\<lambda>n. directstall_count (g n)) ns)"
  by (induction ns)
    (simp_all add: gauges_def read_css_enc read_fields_def memcg_bytes_def go_memoryCgroupMetric_def
      split: option.split)

lemma concat_single:
  assumes "distinct ns" "\<And>n. n \<in> set ns \<Longrightarrow> g n = (if n = n0 then ys else [])"
  shows "concat (map g ns) = (if n0 \<in> set ns then ys else [])"
  using assms by (induction ns) (auto split: if_splits)

lemma gauges_of_container:
  assumes "inj_on memory_css (set cs)" "distinct ns" "c \<in> set cs"
  shows "filter (\<lambda>d. md_container d = Some c) (gauges (containersMap cs) val ns) =
    (if memory_css c \<in> set ns then [NewContainerGaugeData c ''directstall'' (val (memory_css c))] else [])"
  unfolding gauges_def filter_concat map_map comp_def
proof (rule concat_single [OF assms(2)])
  fix n
  note cm = containersMap_inj [OF assms(1)]
  have c: "containersMap cs (memory_css c) = Some c" using assms(3) by (simp add: cm)
  show "filter (\<lambda>d. md_container d = Some c) (case containersMap cs n of None \<Rightarrow> []
      | Some c \<Rightarrow> [NewContainerGaugeData c ''directstall'' (val n)]) =
    (if n = memory_css c then [NewContainerGaugeData c ''directstall'' (val (memory_css c))] else [])"
  proof (cases "containersMap cs n")
    case None
    with c have "n \<noteq> memory_css c" by auto
    with None show ?thesis by simp
  next
    case (Some c')
    then have "c' = c \<longleftrightarrow> n = memory_css c" using c cm [of n c'] by (metis option.inject)
    with Some show ?thesis by (simp add: NewContainerGaugeData_def)
  qed
qed

lemma gauges_containers:
  assumes "inj_on memory_css (set cs)"
  shows "d \<in> set (gauges (containersMap cs) val ns) \<Longrightarrow> md_container d \<in> Some ` set cs"
proof -
  assume "d \<in> set (gauges (containersMap cs) val ns)"
  then obtain n c where "containersMap cs n = Some c" "md_container d = Some c"
    unfolding gauges_def by (auto simp: NewContainerGaugeData_def split: option.splits) (metis)
  then show ?thesis by (simp add: containersMap_inj [OF assms])
qed

lemma gauges_all:
  assumes "inj_on memory_css (set cs)" "set ns \<subseteq> memory_css ` set cs"
  shows "map (\<lambda>k. NewContainerGaugeData (the (containersMap cs k)) ''directstall'' (val k)) ns =
    gauges (containersMap cs) val ns"
proof -
  have "containersMap cs k \<noteq> None" if "k \<in> set ns" for k
    using that assms(2) by (auto simp: containersMap_inj [OF assms(1)])
  then show ?thesis by (induction ns) (auto simp: gauges_def split: option.split)
qed


lemma cursor_of_hash: "ebpf_cursor (ebpf_of vb xs) (item_keys vb xs) (byte_map vb (lookup_elem (hash_ops n) xs))"
  using eb.ebpf_cursor_axioms [of vb xs] by (simp only: byte_map_alist lookup_hash_ops)


section \<open>core/metrics/runqlat.go, runqlat\_tracing.go\<close>

text \<open>
  The life resource \<open>runqlat\<close> of each container, by its identifier, and \<open>globalRunqlat\<close>; both
  are the six fields of \<open>latencyBpfData\<close>.
\<close>

record runqlat_state =
  rs_life :: "string \<Rightarrow> u64 list"
  rs_global :: "u64 list"

fun runqlat_items :: "go_error + container list \<Rightarrow> map_item list \<Rightarrow> runqlat_state \<Rightarrow>
    runqlat_state \<times> go_error option" where
  "runqlat_items all [] st = (st, None)"
| "runqlat_items all ((k, v) # items) st =
     (case read_css k of
        Inl err \<Rightarrow> (st, Some err)
      | Inr css \<Rightarrow>
          case GetContainerByCSS all css ''cpu'' of
            Inr (Some c) \<Rightarrow>
              (case read_fields go_latencyBpfData v of
                 Inl err \<Rightarrow> (st, Some err)
               | Inr d \<Rightarrow> runqlat_items all items (st\<lparr>rs_life := (rs_life st)(ct_id c := d)\<rparr>))
          | _ \<Rightarrow> runqlat_items all items st)"

text \<open>One round of the loop: the dump of \<open>cpu_tg_metric\<close>, then the value of \<open>cpu_host_metric\<close>.\<close>

definition startRunqlatTracerWork ::
    "go_error + container list \<Rightarrow> go_error + map_item list \<Rightarrow> go_error + byte list \<Rightarrow> runqlat_state \<Rightarrow>
     runqlat_state \<times> go_error option" where
  "startRunqlatTracerWork all dump item st =
     (case dump of
        Inl err \<Rightarrow> (st, Some err)
      | Inr items \<Rightarrow>
          (case runqlat_items all items st of
             (st, Some err) \<Rightarrow> (st, Some err)
           | (st, None) \<Rightarrow>
               (case item of
                  Inl err \<Rightarrow> (st, Some err)
                | Inr bs \<Rightarrow>
                    (case read_fields go_latencyBpfData bs of
                       Inl err \<Rightarrow> (st, Some err)
                     | Inr d \<Rightarrow> (st\<lparr>rs_global := d\<rparr>, None)))))"

definition runqlatCollector_Update ::
    "bool \<Rightarrow> go_error + container list \<Rightarrow> runqlat_state \<Rightarrow> go_error + metric_data list" where
  "runqlatCollector_Update runqlatRunning containers st =
     (if \<not> runqlatRunning then Inr []
      else case containers of
        Inl err \<Rightarrow> Inl err
      | Inr cs \<Rightarrow>
          Inr (concat (map (\<lambda>c. let d = rs_life st (ct_id c) in
                 [NewContainerGaugeData c ''nlat_01'' (d ! 2), NewContainerGaugeData c ''nlat_02'' (d ! 3),
                  NewContainerGaugeData c ''nlat_03'' (d ! 4), NewContainerGaugeData c ''nlat_04'' (d ! 5)]) cs) @
               [NewGaugeData ''g_nlat_01'' (rs_global st ! 2), NewGaugeData ''g_nlat_02'' (rs_global st ! 3),
                NewGaugeData ''g_nlat_03'' (rs_global st ! 4), NewGaugeData ''g_nlat_04'' (rs_global st ! 5)]))"

text \<open>The six counters in memory, in the order of the C structures.\<close>

definition stat_fields :: "stat_t \<Rightarrow> u64 list" where
  "stat_fields v = [nvcsw v, nivcsw v, nlat_01 v, nlat_02 v, nlat_03 v, nlat_04 v]"

definition g_stat_fields :: "g_stat_t \<Rightarrow> u64 list" where
  "g_stat_fields v = [g_nvcsw v, g_nivcsw v, g_nlat_01 v, g_nlat_02 v, g_nlat_03 v, g_nlat_04 v]"

definition fields_bytes :: "u64 list \<Rightarrow> byte list" where
  "fields_bytes ws = concat (map (enc 8) ws)"

lemma read_stat:
  "read_fields go_latencyBpfData (fields_bytes (stat_fields v)) = Inr (stat_fields v)"
  "read_fields go_latencyBpfData (fields_bytes (g_stat_fields w)) = Inr (g_stat_fields w)"
  by (simp_all add: read_fields_def go_latencyBpfData_def fields_bytes_def stat_fields_def g_stat_fields_def)

text \<open>A container is found by its own subsystem state only.\<close>

definition distinct_cpu :: "container list \<Rightarrow> bool" where
  "distinct_cpu cs \<longleftrightarrow> (\<forall>c\<in>set cs. \<forall>c'\<in>set cs. \<forall>k.
     ct_css c ''cpu'' = Some k \<and> ct_css c' ''cpu'' = Some k \<longrightarrow> c = c')"

lemma find_container:
  assumes "distinct_cpu cs"
  shows "find (\<lambda>c. ct_css c ''cpu'' = Some k) cs = Some c \<longleftrightarrow> c \<in> set cs \<and> ct_css c ''cpu'' = Some k"
proof
  assume "find (\<lambda>c. ct_css c ''cpu'' = Some k) cs = Some c"
  then show "c \<in> set cs \<and> ct_css c ''cpu'' = Some k" by (auto simp: find_Some_iff)
next
  assume c: "c \<in> set cs \<and> ct_css c ''cpu'' = Some k"
  then obtain c' where c': "find (\<lambda>c. ct_css c ''cpu'' = Some k) cs = Some c'"
    by (cases "find (\<lambda>c. ct_css c ''cpu'' = Some k) cs") (auto simp: find_None_iff)
  then have "c' \<in> set cs \<and> ct_css c' ''cpu'' = Some k" by (auto simp: find_Some_iff)
  with assms c have "c' = c" unfolding distinct_cpu_def by blast
  with c' show "find (\<lambda>c. ct_css c ''cpu'' = Some k) cs = Some c" by simp
qed

lemma runqlat_items_run:
  assumes "distinct_cpu all" "inj_on ct_id (set all)" "distinct ns" "set ns \<subseteq> dom f"
  shows "\<exists>life. runqlat_items (Inr all) (map (\<lambda>n. (enc 8 n, fields_bytes (stat_fields (the (f n))))) ns) st =
      (st\<lparr>rs_life := life\<rparr>, None) \<and>
    (\<forall>c\<in>set all. life (ct_id c) = (case ct_css c ''cpu'' of
        Some k \<Rightarrow> if k \<in> set ns then stat_fields (the (f k)) else rs_life st (ct_id c)
      | None \<Rightarrow> rs_life st (ct_id c)))"
  using assms(3,4)
proof (induction ns arbitrary: st)
  case Nil
  then show ?case by (auto intro!: exI [of _ "rs_life st"] split: option.split)
next
  case (Cons n ns)
  show ?case
  proof (cases "find (\<lambda>c. ct_css c ''cpu'' = Some n) all")
    case None
    then have no: "ct_css c ''cpu'' \<noteq> Some n" if "c \<in> set all" for c using that by (auto simp: find_None_iff)
    from Cons.IH [of st] Cons.prems None show ?thesis
      by (auto simp: read_css_enc GetContainerByCSS_def dest: no split: option.split)
  next
    case (Some c0)
    let ?st = "st\<lparr>rs_life := (rs_life st)(ct_id c0 := stat_fields (the (f n)))\<rparr>"
    have c0: "c0 \<in> set all" "ct_css c0 ''cpu'' = Some n" using Some by (auto simp: find_container [OF assms(1)])
    obtain life where run: "runqlat_items (Inr all)
        (map (\<lambda>n. (enc 8 n, fields_bytes (stat_fields (the (f n))))) ns) ?st = (st\<lparr>rs_life := life\<rparr>, None)"
      and life: "\<forall>c\<in>set all. life (ct_id c) = (case ct_css c ''cpu'' of
          Some k \<Rightarrow> if k \<in> set ns then stat_fields (the (f k)) else rs_life ?st (ct_id c)
        | None \<Rightarrow> rs_life ?st (ct_id c))"
      using Cons.IH [of ?st] Cons.prems by auto
    have "life (ct_id c) = (case ct_css c ''cpu'' of
          Some k \<Rightarrow> if k \<in> set (n # ns) then stat_fields (the (f k)) else rs_life st (ct_id c)
        | None \<Rightarrow> rs_life st (ct_id c))" if c: "c \<in> set all" for c
    proof (cases "c = c0")
      case True
      with life c0 Cons.prems(1) show ?thesis by simp
    next
      case False
      then have "ct_id c \<noteq> ct_id c0" using c c0(1) assms(2) by (auto simp: inj_on_def)
      moreover have "ct_css c ''cpu'' \<noteq> Some n"
        using False c c0 assms(1) unfolding distinct_cpu_def by blast
      ultimately show ?thesis using life c by (auto split: option.split)
    qed
    moreover have "runqlat_items (Inr all)
        (map (\<lambda>n. (enc 8 n, fields_bytes (stat_fields (the (f n))))) (n # ns)) st = (st\<lparr>rs_life := life\<rparr>, None)"
      using run Some by (simp add: read_css_enc GetContainerByCSS_def read_stat)
    ultimately show ?thesis by blast
  qed
qed



end
