(* ===== verification/Symbols.thy ===== *)
theory Symbols
  imports Bpf_Prelude "HOL-Library.Multiset"
begin

text \<open>
  Symbol resolution, \<^verbatim>\<open>internal/symbol/ksymbols.go\<close> and \<^verbatim>\<open>usymbols.go\<close>: the table of kernel text
  symbols read from \<^verbatim>\<open>/proc/kallsyms\<close> and its binary search, the kernel back traces the event
  readers store, and the resolution of user addresses through sections and function symbols.
  The sort of Go's standard library is a parameter with its documented contract (locale
  \<open>go_sort\<close>), since the order of equal elements is not specified. What is read from ELF files
  and \<^verbatim>\<open>/proc/<pid>\<close> is a parameter.
\<close>

section \<open>Standard library\<close>

text \<open>\<open>sort.Sort\<close> and \<open>sort.Slice\<close> by a key: some ordered permutation.\<close>

locale go_sort =
  fixes srt :: "('a \<Rightarrow> u64) \<Rightarrow> 'a list \<Rightarrow> 'a list"
  assumes sort_mset: "mset (srt key xs) = mset xs"
    and sort_sorted: "sorted (map key (srt key xs))"
begin

lemma sort_set: "set (srt key xs) = set xs"
  using sort_mset [of key xs] by (metis set_mset_mset)

lemma sort_length: "length (srt key xs) = length xs"
  using sort_mset [of key xs] by (metis size_mset)

end

interpretation stable: go_sort sort_key
  by unfold_locales simp_all

text \<open>\<open>sort.Search\<close>\<close>

function sort_search :: "(nat \<Rightarrow> bool) \<Rightarrow> nat \<Rightarrow> nat \<Rightarrow> nat" where
  "sort_search f i j =
     (if i < j then let h = (i + j) div 2 in if \<not> f h then sort_search f (h + 1) j else sort_search f i h
      else i)"
  by pat_completeness auto
termination by (relation "measure (\<lambda>(f, i, j). j - i)") auto

declare sort_search.simps [simp del]

definition sort_Search :: "nat \<Rightarrow> (nat \<Rightarrow> bool) \<Rightarrow> nat" where
  "sort_Search n f = sort_search f 0 n"

lemma sort_search_least:
  assumes mono: "\<And>a b. a \<le> b \<Longrightarrow> b < n \<Longrightarrow> f a \<Longrightarrow> f b"
    and "i \<le> j" "j \<le> n" "\<And>k. k < i \<Longrightarrow> \<not> f k" "\<And>k. j \<le> k \<Longrightarrow> k < n \<Longrightarrow> f k"
  defines "r \<equiv> sort_search f i j"
  shows "r \<le> n \<and> (\<forall>k<n. f k \<longleftrightarrow> r \<le> k)"
  unfolding r_def using assms(2-5)
proof (induction "j - i" arbitrary: i j rule: less_induct)
  case less
  show ?case
  proof (cases "i < j")
    case True
    define h where "h = (i + j) div 2"
    have h: "i \<le> h" "h < j" using True by (auto simp: h_def)
    have eq: "sort_search f i j = (if f h then sort_search f i h else sort_search f (h + 1) j)"
      using True by (subst sort_search.simps) (simp add: Let_def h_def)
    show ?thesis
    proof (cases "f h")
      case t: True
      have up: "f k" if "h \<le> k" "k < n" for k by (rule mono [OF that t])
      have "sort_search f i h \<le> n \<and> (\<forall>k<n. f k \<longleftrightarrow> sort_search f i h \<le> k)"
        using h less.prems(1-3) up by (intro less.hyps) linarith+
      with t show ?thesis by (simp add: eq)
    next
      case f: False
      have down: "\<not> f k" if "k < h + 1" for k
        using mono [of k h] that f h less.prems(2) by auto
      have "sort_search f (h + 1) j \<le> n \<and> (\<forall>k<n. f k \<longleftrightarrow> sort_search f (h + 1) j \<le> k)"
        using h less.prems(1,2,4) down by (intro less.hyps) linarith+
      with f show ?thesis by (simp add: eq)
    qed
  next
    case False
    then have "sort_search f i j = i" by (simp add: sort_search.simps)
    moreover have "f k \<longleftrightarrow> i \<le> k" if "k < n" for k
      using False less.prems that by (meson le_trans not_le)
    ultimately show ?thesis using less.prems by simp
  qed
qed

lemma sort_Search_least:
  assumes "\<And>a b. a \<le> b \<Longrightarrow> b < n \<Longrightarrow> f a \<Longrightarrow> f b"
  shows "sort_Search n f \<le> n" and "k < n \<Longrightarrow> f k \<longleftrightarrow> sort_Search n f \<le> k"
  using sort_search_least [of n f 0 n] assms by (auto simp: sort_Search_def)

text \<open>\<open>strings.FieldsFunc\<close>, \<open>strconv.ParseUint(s, 16, 64)\<close> and the verb \<open>%x\<close>.\<close>

function fields_func :: "(char \<Rightarrow> bool) \<Rightarrow> string \<Rightarrow> string list" where
  "fields_func p s =
     (case dropWhile p s of
        [] \<Rightarrow> []
      | c # cs \<Rightarrow> (c # takeWhile (\<lambda>x. \<not> p x) cs) # fields_func p (dropWhile (\<lambda>x. \<not> p x) cs))"
  by pat_completeness auto
termination
proof (relation "measure (\<lambda>(p, s). length s)")
  fix p s c and cs :: string
  assume "dropWhile p s = c # cs"
  then have "length (c # cs) \<le> length s" by (metis length_dropWhile_le)
  moreover have "length (dropWhile (\<lambda>x. \<not> p x) cs) \<le> length cs" by (rule length_dropWhile_le)
  ultimately show "((p, dropWhile (\<lambda>x. \<not> p x) cs), p, s) \<in> measure (\<lambda>(p, s). length s)" by simp
qed simp

declare fields_func.simps [simp del]

definition hex_digits :: string where
  "hex_digits = ''0123456789abcdef''"

definition hex_val :: "char \<Rightarrow> u64 option" where
  "hex_val c = map_of (zip hex_digits [0, 1, 2, 3, 4, 5, 6, 7, 8, 9, 10, 11, 12, 13, 14, 15] @
     zip ''ABCDEF'' [10, 11, 12, 13, 14, 15]) c"

fun hex_number :: "u64 \<Rightarrow> string \<Rightarrow> u64 option" where
  "hex_number n [] = Some n"
| "hex_number n (c # cs) =
     (case hex_val c of
        None \<Rightarrow> None
      | Some d \<Rightarrow>
          if n \<ge> 0x1000000000000000 then None
          else let n1 = n * 16 + d in if n1 < n * 16 then None else hex_number n1 cs)"

definition ParseUint16 :: "string \<Rightarrow> u64 option" where
  "ParseUint16 s = (if s = [] then None else hex_number 0 s)"

fun hex_string :: "nat \<Rightarrow> string" where
  "hex_string n = (if n < 16 then [hex_digits ! n] else hex_string (n div 16) @ [hex_digits ! (n mod 16)])"

declare hex_string.simps [simp del]

lemma hex_val_digit:
  assumes "d < 16" shows "hex_val (hex_digits ! d) = Some (of_nat d)"
proof -
  have "list_all (\<lambda>d. hex_val (hex_digits ! d) = Some (of_nat d)) [0..<16]" by code_simp
  then show ?thesis using assms by (simp add: list_all_iff)
qed

lemma hex_number_append: "hex_number n (s @ t) = Option.bind (hex_number n s) (\<lambda>m. hex_number m t)"
  by (induction s arbitrary: n) (simp_all add: Let_def split: option.split)

lemma hex_number_digit:
  assumes "16 * m + d < 2 ^ 64" "d < 16"
  shows "hex_number (of_nat m) [hex_digits ! d] = Some (of_nat (16 * m + d))"
proof -
  have m: "m < 2 ^ 60" using assms by simp
  then have u: "unat (of_nat m :: u64) = m" by (simp add: unat_of_nat)
  have "(of_nat m :: u64) * 16 = of_nat (16 * m)" by (simp add: mult.commute)
  then have e: "(of_nat m :: u64) * 16 + of_nat d = of_nat (16 * m + d)" by simp
  have v: "unat (of_nat (16 * m + d) :: u64) = 16 * m + d" "unat (of_nat (16 * m) :: u64) = 16 * m"
    using assms by (simp_all only: unat_of_nat) simp_all
  have "\<not> (of_nat (16 * m + d) :: u64) < of_nat m * 16"
    using v by (simp add: word_less_nat_alt mult.commute)
  moreover have "\<not> (0x1000000000000000 :: u64) \<le> of_nat m" using m u by (simp add: word_le_nat_alt)
  ultimately show ?thesis using assms(2) by (simp only: hex_number.simps hex_val_digit option.case Let_def if_False e)
qed

lemma hex_number_string: "m < 2 ^ 64 \<Longrightarrow> hex_number 0 (hex_string m) = Some (of_nat m)"
proof (induction m rule: hex_string.induct)
  case (1 m)
  show ?case
  proof (cases "m < 16")
    case True
    then show ?thesis using hex_number_digit [of 0 m] by (subst hex_string.simps) simp
  next
    case False
    have "16 * (m div 16) + m mod 16 = m" by simp
    with 1 False hex_number_digit [of "m div 16" "m mod 16"] show ?thesis
      by (subst hex_string.simps) (simp add: hex_number_append)
  qed
qed

lemma ParseUint16_hex: "ParseUint16 (hex_string (unat a)) = Some a"
proof -
  have "hex_string (unat a) \<noteq> []" by (subst hex_string.simps) simp
  moreover have "unat a < 2 ^ 64" using unsigned_less [of a] by simp
  ultimately show ?thesis by (simp add: ParseUint16_def hex_number_string)
qed

section \<open>Kernel symbols\<close>

record ksymbol =
  ks_addr :: u64
  ks_name :: string
  ks_module :: string

definition moduleKernel :: string where
  "moduleKernel = ''[kernel]''"

definition defaultSymbol :: ksymbol where
  "defaultSymbol = \<lparr>ks_addr = 0, ks_name = [], ks_module = ''[unknown]''\<rparr>"

definition ksymbolMax :: nat where
  "ksymbolMax = 300000"

text \<open>
  The first \<open>ksymbolCounter\<close> elements of \<open>ksymbolCache\<close>; the array has \<open>ksymbolMax\<close> elements, those
  behind are zero, and an index outside of it is a panic.
\<close>

type_synonym ksymbol_cache = "ksymbol list"

definition cache_at :: "ksymbol_cache \<Rightarrow> nat \<Rightarrow> ksymbol option" where
  "cache_at cache i =
     (if i < length cache then Some (cache ! i)
      else if i < ksymbolMax then Some \<lparr>ks_addr = 0, ks_name = [], ks_module = []\<rparr>
      else None)"

text \<open>One line of \<^verbatim>\<open>/proc/kallsyms\<close>: the text symbols, of the kernel or of a module.\<close>

definition ksymbol_line :: "string \<Rightarrow> ksymbol option" where
  "ksymbol_line line =
     (let words = fields_func (\<lambda>c. c = CHR '' '' \<or> c = CHR 0x09) line in
      if length words \<noteq> 3 \<and> length words \<noteq> 4 then None
      else if words ! 1 \<noteq> ''T'' \<and> words ! 1 \<noteq> ''t'' then None
      else case ParseUint16 (words ! 0) of
        None \<Rightarrow> None
      | Some addr \<Rightarrow>
          Some \<lparr>ks_addr = addr, ks_name = words ! 2,
                ks_module = (if length words = 3 then moduleKernel else words ! 3)\<rparr>)"

fun load_lines :: "string list \<Rightarrow> ksymbol_cache \<Rightarrow> ksymbol_cache option" where
  "load_lines [] cache = Some cache"
| "load_lines (line # lines) cache =
     (case ksymbol_line line of
        None \<Rightarrow> load_lines lines cache
      | Some s \<Rightarrow> if length cache < ksymbolMax then load_lines lines (cache @ [s]) else None)"

text \<open>\<open>None\<close> is a file that cannot be opened, or the panic of a table that is full.\<close>

definition loadKAllSymbols ::
    "((ksymbol \<Rightarrow> u64) \<Rightarrow> ksymbol list \<Rightarrow> ksymbol list) \<Rightarrow> string list option \<Rightarrow> ksymbol_cache option" where
  "loadKAllSymbols srt file =
     (case file of
        None \<Rightarrow> Some [defaultSymbol]
      | Some lines \<Rightarrow> map_option (srt ks_addr) (load_lines lines [defaultSymbol]))"

function ksearch_loop :: "ksymbol_cache \<Rightarrow> u64 \<Rightarrow> nat \<Rightarrow> nat \<Rightarrow> nat" where
  "ksearch_loop cache key i j =
     (if i < j then
        let h = (i + j) div 2 in
        if ks_addr (cache ! h) = key then h
        else if ks_addr (cache ! h) < key then ksearch_loop cache key (h + 1) j
        else ksearch_loop cache key i h
      else i)"
  by pat_completeness auto
termination by (relation "measure (\<lambda>(cache, key, i, j). j - i)") auto

declare ksearch_loop.simps [simp del]

definition ksymbolSearch :: "ksymbol_cache \<Rightarrow> u64 \<Rightarrow> ksymbol option" where
  "ksymbolSearch cache key =
     (let i = ksearch_loop cache key 0 (length cache) in
      case cache_at cache i of
        None \<Rightarrow> None
      | Some s \<Rightarrow>
          if ks_addr s = key then Some s
          else if i = 0 then cache_at cache 0
          else cache_at cache (i - 1))"

text \<open>The formatted frames; \<open>None\<close> is a panic of the search.\<close>

definition frame_string :: "ksymbol \<Rightarrow> string" where
  "frame_string s = ks_name s @ ''/'' @ hex_string (unat (ks_addr s)) @ '' '' @ ks_module s"

fun trace_frames :: "ksymbol_cache \<Rightarrow> u64 list \<Rightarrow> string list option" where
  "trace_frames cache [] = Some []"
| "trace_frames cache (addr # addrs) =
     (case ksymbolSearch cache addr of
        None \<Rightarrow> None
      | Some s \<Rightarrow> map_option (\<lambda>fs. if ks_name s \<noteq> [] then frame_string s # fs else fs)
          (trace_frames cache addrs))"

definition DumpKernelBackTrace :: "ksymbol_cache \<Rightarrow> u64 list \<Rightarrow> nat \<Rightarrow> string list option" where
  "DumpKernelBackTrace cache stack maxDepth =
     trace_frames cache (takeWhile (\<lambda>a. a \<noteq> 0) (take maxDepth stack))"

subsection \<open>The search\<close>

text \<open>Where the search stops in a sorted table: at the key, or at the first greater address.\<close>

definition stops_at :: "ksymbol_cache \<Rightarrow> u64 \<Rightarrow> nat \<Rightarrow> bool" where
  "stops_at cache key r \<longleftrightarrow> r \<le> length cache \<and> (\<forall>k<r. ks_addr (cache ! k) \<le> key) \<and>
     (r < length cache \<and> ks_addr (cache ! r) = key \<or>
      (\<forall>k<r. ks_addr (cache ! k) < key) \<and> (\<forall>k<length cache. r \<le> k \<longrightarrow> key < ks_addr (cache ! k)))"

lemma ksearch_loop_stop:
  assumes s: "sorted (map ks_addr cache)"
    and "i \<le> j" "j \<le> length cache"
    and "\<And>k. k < i \<Longrightarrow> ks_addr (cache ! k) < key"
    and "\<And>k. j \<le> k \<Longrightarrow> k < length cache \<Longrightarrow> key < ks_addr (cache ! k)"
  shows "stops_at cache key (ksearch_loop cache key i j)"
  using assms(2-5)
proof (induction "j - i" arbitrary: i j rule: less_induct)
  case less
  have mono: "ks_addr (cache ! a) \<le> ks_addr (cache ! b)" if "a \<le> b" "b < length cache" for a b
    using sorted_nth_mono [OF s, of a b] that by simp
  show ?case
  proof (cases "i < j")
    case True
    define h where "h = (i + j) div 2"
    have h: "i \<le> h" "h < j" "h < length cache" using True less.prems(2) by (auto simp: h_def)
    have eq: "ksearch_loop cache key i j =
        (if ks_addr (cache ! h) = key then h
         else if ks_addr (cache ! h) < key then ksearch_loop cache key (h + 1) j
         else ksearch_loop cache key i h)"
      using True by (subst ksearch_loop.simps) (simp add: Let_def h_def)
    consider "ks_addr (cache ! h) = key" | "ks_addr (cache ! h) < key" | "key < ks_addr (cache ! h)"
      by (rule linorder_cases)
    then show ?thesis
    proof cases
      case 1
      have "ks_addr (cache ! k) \<le> key" if "k < h" for k using mono [of k h] that h(3) 1 by simp
      with 1 h(3) show ?thesis by (simp add: eq stops_at_def)
    next
      case 2
      have "stops_at cache key (ksearch_loop cache key (h + 1) j)"
      proof (rule less.hyps)
        show "ks_addr (cache ! k) < key" if "k < h + 1" for k
          using mono [of k h] that h(3) 2 by simp
      qed (use h less.prems in simp_all)
      with 2 show ?thesis by (auto simp: eq)
    next
      case 3
      have "stops_at cache key (ksearch_loop cache key i h)"
      proof (rule less.hyps)
        show "key < ks_addr (cache ! k)" if "h \<le> k" "k < length cache" for k
          using mono [OF that] 3 by simp
      qed (use h less.prems in simp_all)
      with 3 show ?thesis by (auto simp: eq)
    qed
  next
    case False
    then have "ksearch_loop cache key i j = i" "i = j"
      using less.prems(1) by (simp_all add: ksearch_loop.simps)
    with less.prems show ?thesis by (simp add: stops_at_def less_imp_le)
  qed
qed

lemma ksymbolSearch_sorted:
  assumes "sorted (map ks_addr cache)" "length cache < ksymbolMax" "cache \<noteq> []" "ks_addr (cache ! 0) = 0"
  shows "\<exists>s. ksymbolSearch cache key = Some s \<and> s \<in> set cache \<and> ks_addr s \<le> key \<and>
    (\<forall>t\<in>set cache. ks_addr t \<le> key \<longrightarrow> ks_addr t \<le> ks_addr s)"
proof -
  define r where "r = ksearch_loop cache key 0 (length cache)"
  have "stops_at cache key r" unfolding r_def by (rule ksearch_loop_stop [OF assms(1)]) simp_all
  then have r: "r \<le> length cache" "\<And>k. k < r \<Longrightarrow> ks_addr (cache ! k) \<le> key"
    "r < length cache \<and> ks_addr (cache ! r) = key \<or>
      (\<forall>k<r. ks_addr (cache ! k) < key) \<and> (\<forall>k<length cache. r \<le> k \<longrightarrow> key < ks_addr (cache ! k))"
    by (simp_all add: stops_at_def)
  have mono: "ks_addr (cache ! a) \<le> ks_addr (cache ! b)" if "a \<le> b" "b < length cache" for a b
    using sorted_nth_mono [OF assms(1), of a b] that by simp
  show ?thesis
  proof (cases "r < length cache \<and> ks_addr (cache ! r) = key")
    case True
    then show ?thesis
      by (intro exI [of _ "cache ! r"]) (simp add: ksymbolSearch_def r_def [symmetric] cache_at_def)
  next
    case False
    with r(3) have lt: "\<And>k. k < r \<Longrightarrow> ks_addr (cache ! k) < key"
      and gt: "\<And>k. k < length cache \<Longrightarrow> r \<le> k \<Longrightarrow> key < ks_addr (cache ! k)" by auto
    have "0 < r" using gt [of 0] assms(3,4) by (cases r) auto
    have last: "r - 1 < length cache" using r(1) \<open>0 < r\<close> by simp
    have greater: "key < ks_addr t \<or> ks_addr t \<le> ks_addr (cache ! (r - 1))" if "t \<in> set cache" for t
    proof -
      from that obtain k where k: "k < length cache" "t = cache ! k" by (auto simp: in_set_conv_nth)
      show ?thesis
      proof (cases "r \<le> k")
        case True
        then show ?thesis using gt k by simp
      next
        case False
        then show ?thesis using mono [of k "r - 1"] last k by simp
      qed
    qed
    have "ksymbolSearch cache key = Some (cache ! (r - 1))"
    proof (cases "r < length cache")
      case True
      with gt have "ks_addr (cache ! r) \<noteq> key" by (metis order_refl less_irrefl)
      with True last \<open>0 < r\<close> show ?thesis by (simp add: ksymbolSearch_def r_def [symmetric] cache_at_def)
    next
      case False
      have "key \<noteq> 0" using lt [OF \<open>0 < r\<close>] by auto
      with False last \<open>0 < r\<close> r(1) assms(2) show ?thesis
        by (simp add: ksymbolSearch_def r_def [symmetric] cache_at_def)
    qed
    moreover have "cache ! (r - 1) \<in> set cache" "ks_addr (cache ! (r - 1)) \<le> key"
      using last r(2) [of "r - 1"] \<open>0 < r\<close> by simp_all
    moreover have "\<forall>t\<in>set cache. ks_addr t \<le> key \<longrightarrow> ks_addr t \<le> ks_addr (cache ! (r - 1))"
      using greater by fastforce
    ultimately show ?thesis by blast
  qed
qed

subsection \<open>From the file to the symbol\<close>

lemma load_lines_set:
  "load_lines lines cache = Some cache' \<Longrightarrow> set cache' = set cache \<union> set (List.map_filter ksymbol_line lines)"
proof (induction lines arbitrary: cache)
  case (Cons line lines)
  then show ?case
    by (cases "ksymbol_line line") (auto simp: List.map_filter_simps split: if_splits)
qed (simp add: List.map_filter_simps)

text \<open>
  C3. Kernel symbols: for every content of \<^verbatim>\<open>/proc/kallsyms\<close> that leaves room in the table, the
  search for an address ends and returns a text symbol of the file with the greatest address
  not above it, or the symbol of unknown code if there is none. This holds for every
  sorting function.
\<close>

theorem ksymbolSearch_greatest:
  assumes "go_sort srt" "loadKAllSymbols srt (Some lines) = Some cache" "length cache < ksymbolMax"
  defines "syms \<equiv> insert defaultSymbol (set (List.map_filter ksymbol_line lines))"
  shows "\<exists>s\<in>syms. ksymbolSearch cache key = Some s \<and> ks_addr s \<le> key \<and>
    (\<forall>t\<in>syms. ks_addr t \<le> key \<longrightarrow> ks_addr t \<le> ks_addr s)"
proof -
  obtain xs where xs: "load_lines lines [defaultSymbol] = Some xs" "cache = srt ks_addr xs"
    using assms(2) by (auto simp: loadKAllSymbols_def)
  have set: "set cache = syms"
    using load_lines_set [OF xs(1)] by (simp add: xs(2) go_sort.sort_set [OF assms(1)] syms_def)
  have sorted: "sorted (map ks_addr cache)" by (simp add: xs(2) go_sort.sort_sorted [OF assms(1)])
  have "cache \<noteq> []" using set by (auto simp: syms_def)
  obtain k where k: "k < length cache" "cache ! k = defaultSymbol"
    using set by (metis in_set_conv_nth insertI1 syms_def)
  have "ks_addr (cache ! 0) \<le> ks_addr (cache ! k)"
    using sorted_nth_mono [OF sorted, of 0 k] k(1) \<open>cache \<noteq> []\<close> by simp
  then have "ks_addr (cache ! 0) = 0" by (simp add: k(2) defaultSymbol_def)
  from ksymbolSearch_sorted [OF sorted assms(3) \<open>cache \<noteq> []\<close> this, of key] show ?thesis
    unfolding set by blast
qed

definition kallsyms_example :: "string list" where
  "kallsyms_example = [''ffff0020 t nf_hook [nf]'', ''ffff0010 T kfree_skb'', ''ffff0018 D data'']"

lemma kallsyms_example_lines:
  "ksymbol_line ''ffff0020 t nf_hook [nf]'' =
     Some \<lparr>ks_addr = 0xffff0020, ks_name = ''nf_hook'', ks_module = ''[nf]''\<rparr>"
  "ksymbol_line ''ffff0010 T kfree_skb'' =
     Some \<lparr>ks_addr = 0xffff0010, ks_name = ''kfree_skb'', ks_module = ''[kernel]''\<rparr>"
  "ksymbol_line ''ffff0018 D data'' = None"
  by code_simp+

lemma kallsyms_example_load:
  "loadKAllSymbols sort_key (Some kallsyms_example) = Some (sort_key ks_addr
     [defaultSymbol, \<lparr>ks_addr = 0xffff0020, ks_name = ''nf_hook'', ks_module = ''[nf]''\<rparr>,
      \<lparr>ks_addr = 0xffff0010, ks_name = ''kfree_skb'', ks_module = ''[kernel]''\<rparr>])"
  by (simp add: loadKAllSymbols_def kallsyms_example_def kallsyms_example_lines ksymbolMax_def
      del: sort_key_simps)

theorem ksymbolSearch_greatest_witness:
  "\<exists>s. ksymbolSearch (the (loadKAllSymbols sort_key (Some kallsyms_example))) 0xffff001f = Some s \<and>
     ks_addr s = 0xffff0010"
proof -
  have n: "length (the (loadKAllSymbols sort_key (Some kallsyms_example))) < ksymbolMax"
    by (simp add: kallsyms_example_load ksymbolMax_def)
  have c: "loadKAllSymbols sort_key (Some kallsyms_example) =
      Some (the (loadKAllSymbols sort_key (Some kallsyms_example)))"
    by (simp add: kallsyms_example_load)
  have s: "List.map_filter ksymbol_line kallsyms_example =
     [\<lparr>ks_addr = 0xffff0020, ks_name = ''nf_hook'', ks_module = ''[nf]''\<rparr>,
      \<lparr>ks_addr = 0xffff0010, ks_name = ''kfree_skb'', ks_module = ''[kernel]''\<rparr>]"
    by (simp add: kallsyms_example_def kallsyms_example_lines List.map_filter_simps)
  show ?thesis
    using ksymbolSearch_greatest [OF stable.go_sort_axioms c n, of "0xffff001f"]
    unfolding s by (auto simp: defaultSymbol_def)
qed

text \<open>A back trace ends at the first zero address; every frame is a symbol below its address.\<close>

lemma trace_frames_length: "trace_frames cache addrs = Some fs \<Longrightarrow> length fs \<le> length addrs"
  by (induction addrs arbitrary: fs) (auto split: option.splits if_splits intro: le_SucI)

lemma trace_frames_total:
  assumes "sorted (map ks_addr cache)" "length cache < ksymbolMax" "cache \<noteq> []" "ks_addr (cache ! 0) = 0"
  shows "\<exists>fs. DumpKernelBackTrace cache stack n = Some fs \<and> length fs \<le> n"
proof -
  have "\<exists>fs. trace_frames cache addrs = Some fs" for addrs
  proof (induction addrs)
    case (Cons a addrs)
    with ksymbolSearch_sorted [OF assms, of a] show ?case by auto
  qed simp
  then obtain fs where fs: "trace_frames cache (takeWhile (\<lambda>a. a \<noteq> 0) (take n stack)) = Some fs" by blast
  have "length (takeWhile (\<lambda>a. a \<noteq> 0) (take n stack)) \<le> length (take n stack)"
    by (rule length_takeWhile_le)
  with trace_frames_length [OF fs] have "length fs \<le> n" by simp
  with fs show ?thesis by (simp add: DumpKernelBackTrace_def)
qed

section \<open>User symbols\<close>

record usymbol =
  us_name :: string
  us_start :: u64
  us_size :: u64

datatype section_type = Elftype | Libtype

record usection =
  se_name :: string
  se_start :: u64
  se_end :: u64
  se_type :: section_type

record elfcache =
  ec_sections :: "usection list"
  ec_symcaches :: "usymbol list"

record usym =
  um_elfcaches :: "u32 \<rightharpoonup> elfcache"
  um_libcaches :: "string \<rightharpoonup> usymbol list"

definition NewUsym :: usym where
  "NewUsym = \<lparr>um_elfcaches = Map.empty, um_libcaches = Map.empty\<rparr>"

text \<open>
  The files: the path of the executable of a process, the sections and the two symbol tables of
  an ELF file (a table that cannot be read is \<open>None\<close>), the mappings of a process as the kernel lists
  them (start, end, and the path where the line has one), and the path of a library as the agent
  sees it. Otherwise \<open>None\<close> is an error.
\<close>

record elf_symbol =
  es_name :: string
  es_func :: bool
  es_value :: u64
  es_size :: u64

record elf_file =
  el_sections :: "(string \<times> u64 \<times> u64) list"
  el_dynsymbols :: "elf_symbol list option"
  el_symbols :: "elf_symbol list option"

record usym_files =
  exe_path :: "u32 \<Rightarrow> string option"
  open_elf :: "string \<Rightarrow> elf_file option"
  proc_maps :: "u32 \<Rightarrow> (u64 \<times> u64 \<times> string option) list option"
  lib_path :: "u32 \<Rightarrow> string \<Rightarrow> string"

definition func_symbols :: "elf_symbol list option \<Rightarrow> usymbol list" where
  "func_symbols tab =
     (case tab of
        None \<Rightarrow> []
      | Some syms \<Rightarrow> map (\<lambda>s. \<lparr>us_name = es_name s, us_start = es_value s, us_size = es_size s\<rparr>) (filter es_func syms))"

definition getElfSymbols :: "elf_file \<Rightarrow> usymbol list" where
  "getElfSymbols f = func_symbols (el_dynsymbols f) @ func_symbols (el_symbols f)"

definition backedArr :: "string list" where
  "backedArr = [''anon_inode:[perf_event]'', ''[stack]'', ''[vvar]'', ''[vdso]'', ''[vsyscall]'', ''[heap]'', ''//anon'',
     ''/dev/zero'', ''/anon_hugepage'', ''/SYSV'']"

definition isInBacked :: "string \<Rightarrow> bool" where
  "isInBacked str \<longleftrightarrow> str \<in> set backedArr"

fun map_sections :: "(u64 \<times> u64 \<times> string option) list \<Rightarrow> usection list" where
  "map_sections [] = []"
| "map_sections ((startNum, endNum, path) # lines) =
     (case path of
        None \<Rightarrow> map_sections lines
      | Some path \<Rightarrow>
          if \<not> isInBacked path
          then \<lparr>se_name = path, se_start = startNum, se_end = endNum, se_type = Libtype\<rparr> # map_sections lines
          else map_sections lines)"

definition elf_sections :: "elf_file \<Rightarrow> usection list" where
  "elf_sections f = map (\<lambda>(name, addr, size). \<lparr>se_name = name, se_start = addr, se_end = addr + size, se_type = Elftype\<rparr>)
     (el_sections f)"

text \<open>What \<open>loadElfCaches\<close> and \<open>loadLibCache\<close> read, before it is sorted.\<close>

definition read_elf :: "usym_files \<Rightarrow> u32 \<Rightarrow> (usection list \<times> usymbol list) option" where
  "read_elf fs pid =
     (case exe_path fs pid of
        None \<Rightarrow> None
      | Some path \<Rightarrow>
          if path = [] then None
          else case open_elf fs path of
            None \<Rightarrow> None
          | Some f \<Rightarrow>
              (case proc_maps fs pid of
                 None \<Rightarrow> None
               | Some lines \<Rightarrow> Some (elf_sections f @ map_sections lines, getElfSymbols f)))"

definition read_lib :: "usym_files \<Rightarrow> string \<Rightarrow> usymbol list option" where
  "read_lib fs libPath = map_option getElfSymbols (open_elf fs libPath)"

text \<open>The two sorts, for sections and for symbols, are arguments.\<close>

definition loadElfCaches ::
    "((usection \<Rightarrow> u64) \<Rightarrow> usection list \<Rightarrow> usection list) \<Rightarrow> ((usymbol \<Rightarrow> u64) \<Rightarrow> usymbol list \<Rightarrow> usymbol list) \<Rightarrow>
     usym_files \<Rightarrow> u32 \<Rightarrow> usym \<Rightarrow> usym option" where
  "loadElfCaches srt srt' fs pid m =
     (if um_elfcaches m pid \<noteq> None then Some m
      else case read_elf fs pid of
        None \<Rightarrow> None
      | Some (secs, syms) \<Rightarrow>
          Some (m\<lparr>um_elfcaches := (um_elfcaches m)(pid \<mapsto>
             \<lparr>ec_sections = srt se_start secs, ec_symcaches = srt' us_start syms\<rparr>)\<rparr>))"

definition loadLibCache ::
    "((usymbol \<Rightarrow> u64) \<Rightarrow> usymbol list \<Rightarrow> usymbol list) \<Rightarrow> usym_files \<Rightarrow> string \<Rightarrow> usym \<Rightarrow> usym option" where
  "loadLibCache srt' fs libPath m =
     (if um_libcaches m libPath \<noteq> None then Some m
      else case read_lib fs libPath of
        None \<Rightarrow> None
      | Some syms \<Rightarrow> Some (m\<lparr>um_libcaches := (um_libcaches m)(libPath \<mapsto> srt' us_start syms)\<rparr>))"

text \<open>\<open>None\<close> is the empty section.\<close>

definition searchSection :: "usym \<Rightarrow> u32 \<Rightarrow> u64 \<Rightarrow> usection option" where
  "searchSection m pid addr =
     (case um_elfcaches m pid of
        None \<Rightarrow> None
      | Some elf \<Rightarrow>
          let progsection = ec_sections elf;
              index = sort_Search (length progsection) (\<lambda>i. se_start (progsection ! i) > addr) in
          if index = length progsection then None
          else if index = 0 then None
          else let s = progsection ! (index - 1) in
            if se_name s \<noteq> [] \<and> addr \<le> se_end s \<and> addr \<ge> se_start s then Some s else None)"

definition searchSym :: "u64 \<Rightarrow> usymbol list \<Rightarrow> string" where
  "searchSym addr symbols =
     (let index = sort_Search (length symbols) (\<lambda>i. us_start (symbols ! i) > addr) in
      if index = length symbols then []
      else if index = 0 then []
      else let s = symbols ! (index - 1) in
        if us_name s \<noteq> [] \<and> addr \<ge> us_start s \<and> addr < us_start s + us_size s then us_name s
        else ''<unknown>'')"

definition ResolveUstack ::
    "((usection \<Rightarrow> u64) \<Rightarrow> usection list \<Rightarrow> usection list) \<Rightarrow> ((usymbol \<Rightarrow> u64) \<Rightarrow> usymbol list \<Rightarrow> usymbol list) \<Rightarrow>
     usym_files \<Rightarrow> u64 \<Rightarrow> u32 \<Rightarrow> usym \<Rightarrow> usym \<times> string" where
  "ResolveUstack srt srt' fs addr pid m =
     (case loadElfCaches srt srt' fs pid m of
        None \<Rightarrow> (m, [])
      | Some m \<Rightarrow>
          case searchSection m pid addr of
            None \<Rightarrow> (m, [])
          | Some sec \<Rightarrow>
              if se_type sec = Elftype then
                (case um_elfcaches m pid of
                   None \<Rightarrow> (m, [])
                 | Some elf \<Rightarrow> (m, searchSym addr (ec_symcaches elf)))
              else
                let libpath = lib_path fs pid (se_name sec) in
                case loadLibCache srt' fs libpath m of
                  None \<Rightarrow> (m, [])
                | Some m \<Rightarrow>
                    (case um_libcaches m libpath of
                       None \<Rightarrow> (m, [])
                     | Some syms \<Rightarrow> (m, searchSym (addr - se_start sec) syms)))"

subsection \<open>The searches, without indices\<close>

text \<open>
  The element before the first one that starts above the address, if there are both: the last
  one that starts at or below it, unless it is the last of all.
\<close>

definition last_below :: "('a \<Rightarrow> u64) \<Rightarrow> u64 \<Rightarrow> 'a list \<Rightarrow> 'a option" where
  "last_below start addr xs =
     (let below = filter (\<lambda>x. start x \<le> addr) xs in
      if below = [] \<or> length below = length xs then None else Some (last below))"

lemma filter_sorted_prefix:
  assumes "sorted (map start xs)"
  shows "filter (\<lambda>x. start x \<le> addr) xs = takeWhile (\<lambda>x. start x \<le> addr) xs"
  using assms
proof (induction xs)
  case (Cons a xs)
  show ?case
  proof (cases "start a \<le> addr")
    case False
    with Cons.prems have "filter (\<lambda>x. start x \<le> addr) xs = []" by (auto simp: filter_empty_conv)
    with False show ?thesis by simp
  qed (use Cons in simp)
qed simp

lemma sort_Search_below:
  assumes "sorted (map start xs)"
  shows "sort_Search (length xs) (\<lambda>i. start (xs ! i) > addr) = length (filter (\<lambda>x. start x \<le> addr) xs)"
    (is "?r = length ?below")
proof -
  let ?f = "\<lambda>i. start (xs ! i) > addr"
  have mono: "?f b" if "a \<le> b" "b < length xs" "?f a" for a b
    using sorted_nth_mono [OF assms, of a b] that by simp
  have r: "?r \<le> length xs" "\<And>k. k < length xs \<Longrightarrow> ?f k \<longleftrightarrow> ?r \<le> k"
    using sort_Search_least [of "length xs" ?f] mono by blast+
  have "takeWhile (\<lambda>x. start x \<le> addr) xs = take ?r xs"
    using r by (intro takeWhile_eq_take_P_nth) (auto simp: not_less [symmetric])
  then show ?thesis using r(1) by (simp add: filter_sorted_prefix [OF assms])
qed

lemma search_last_below:
  fixes start :: "'a \<Rightarrow> u64" and addr :: u64
  assumes "sorted (map start xs)"
  defines "index \<equiv> sort_Search (length xs) (\<lambda>i. start (xs ! i) > addr)"
  shows "last_below start addr xs =
     (if index = length xs \<or> index = 0 then None else Some (xs ! (index - 1)))"
proof -
  define below where "below = filter (\<lambda>x. start x \<le> addr) xs"
  have i: "index = length below" by (simp add: index_def sort_Search_below [OF assms(1)] below_def)
  have "below = take index xs"
    unfolding i by (metis below_def filter_sorted_prefix [OF assms(1)] takeWhile_eq_take)
  moreover have "index \<le> length xs" by (simp add: i below_def)
  ultimately have "last below = xs ! (index - 1)" if "index \<noteq> 0"
    using that last_conv_nth [of "take index xs"] by (cases xs) auto
  then show ?thesis by (auto simp: last_below_def below_def [symmetric] i Let_def)
qed

definition symbol_at :: "u64 \<Rightarrow> usymbol list \<Rightarrow> string" where
  "symbol_at addr syms =
     (case last_below us_start addr syms of
        None \<Rightarrow> []
      | Some s \<Rightarrow> if us_name s \<noteq> [] \<and> us_start s \<le> addr \<and> addr < us_start s + us_size s then us_name s
                  else ''<unknown>'')"

lemma searchSym_eq: "sorted (map us_start syms) \<Longrightarrow> searchSym addr syms = symbol_at addr syms"
  by (simp add: searchSym_def symbol_at_def search_last_below Let_def)

text \<open>No address in the last function of a table is ever resolved.\<close>

lemma searchSym_last:
  assumes "sorted (map us_start syms)" "syms \<noteq> []" "us_start (last syms) \<le> addr"
  shows "searchSym addr syms = []"
proof -
  have "us_start s \<le> addr" if "s \<in> set syms" for s
  proof -
    from that obtain k where "k < length syms" "s = syms ! k" by (auto simp: in_set_conv_nth)
    with sorted_nth_mono [OF assms(1), of k "length syms - 1"] have "us_start s \<le> us_start (last syms)"
      by (simp add: last_conv_nth [OF assms(2)])
    also note assms(3)
    finally show ?thesis .
  qed
  then have "filter (\<lambda>s. us_start s \<le> addr) syms = syms" by simp
  then show ?thesis by (simp add: searchSym_eq [OF assms(1)] symbol_at_def last_below_def)
qed

subsection \<open>The caches do not change the answers\<close>

definition section_at :: "u64 \<Rightarrow> usection list \<Rightarrow> usection option" where
  "section_at addr secs =
     (case last_below se_start addr secs of
        None \<Rightarrow> None
      | Some s \<Rightarrow> if se_name s \<noteq> [] \<and> addr \<le> se_end s \<and> se_start s \<le> addr then Some s else None)"

text \<open>The resolution of one address from the files alone.\<close>

definition user_symbol ::
    "((usection \<Rightarrow> u64) \<Rightarrow> usection list \<Rightarrow> usection list) \<Rightarrow> ((usymbol \<Rightarrow> u64) \<Rightarrow> usymbol list \<Rightarrow> usymbol list) \<Rightarrow>
     usym_files \<Rightarrow> u64 \<times> u32 \<Rightarrow> string" where
  "user_symbol srt srt' fs = (\<lambda>(addr, pid).
     case read_elf fs pid of
       None \<Rightarrow> []
     | Some (secs, syms) \<Rightarrow>
         (case section_at addr (srt se_start secs) of
            None \<Rightarrow> []
          | Some sec \<Rightarrow>
              if se_type sec = Elftype then symbol_at addr (srt' us_start syms)
              else case read_lib fs (lib_path fs pid (se_name sec)) of
                None \<Rightarrow> []
              | Some lib \<Rightarrow> symbol_at (addr - se_start sec) (srt' us_start lib)))"

definition usym_ok ::
    "((usection \<Rightarrow> u64) \<Rightarrow> usection list \<Rightarrow> usection list) \<Rightarrow> ((usymbol \<Rightarrow> u64) \<Rightarrow> usymbol list \<Rightarrow> usymbol list) \<Rightarrow>
     usym_files \<Rightarrow> usym \<Rightarrow> bool" where
  "usym_ok srt srt' fs m \<longleftrightarrow>
     (\<forall>pid. um_elfcaches m pid \<noteq> None \<longrightarrow> um_elfcaches m pid = map_option
        (\<lambda>(secs, syms). \<lparr>ec_sections = srt se_start secs, ec_symcaches = srt' us_start syms\<rparr>) (read_elf fs pid)) \<and>
     (\<forall>path. um_libcaches m path \<noteq> None \<longrightarrow>
        um_libcaches m path = map_option (srt' us_start) (read_lib fs path))"

lemma loadElfCaches_ok:
  assumes "usym_ok srt srt' fs m"
  shows "loadElfCaches srt srt' fs pid m = None \<longleftrightarrow> read_elf fs pid = None"
    and "loadElfCaches srt srt' fs pid m = Some m' \<Longrightarrow> usym_ok srt srt' fs m'"
    and "loadElfCaches srt srt' fs pid m = Some m' \<Longrightarrow> read_elf fs pid = Some (secs, syms) \<Longrightarrow>
      um_elfcaches m' pid = Some \<lparr>ec_sections = srt se_start secs, ec_symcaches = srt' us_start syms\<rparr>"
proof -
  have c: "um_elfcaches m pid \<noteq> None \<Longrightarrow> um_elfcaches m pid = map_option
      (\<lambda>(secs, syms). \<lparr>ec_sections = srt se_start secs, ec_symcaches = srt' us_start syms\<rparr>) (read_elf fs pid)"
    using assms by (simp add: usym_ok_def)
  show "loadElfCaches srt srt' fs pid m = None \<longleftrightarrow> read_elf fs pid = None"
    and "loadElfCaches srt srt' fs pid m = Some m' \<Longrightarrow> read_elf fs pid = Some (secs, syms) \<Longrightarrow>
      um_elfcaches m' pid = Some \<lparr>ec_sections = srt se_start secs, ec_symcaches = srt' us_start syms\<rparr>"
    using c by (cases "um_elfcaches m pid"; auto simp: loadElfCaches_def split: option.splits if_splits)+
  show "loadElfCaches srt srt' fs pid m = Some m' \<Longrightarrow> usym_ok srt srt' fs m'"
    using assms by (auto simp: loadElfCaches_def usym_ok_def split: option.splits if_splits)
qed

lemma loadLibCache_ok:
  assumes "usym_ok srt srt' fs m"
  shows "loadLibCache srt' fs path m = None \<longleftrightarrow> read_lib fs path = None"
    and "loadLibCache srt' fs path m = Some m' \<Longrightarrow> usym_ok srt srt' fs m'"
    and "loadLibCache srt' fs path m = Some m' \<Longrightarrow> read_lib fs path = Some lib \<Longrightarrow>
      um_libcaches m' path = Some (srt' us_start lib)"
proof -
  have c: "um_libcaches m path \<noteq> None \<Longrightarrow> um_libcaches m path = map_option (srt' us_start) (read_lib fs path)"
    using assms by (simp add: usym_ok_def)
  show "loadLibCache srt' fs path m = None \<longleftrightarrow> read_lib fs path = None"
    and "loadLibCache srt' fs path m = Some m' \<Longrightarrow> read_lib fs path = Some lib \<Longrightarrow>
      um_libcaches m' path = Some (srt' us_start lib)"
    using c by (cases "um_libcaches m path"; auto simp: loadLibCache_def split: option.splits if_splits)+
  show "loadLibCache srt' fs path m = Some m' \<Longrightarrow> usym_ok srt srt' fs m'"
    using assms by (auto simp: loadLibCache_def usym_ok_def split: option.splits if_splits)
qed

lemma searchSection_eq:
  assumes "um_elfcaches m pid = Some elf" "sorted (map se_start (ec_sections elf))"
  shows "searchSection m pid addr = section_at addr (ec_sections elf)"
  using assms by (simp add: searchSection_def section_at_def search_last_below Let_def)

lemma ResolveUstack_step:
  assumes "go_sort srt" "go_sort srt'" "usym_ok srt srt' fs m"
  shows "snd (ResolveUstack srt srt' fs addr pid m) = user_symbol srt srt' fs (addr, pid)"
    and "usym_ok srt srt' fs (fst (ResolveUstack srt srt' fs addr pid m))"
proof -
  note ok = loadElfCaches_ok [OF assms(3)]
  have "snd (ResolveUstack srt srt' fs addr pid m) = user_symbol srt srt' fs (addr, pid) \<and>
    usym_ok srt srt' fs (fst (ResolveUstack srt srt' fs addr pid m))"
  proof (cases "loadElfCaches srt srt' fs pid m")
    case None
    with ok(1) [of pid] have "read_elf fs pid = None" by simp
    with None assms(3) show ?thesis by (simp add: ResolveUstack_def user_symbol_def)
  next
    case (Some m1)
    then obtain secs syms where e: "read_elf fs pid = Some (secs, syms)" using ok(1) [of pid] by auto
    note m1 = ok(2) [OF Some] and elf = ok(3) [OF Some e]
    have sec: "searchSection m1 pid addr = section_at addr (srt se_start secs)"
      using searchSection_eq [OF elf] by (simp add: go_sort.sort_sorted [OF assms(1)])
    note sym = searchSym_eq [OF go_sort.sort_sorted [OF assms(2)]]
    note defs = ResolveUstack_def user_symbol_def Some e sec elf sym
    show ?thesis
    proof (cases "section_at addr (srt se_start secs)")
      case None
      with m1 show ?thesis by (simp add: defs)
    next
      case s: (Some s)
      define path where "path = lib_path fs pid (se_name s)"
      note lib = loadLibCache_ok [OF m1, of path]
      show ?thesis
      proof (cases "se_type s")
        case Elftype
        with m1 s show ?thesis by (simp add: defs)
      next
        case Libtype
        show ?thesis
        proof (cases "loadLibCache srt' fs path m1")
          case None
          with lib(1) have "read_lib fs path = None" by simp
          with None m1 s Libtype show ?thesis by (simp add: defs path_def [symmetric] Let_def)
        next
          case m2: (Some m2)
          then obtain l where "read_lib fs path = Some l" using lib(1) by auto
          with lib(2,3) m2 s Libtype show ?thesis by (simp add: defs path_def [symmetric] Let_def)
        qed
      qed
    qed
  qed
  then show "snd (ResolveUstack srt srt' fs addr pid m) = user_symbol srt srt' fs (addr, pid)"
    "usym_ok srt srt' fs (fst (ResolveUstack srt srt' fs addr pid m))" by simp_all
qed

fun resolve_all ::
    "((usection \<Rightarrow> u64) \<Rightarrow> usection list \<Rightarrow> usection list) \<Rightarrow> ((usymbol \<Rightarrow> u64) \<Rightarrow> usymbol list \<Rightarrow> usymbol list) \<Rightarrow>
     usym_files \<Rightarrow> (u64 \<times> u32) list \<Rightarrow> usym \<Rightarrow> string list" where
  "resolve_all srt srt' fs [] m = []"
| "resolve_all srt srt' fs ((addr, pid) # qs) m =
     (case ResolveUstack srt srt' fs addr pid m of (m', s) \<Rightarrow> s # resolve_all srt srt' fs qs m')"


definition files_example :: usym_files where
  "files_example = \<lparr>
     exe_path = (\<lambda>pid. if pid = 7 then Some ''/bin/prog'' else None),
     open_elf = (\<lambda>path. if path = ''/bin/prog'' then Some
       \<lparr>el_sections = [(''.text'', 0x1000, 0x1000)], el_dynsymbols = None,
        el_symbols = Some [\<lparr>es_name = ''stop'', es_func = True, es_value = 0x1200, es_size = 0x10\<rparr>,
          \<lparr>es_name = ''data'', es_func = False, es_value = 0x1110, es_size = 0x10\<rparr>,
          \<lparr>es_name = ''main'', es_func = True, es_value = 0x1100, es_size = 0x80\<rparr>]\<rparr> else None),
     proc_maps = (\<lambda>pid. Some [(0x6000, 0x6800, Some ''[heap]''), (0x7000, 0x9000, Some ''/lib/c.so'')]),
     lib_path = (\<lambda>_ name. name)\<rparr>"

lemmas files_example_eval = files_example_def read_elf_def read_lib_def elf_sections_def getElfSymbols_def
  func_symbols_def isInBacked_def backedArr_def


end
