(* ===== verification/Flamegraph.thy ===== *)
theory Flamegraph
  imports Bpf_Prelude "HOL-Library.Multiset"
begin

text \<open>
  Flame graphs, \<^verbatim>\<open>internal/flamegraph/flamegraph.go\<close> and the second half of \<open>parsedata\<close> in
  \<^verbatim>\<open>cmd/perf/parsedata.go\<close>: a profile comes in rows of bars, one row per depth (the format of
  pyroscope), is turned into a tree of nodes on the heap, and is then listed depth first with
  the labels encoded as indices (the format of grafana). The heap is a list of nodes, the
  address of a node is its position. \<open>None\<close> is a panic.
\<close>

section \<open>Rows to tree\<close>

text \<open>The arithmetic of \<open>int64\<close>.\<close>

definition i64 :: "int \<Rightarrow> int" where
  "i64 x = signed_take_bit 63 x"

lemma i64_small: "- (2 ^ 63) \<le> x \<Longrightarrow> x < 2 ^ 63 \<Longrightarrow> i64 x = x"
  by (simp add: i64_def signed_take_bit_int_eq_self)

record pnode =
  pt_start :: int
  pt_value :: int
  pt_self :: int
  pt_level :: nat
  pt_name :: string
  pt_nodes :: "nat list"

type_synonym heap = "pnode list"

definition name_at :: "string list \<Rightarrow> int \<Rightarrow> string option" where
  "name_at names i = (if 0 \<le> i \<and> i < int (length names) then Some (names ! nat i) else None)"

text \<open>
  The loop over the bars of a row: the values from \<open>itemIndex\<close> on, the offset, the current
  parent, the parents that follow it, the parents of the next row, and the heap.
\<close>

fun level_items :: "string list \<Rightarrow> nat \<Rightarrow> int list \<Rightarrow> int \<Rightarrow> nat \<Rightarrow> nat list \<Rightarrow> nat list \<Rightarrow> heap \<Rightarrow>
    (heap \<times> nat list) option" where
  "level_items names lvl [] offset cur parents nxt h = Some (h, nxt)"
| "level_items names lvl (s # v # w # vals) offset cur parents nxt h =
     (let itemStart = i64 (s + offset);
          itemEnd = i64 (itemStart + v);
          parentEnd = i64 (pt_start (h ! cur) + pt_value (h ! cur)) in
      if itemStart \<ge> pt_start (h ! cur) \<and> itemEnd \<le> parentEnd then
        (case vals of
           [] \<Rightarrow> None
         | n # vals' \<Rightarrow>
             (case name_at names n of
                None \<Rightarrow> None
              | Some name \<Rightarrow>
                  level_items names lvl vals' itemEnd cur parents (nxt @ [length h])
                    (h[cur := (h ! cur)\<lparr>pt_nodes := pt_nodes (h ! cur) @ [length h]\<rparr>] @
                     [\<lparr>pt_start = itemStart, pt_value = v, pt_self = w, pt_level = lvl, pt_name = name,
                       pt_nodes = []\<rparr>])))
      else
        (case parents of
           [] \<Rightarrow> Some (h, nxt)
         | p # parents' \<Rightarrow> level_items names lvl (s # v # w # vals) offset p parents' nxt h))"
| "level_items names lvl vals offset cur parents nxt h = None"

fun level_loop :: "string list \<Rightarrow> nat \<Rightarrow> int list list \<Rightarrow> nat list \<Rightarrow> heap \<Rightarrow> heap option" where
  "level_loop names lvl [] parents h = Some h"
| "level_loop names lvl (l # ls) [] h = Some h"
| "level_loop names lvl (l # ls) (p # parents) h =
     (case level_items names lvl l 0 p parents [] h of
        None \<Rightarrow> None
      | Some (h', nxt) \<Rightarrow> level_loop names (lvl + 1) ls nxt h')"

text \<open>The heap with the tree at address 0; empty for the tree \<open>nil\<close>.\<close>

definition LevelsToTree :: "int list list \<Rightarrow> string list \<Rightarrow> heap option" where
  "LevelsToTree levels names =
     (case levels of
        [] \<Rightarrow> Some []
      | (i # v # w # _) # ls \<Rightarrow>
          (case name_at names i of
             None \<Rightarrow> None
           | Some name \<Rightarrow>
               level_loop names 1 ls [0]
                 [\<lparr>pt_start = 0, pt_value = v, pt_self = w, pt_level = 0, pt_name = name, pt_nodes = []\<rparr>])
      | _ \<Rightarrow> None)"

section \<open>Profiles and their rows\<close>

text \<open>A profile, with absolute positions and the indices of the names.\<close>

datatype profile =
  Prof (pf_start: int) (pf_value: int) (pf_self: int) (pf_name: nat) (pf_kids: "profile list")

text \<open>Bars follow each other from left to right inside their parent, and none is empty.\<close>

fun kids_fit :: "int \<Rightarrow> int \<Rightarrow> profile list \<Rightarrow> bool" where
  "kids_fit lo hi [] = True"
| "kids_fit lo hi (p # ps) \<longleftrightarrow> lo \<le> pf_start p \<and> pf_start p + pf_value p \<le> hi \<and>
     kids_fit (pf_start p + pf_value p) hi ps"

fun wf_profile :: "nat \<Rightarrow> profile \<Rightarrow> bool" where
  "wf_profile n (Prof s v w i ks) \<longleftrightarrow> 0 < v \<and> i < n \<and> kids_fit s (s + v) ks \<and> (\<forall>k\<in>set ks. wf_profile n k)"

text \<open>The rows, and a row in the encoding of pyroscope: positions relative to the bar before.\<close>

definition below :: "profile list \<Rightarrow> profile list" where
  "below ps = concat (map pf_kids ps)"

lemma size_below: "ps \<noteq> [] \<Longrightarrow> sum_list (map size (below ps)) < sum_list (map size ps)"
proof -
  have k: "sum_list (map size (pf_kids p)) < size p" for p
    by (cases p) (simp add: size_list_conv_sum_list)
  have "sum_list (map size (below ps)) = sum_list (map (\<lambda>p. sum_list (map size (pf_kids p))) ps)"
    by (induction ps) (simp_all add: below_def)
  moreover assume "ps \<noteq> []"
  then have "sum_list (map (\<lambda>p. sum_list (map size (pf_kids p))) ps) < sum_list (map size ps)"
  proof (induction ps rule: list_nonempty_induct)
    case (cons p ps)
    with k [of p] show ?case by simp
  qed (simp add: k)
  ultimately show ?thesis by simp
qed

function rows :: "profile list \<Rightarrow> profile list list" where
  "rows ps = (if ps = [] then [] else ps # rows (below ps))"
  by pat_completeness auto
termination by (relation "measure (\<lambda>ps. sum_list (map size ps))") (simp_all add: size_below)

declare rows.simps [simp del]

fun row_values :: "int \<Rightarrow> profile list \<Rightarrow> int list" where
  "row_values offset [] = []"
| "row_values offset (p # ps) =
     [pf_start p - offset, pf_value p, pf_self p, int (pf_name p)] @ row_values (pf_start p + pf_value p) ps"

definition profile_levels :: "profile \<Rightarrow> int list list" where
  "profile_levels p = map (row_values 0) (rows [p])"

lemma size_nth [termination_simp]: "j < length (ks :: profile list) \<Longrightarrow> size (ks ! j) < Suc (size_list size ks)"
  by (meson le_imp_less_Suc nth_mem order_refl size_list_estimation')

text \<open>The tree at an address is the profile, with the depth and the names filled in.\<close>

fun tree_in :: "string list \<Rightarrow> heap \<Rightarrow> nat \<Rightarrow> nat \<Rightarrow> profile \<Rightarrow> bool" where
  "tree_in names h lvl a (Prof s v w i ks) \<longleftrightarrow> a < length h \<and>
     pt_start (h ! a) = s \<and> pt_value (h ! a) = v \<and> pt_self (h ! a) = w \<and> pt_level (h ! a) = lvl \<and>
     pt_name (h ! a) = names ! i \<and> length (pt_nodes (h ! a)) = length ks \<and>
     (\<forall>j<length ks. tree_in names h (lvl + 1) (pt_nodes (h ! a) ! j) (ks ! j))"

section \<open>The rows give the tree back\<close>

definition node_of :: "string list \<Rightarrow> nat \<Rightarrow> nat list \<Rightarrow> profile \<Rightarrow> pnode" where
  "node_of names lvl as p = \<lparr>pt_start = pf_start p, pt_value = pf_value p, pt_self = pf_self p,
     pt_level = lvl, pt_name = names ! pf_name p, pt_nodes = as\<rparr>"

text \<open>A row on the heap: before its children are known, and with children from address \<open>a\<close> on.\<close>

definition leaves :: "string list \<Rightarrow> nat \<Rightarrow> profile list \<Rightarrow> heap" where
  "leaves names lvl ps = map (node_of names lvl []) ps"

fun row_nodes :: "string list \<Rightarrow> nat \<Rightarrow> nat \<Rightarrow> profile list \<Rightarrow> heap" where
  "row_nodes names lvl a [] = []"
| "row_nodes names lvl a (p # ps) =
     node_of names lvl [a..<a + length (pf_kids p)] p # row_nodes names lvl (a + length (pf_kids p)) ps"

lemma length_row_nodes [simp]: "length (row_nodes names lvl a ps) = length ps"
  by (induction ps arbitrary: a) simp_all

lemma length_leaves [simp]: "length (leaves names lvl ps) = length ps"
  by (simp add: leaves_def)

text \<open>The bounds that keep the arithmetic exact.\<close>

definition in_range :: "profile \<Rightarrow> bool" where
  "in_range p \<longleftrightarrow> 0 \<le> pf_start p \<and> 0 < pf_value p \<and> pf_start p + pf_value p < 2 ^ 63"

lemma in_rangeD:
  assumes "in_range p"
  shows "i64 (pf_start p) = pf_start p" "i64 (pf_start p + pf_value p) = pf_start p + pf_value p"
  using assms by (auto simp: in_range_def intro!: i64_small)

text \<open>The bars of one parent, of which \<open>done\<close> are on the heap already.\<close>

lemma items_of_parent:
  assumes "h = pre @ node_of names lvl as p # post" "cur = length pre"
    and "in_range p" "kids_fit (max offset (pf_start p)) (pf_start p + pf_value p) ks"
    and "\<forall>k\<in>set ks. in_range k \<and> pf_name k < length names"
  shows "level_items names lvl' (row_values offset ks @ vals) offset cur parents nxt h =
    level_items names lvl' vals (if ks = [] then offset else pf_start (last ks) + pf_value (last ks)) cur parents
      (nxt @ [length h..<length h + length ks])
      (pre @ node_of names lvl (as @ [length h..<length h + length ks]) p # post @ leaves names lvl' ks)"
  using assms
proof (induction ks arbitrary: offset as post nxt h)
  case Nil
  then show ?case by (simp add: leaves_def)
next
  case (Cons k ks)
  let ?e = "pf_start k + pf_value k"
  have k: "in_range k" "pf_name k < length names" using Cons.prems(5) by simp_all
  have cur: "h ! cur = node_of names lvl as p" using Cons.prems(1,2) by simp
  have upd: "h[cur := (h ! cur)\<lparr>pt_nodes := as @ [length h]\<rparr>] =
      pre @ node_of names lvl (as @ [length h]) p # post"
    using Cons.prems(1,2) by (simp add: cur node_of_def)
  have fit: "pf_start p \<le> pf_start k" "?e \<le> pf_start p + pf_value p" using Cons.prems(4) by simp_all
  have name: "name_at names (int (pf_name k)) = Some (names ! pf_name k)" using k(2) by (simp add: name_at_def)
  let ?h = "pre @ node_of names lvl (as @ [length h]) p # post @ [node_of names lvl' [] k]"
  have step: "level_items names lvl' (row_values offset (k # ks) @ vals) offset cur parents nxt h =
      level_items names lvl' (row_values ?e ks @ vals) ?e cur parents (nxt @ [length h]) ?h"
    using fit name in_rangeD [OF k(1)] in_rangeD [OF Cons.prems(3)] upd
    by (simp add: cur Let_def node_of_def)
  have len: "length ?h = Suc (length h)" using Cons.prems(1) by simp
  have "level_items names lvl' (row_values ?e ks @ vals) ?e cur parents (nxt @ [length h]) ?h =
      level_items names lvl' vals (if ks = [] then ?e else pf_start (last ks) + pf_value (last ks)) cur parents
        ((nxt @ [length h]) @ [length ?h..<length ?h + length ks])
        (pre @ node_of names lvl ((as @ [length h]) @ [length ?h..<length ?h + length ks]) p #
          (post @ [node_of names lvl' [] k]) @ leaves names lvl' ks)"
    by (rule Cons.IH) (use Cons.prems k fit in \<open>simp_all add: in_range_def max_def\<close>)
  moreover have "[length h..<length h + length (k # ks)] =
      length h # [length ?h..<length ?h + length ks]"
    unfolding len by (simp add: upt_conv_Cons del: upt_Suc)
  ultimately show ?case
    unfolding step by (simp add: leaves_def del: upt_Suc)
qed

lemma row_values_append:
  "row_values offset (ks @ ls) =
     row_values offset ks @ row_values (if ks = [] then offset else pf_start (last ks) + pf_value (last ks)) ls"
  by (induction ks arbitrary: offset) auto

lemma kids_fit_last:
  "kids_fit lo hi ks \<Longrightarrow> ks \<noteq> [] \<Longrightarrow> pf_start (last ks) + pf_value (last ks) \<le> hi"
  by (induction ks arbitrary: lo) auto

lemma kids_fit_mem:
  assumes "kids_fit lo hi ks" "\<forall>k\<in>set ks. 0 < pf_value k" "k \<in> set ks"
  shows "lo \<le> pf_start k \<and> pf_start k + pf_value k \<le> hi"
  using assms
proof (induction ks arbitrary: lo)
  case (Cons a ks)
  then show ?case by (cases "k = a") fastforce+
qed simp

text \<open>The rows of a well-formed profile: bars from left to right, each in range.\<close>

fun row_fit :: "int \<Rightarrow> profile list \<Rightarrow> bool" where
  "row_fit lo [] = True"
| "row_fit lo (p # ps) \<longleftrightarrow> lo \<le> pf_start p \<and> row_fit (pf_start p + pf_value p) ps"

definition row_ok :: "nat \<Rightarrow> profile list \<Rightarrow> bool" where
  "row_ok n ps \<longleftrightarrow> (\<forall>p\<in>set ps. wf_profile n p \<and> in_range p)"

lemma wf_profileD:
  assumes "wf_profile n p"
  shows "0 < pf_value p" "pf_name p < n" "kids_fit (pf_start p) (pf_start p + pf_value p) (pf_kids p)"
    "k \<in> set (pf_kids p) \<Longrightarrow> wf_profile n k"
  using assms by (cases p; simp)+

lemma row_ok_kids:
  assumes "wf_profile n p" "in_range p"
  shows "row_ok n (pf_kids p)"
  unfolding row_ok_def
proof
  fix k assume k: "k \<in> set (pf_kids p)"
  have "\<forall>k\<in>set (pf_kids p). 0 < pf_value k" using wf_profileD(1,4) [OF assms(1)] wf_profileD(1) by blast
  from kids_fit_mem [OF wf_profileD(3) [OF assms(1)] this k] show "wf_profile n k \<and> in_range k"
    using wf_profileD(4) [OF assms(1) k] wf_profileD(1) assms(2) by (auto simp: in_range_def)
qed

lemma row_ok_below: "row_ok n ps \<Longrightarrow> row_ok n (below ps)"
  using row_ok_kids unfolding row_ok_def below_def by (simp add: Ball_def) blast

lemma row_fit_append:
  "kids_fit lo hi ks \<Longrightarrow> lo \<le> hi \<Longrightarrow> row_fit hi ls \<Longrightarrow> row_fit lo (ks @ ls)"
proof (induction ks arbitrary: lo)
  case Nil
  then show ?case by (cases ls) auto
qed auto

lemma row_fit_mono: "row_fit hi ps \<Longrightarrow> lo \<le> hi \<Longrightarrow> row_fit lo ps"
  by (cases ps) auto

lemma row_fit_below:
  "row_fit lo ps \<Longrightarrow> row_ok n ps \<Longrightarrow> row_fit lo (below ps)"
proof (induction ps arbitrary: lo)
  case (Cons p ps)
  have wf: "wf_profile n p" using Cons.prems(2) by (simp add: row_ok_def)
  have "row_fit (pf_start p + pf_value p) (below ps)"
    using Cons by (auto simp: row_ok_def)
  then have "row_fit (pf_start p) (pf_kids p @ below ps)"
    using wf_profileD(1,3) [OF wf] by (intro row_fit_append) auto
  with Cons.prems(1) show ?case by (auto simp: below_def intro: row_fit_mono)
qed (simp add: below_def)

lemma below_Cons: "below (p # ps) = pf_kids p @ below ps"
  by (simp add: below_def)

lemma below_Nil [simp]: "below [] = []"
  by (simp add: below_def)

lemma row_nodes_leaves: "below ps = [] \<Longrightarrow> row_nodes names lvl a ps = leaves names lvl ps"
  by (induction ps arbitrary: a) (simp_all add: below_Cons leaves_def)

text \<open>A bar to the right of a parent is left to the next parent.\<close>

lemma items_skip:
  assumes "row_fit hi ks" "ks \<noteq> []" "offset \<le> hi" "row_ok n ks"
    and "h ! cur = node_of names lvl as p" "in_range p" "pf_start p + pf_value p \<le> hi"
  shows "level_items names lvl' (row_values offset ks) offset cur (a # parents) nxt h =
    level_items names lvl' (row_values offset ks) offset a parents nxt h"
proof -
  obtain k ks' where ks: "ks = k # ks'" using assms(2) by (cases ks) auto
  have k: "in_range k" using assms(4) by (simp add: ks row_ok_def)
  have "\<not> pf_start k + pf_value k \<le> pf_start p + pf_value p"
    using assms(1,7) k by (simp add: ks in_range_def)
  then show ?thesis
    using in_rangeD [OF k] in_rangeD [OF assms(6)] assms(5)
    unfolding ks row_values.simps append.simps
    by (subst level_items.simps(2)) (simp add: Let_def node_of_def del: level_items.simps)
qed

lemma items_of_row:
  assumes "row_fit offset (p # ps)" "row_ok (length names) (p # ps)"
    and "h = pre @ leaves names lvl (p # ps) @ post"
  shows "level_items names lvl' (row_values offset (below (p # ps))) offset (length pre)
      [Suc (length pre)..<Suc (length pre) + length ps] nxt h =
    Some (pre @ row_nodes names lvl (length h) (p # ps) @ post @ leaves names lvl' (below (p # ps)),
      nxt @ [length h..<length h + length (below (p # ps))])"
  using assms
proof (induction ps arbitrary: p offset pre post nxt h)
  case Nil
  have p: "wf_profile (length names) p" "in_range p" using Nil.prems(2) by (simp_all add: row_ok_def)
  have "kids_fit (max offset (pf_start p)) (pf_start p + pf_value p) (pf_kids p)"
    using wf_profileD(3) [OF p(1)] Nil.prems(1) by (simp add: max_def)
  moreover have "\<forall>k\<in>set (pf_kids p). in_range k \<and> pf_name k < length names"
    using row_ok_kids [OF p] wf_profileD(2) by (auto simp: row_ok_def)
  moreover have "h = pre @ node_of names lvl [] p # post" using Nil.prems(3) by (simp add: leaves_def)
  ultimately show ?case
    using items_of_parent [of h pre names lvl "[]" p post "length pre" offset "pf_kids p" lvl' "[]"] p(2)
    by (simp add: below_Cons)
next
  case (Cons q ps)
  have p: "wf_profile (length names) p" "in_range p" and rest: "row_ok (length names) (q # ps)"
    using Cons.prems(2) by (simp_all add: row_ok_def)
  have fit: "offset \<le> pf_start p" "row_fit (pf_start p + pf_value p) (q # ps)" using Cons.prems(1) by simp_all
  define e where "e = (if pf_kids p = [] then offset else pf_start (last (pf_kids p)) + pf_value (last (pf_kids p)))"
  have e: "e \<le> pf_start p + pf_value p"
    using fit(1) wf_profileD(1) [OF p(1)] kids_fit_last [OF wf_profileD(3) [OF p(1)]] by (auto simp: e_def)
  let ?n = "length (pf_kids p)"
  let ?pre = "pre @ [node_of names lvl [length h..<length h + ?n] p]"
  let ?post = "post @ leaves names lvl' (pf_kids p)"
  define h' where "h' = ?pre @ leaves names lvl (q # ps) @ ?post"
  have len: "length h' = length h + ?n" using Cons.prems(3) by (simp add: h'_def)
  have "kids_fit (max offset (pf_start p)) (pf_start p + pf_value p) (pf_kids p)"
    using wf_profileD(3) [OF p(1)] fit(1) by (simp add: max_def)
  moreover have "\<forall>k\<in>set (pf_kids p). in_range k \<and> pf_name k < length names"
    using row_ok_kids [OF p] wf_profileD(2) by (auto simp: row_ok_def)
  moreover have "h = pre @ node_of names lvl [] p # leaves names lvl (q # ps) @ post"
    using Cons.prems(3) by (simp add: leaves_def)
  ultimately have "level_items names lvl' (row_values offset (below (p # q # ps))) offset (length pre)
      [Suc (length pre)..<Suc (length pre) + length (q # ps)] nxt h =
    level_items names lvl' (row_values e (below (q # ps))) e (length pre)
      [Suc (length pre)..<Suc (length pre) + length (q # ps)] (nxt @ [length h..<length h + ?n]) h'"
    using items_of_parent [of h pre names lvl "[]" p "leaves names lvl (q # ps) @ post" "length pre" offset
        "pf_kids p" lvl' "row_values e (below (q # ps))"
        "[Suc (length pre)..<Suc (length pre) + length (q # ps)]" nxt] p(2)
    unfolding below_Cons [of p] row_values_append e_def [symmetric] h'_def
    by (simp add: leaves_def del: upt_Suc)
  moreover have "\<dots> = Some (pre @ row_nodes names lvl (length h) (p # q # ps) @ post @ leaves names lvl' (below (p # q # ps)),
      nxt @ [length h..<length h + length (below (p # q # ps))])"
  proof (cases "below (q # ps) = []")
    case True
    have "row_nodes names lvl (length h) (p # q # ps) =
        node_of names lvl [length h..<length h + ?n] p # leaves names lvl (q # ps)"
      unfolding row_nodes.simps(2) [of names lvl "length h" p] row_nodes_leaves [OF True] ..
    with True show ?thesis
      by (simp add: below_Cons [of p] h'_def del: row_nodes.simps upt_Suc)
  next
    case False
    have parents: "[Suc (length pre)..<Suc (length pre) + length (q # ps)] =
        length ?pre # [Suc (length ?pre)..<Suc (length ?pre) + length ps]"
      by (simp add: upt_conv_Cons del: upt_Suc)
    have cur: "h' ! length pre = node_of names lvl [length h..<length h + ?n] p" by (simp add: h'_def)
    have up: "[length h..<length h + length (below (p # q # ps))] =
        [length h..<length h + ?n] @ [length h'..<length h' + length (below (q # ps))]"
      unfolding below_Cons [of p] len
      using upt_add_eq_append [of "length h" "length h + ?n" "length (below (q # ps))"] by (simp add: add.assoc)
    have "level_items names lvl' (row_values e (below (q # ps))) e (length pre)
        (length ?pre # [Suc (length ?pre)..<Suc (length ?pre) + length ps]) (nxt @ [length h..<length h + ?n]) h' =
      level_items names lvl' (row_values e (below (q # ps))) e (length ?pre)
        [Suc (length ?pre)..<Suc (length ?pre) + length ps] (nxt @ [length h..<length h + ?n]) h'"
      by (rule items_skip [OF row_fit_below [OF fit(2) rest] False e row_ok_below [OF rest] cur p(2) order_refl])
    also have "\<dots> =
      Some (?pre @ row_nodes names lvl (length h') (q # ps) @ ?post @ leaves names lvl' (below (q # ps)),
        (nxt @ [length h..<length h + ?n]) @ [length h'..<length h' + length (below (q # ps))])"
    proof (rule Cons.IH)
      show "row_fit e (q # ps)" using row_fit_mono [OF fit(2) e] .
      show "h' = ?pre @ leaves names lvl (q # ps) @ ?post" by (rule h'_def)
    qed (rule rest)
    finally show ?thesis
      unfolding parents up unfolding row_nodes.simps(2) [of names lvl "length h" p] below_Cons [of p] len
      by (simp only: leaves_def map_append append_assoc append.simps)
  qed
  ultimately show ?case by (rule trans)
qed

text \<open>The heap of all rows, from address \<open>a\<close> on.\<close>

function all_nodes :: "string list \<Rightarrow> nat \<Rightarrow> nat \<Rightarrow> profile list \<Rightarrow> heap" where
  "all_nodes names lvl a ps =
     (if ps = [] then []
      else row_nodes names lvl (a + length ps) ps @ all_nodes names (lvl + 1) (a + length ps) (below ps))"
  by pat_completeness auto
termination by (relation "measure (\<lambda>(names, lvl, a, ps). sum_list (map size ps))") (simp_all add: size_below)

declare all_nodes.simps [simp del]

lemma level_loop_rows:
  assumes "row_fit 0 ps" "row_ok (length names) ps" "ps \<noteq> []"
  shows "level_loop names (lvl + 1) (map (row_values 0) (rows (below ps)))
      [length pre..<length pre + length ps] (pre @ leaves names lvl ps) =
    Some (pre @ all_nodes names lvl (length pre) ps)"
  using assms
proof (induction ps arbitrary: lvl pre rule: rows.induct)
  case (1 ps)
  show ?case
  proof (cases "below ps = []")
    case True
    then show ?thesis
      using 1(4) rows.simps [of "[]"] all_nodes.simps [of names "lvl + 1" "length pre + length ps" "[]"]
      unfolding all_nodes.simps [of names lvl "length pre" ps] by (simp add: row_nodes_leaves)
  next
    case False
    obtain p qs where ps: "ps = p # qs" using 1(4) by (cases ps) auto
    let ?h = "pre @ leaves names lvl ps"
    have addrs: "[length pre..<length pre + length ps] =
        length pre # [Suc (length pre)..<Suc (length pre) + length qs]"
      by (simp add: ps upt_conv_Cons del: upt_Suc)
    have items: "level_items names (lvl + 1) (row_values 0 (below ps)) 0 (length pre)
        [Suc (length pre)..<Suc (length pre) + length qs] [] ?h =
      Some ((pre @ row_nodes names lvl (length ?h) ps) @ leaves names (lvl + 1) (below ps),
        [length ?h..<length ?h + length (below ps)])"
      using items_of_row [of 0 p qs names ?h pre lvl "[]" "lvl + 1" "[]"] 1(2,3) by (simp add: ps)
    have "level_loop names (lvl + 1 + 1) (map (row_values 0) (rows (below (below ps))))
        [length (pre @ row_nodes names lvl (length ?h) ps)..<
         length (pre @ row_nodes names lvl (length ?h) ps) + length (below ps)]
        ((pre @ row_nodes names lvl (length ?h) ps) @ leaves names (lvl + 1) (below ps)) =
      Some ((pre @ row_nodes names lvl (length ?h) ps) @
        all_nodes names (lvl + 1) (length (pre @ row_nodes names lvl (length ?h) ps)) (below ps))"
      by (rule 1(1)) (use 1(2-4) False row_fit_below row_ok_below in auto)
    then show ?thesis
      using False 1(4) items
      unfolding rows.simps [of "below ps"] all_nodes.simps [of names lvl "length pre" ps]
      by (simp add: addrs del: upt_Suc)
  qed
qed

text \<open>Reading the rows back from the heap.\<close>

lemma row_nodes_nth:
  "j < length ps \<Longrightarrow> row_nodes names lvl a ps ! j =
     node_of names lvl [a + length (below (take j ps))..<a + length (below (take j ps)) + length (pf_kids (ps ! j))] (ps ! j)"
proof (induction ps arbitrary: a j)
  case (Cons p ps)
  then show ?case by (cases j) (simp_all add: below_Cons add.assoc)
qed simp

lemma below_nth:
  "j < length ps \<Longrightarrow> i < length (pf_kids (ps ! j)) \<Longrightarrow>
     length (below (take j ps)) + i < length (below ps) \<and>
     below ps ! (length (below (take j ps)) + i) = pf_kids (ps ! j) ! i"
proof (induction ps arbitrary: j)
  case (Cons p ps)
  then show ?case by (cases j) (auto simp: below_Cons nth_append add.assoc)
qed simp

lemma tree_in_rows:
  assumes "h = pre @ all_nodes names lvl (length pre) ps" "j < length ps"
  shows "tree_in names h lvl (length pre + j) (ps ! j)"
  using assms
proof (induction ps arbitrary: lvl pre j rule: rows.induct)
  case (1 ps)
  let ?row = "row_nodes names lvl (length pre + length ps) ps" and ?off = "length (below (take j ps))"
  have h: "h = (pre @ ?row) @ all_nodes names (lvl + 1) (length (pre @ ?row)) (below ps)"
    using 1(2,3) unfolding all_nodes.simps [of names lvl "length pre" ps] by auto
  have cell: "h ! (length pre + j) = node_of names lvl
      [length pre + length ps + ?off..<length pre + length ps + ?off + length (pf_kids (ps ! j))] (ps ! j)"
    unfolding h using 1(3) by (simp add: nth_append row_nodes_nth)
  have kid: "tree_in names h (lvl + 1) (length pre + length ps + ?off + i) (pf_kids (ps ! j) ! i)"
    if "i < length (pf_kids (ps ! j))" for i
  proof -
    have "ps \<noteq> []" using 1(3) by auto
    from 1(1) [OF this h conjunct1 [OF below_nth [OF 1(3) that]]] show ?thesis
      using below_nth [OF 1(3) that] by (simp add: add.assoc)
  qed
  have "length pre + j < length h" unfolding h using 1(3) by simp
  then show ?case
    using cell kid by (cases "ps ! j") (simp add: node_of_def del: upt_Suc)
qed

lemma LevelsToTree_tree:
  assumes "wf_profile (length names) p" "pf_start p = 0" "pf_value p < 2 ^ 63" "pf_name p = 0"
  shows "\<exists>h. LevelsToTree (profile_levels p) names = Some h \<and> tree_in names h 0 0 p"
proof -
  have ok: "row_fit 0 [p]" "row_ok (length names) [p]"
    using assms wf_profileD(1) [OF assms(1)] by (simp_all add: row_ok_def in_range_def)
  have "LevelsToTree (profile_levels p) names = level_loop names 1 (map (row_values 0) (rows (below [p]))) [0]
      (leaves names 0 [p])"
    using assms wf_profileD(2) [OF assms(1)]
    by (simp add: LevelsToTree_def profile_levels_def rows.simps [of "[p]"] name_at_def leaves_def node_of_def)
  also have "\<dots> = Some (all_nodes names 0 0 [p])"
    using level_loop_rows [OF ok, of 0 "[]"] by simp
  finally show ?thesis
    using tree_in_rows [of "all_nodes names 0 0 [p]" "[]" names 0 "[p]" 0] by simp
qed

text \<open>
  C30. The rows of a profile give the profile back. For every profile whose bars follow each
  other from left to right inside their parent, are not empty, stay within \<open>int64\<close> and
  have names in the table, the tree \<^const>\<open>LevelsToTree\<close> builds from its rows has the profile's
  shape: every node has the position, the width, the self value and the name of its bar, the
  depth of its row, and its children are exactly the bars inside it, in order. The bar at the
  root must start at 0 and be named by the first name: the code reads the name of the root at
  its start position.
\<close>

theorem LevelsToTree_roundtrip:
  assumes "wf_profile (length names) p" "pf_start p = 0" "pf_value p < 2 ^ 63" "pf_name p = 0"
  shows "\<exists>h. LevelsToTree (profile_levels p) names = Some h \<and> tree_in names h 0 0 p"
  using LevelsToTree_tree [OF assms] .

theorem LevelsToTree_roundtrip_witness:
  "\<exists>h. LevelsToTree [[0, 10, 1, 0], [0, 4, 1, 1, 1, 5, 5, 2], [1, 3, 3, 2]] [''total'', ''main'', ''work''] = Some h \<and>
     tree_in [''total'', ''main'', ''work''] h 0 0
       (Prof 0 10 1 0 [Prof 0 4 1 1 [Prof 1 3 3 2 []], Prof 5 5 5 2 []])"
  using LevelsToTree_roundtrip
    [of "[''total'', ''main'', ''work'']" "Prof 0 10 1 0 [Prof 0 4 1 1 [Prof 1 3 3 2 []], Prof 5 5 5 2 []]"]
  by (simp add: profile_levels_def rows.simps below_def)

section \<open>Tree to listing\<close>

text \<open>
  \<open>walkTree\<close>: the node at an address, then the addresses on the stack. The slice of the
  children of a node is extended with the rest of the stack; what \<open>append\<close> writes there lies
  beyond the length of the slice that the node holds.
\<close>

partial_function (option) walk_loop :: "heap \<Rightarrow> (pnode \<Rightarrow> 's \<Rightarrow> 's) \<Rightarrow> nat list \<Rightarrow> 's \<Rightarrow> 's option" where
  "walk_loop h fn stack s =
     (case stack of
        [] \<Rightarrow> Some s
      | a # rest \<Rightarrow> walk_loop h fn (pt_nodes (h ! a) @ rest) (fn (h ! a) s))"

definition walkTree :: "heap \<Rightarrow> (pnode \<Rightarrow> 's \<Rightarrow> 's) \<Rightarrow> nat \<Rightarrow> 's \<Rightarrow> 's option" where
  "walkTree h fn tree s = walk_loop h fn (pt_nodes (h ! tree)) (fn (h ! tree) s)"

text \<open>Labels as indices of 16 bits. The map of the labels keeps the order in which they came.\<close>

record enum_field =
  ef_field :: "u16 list"
  ef_valuesMap :: "(string \<times> u16) list"
  ef_counter :: u16

definition NewEnumField :: enum_field where
  "NewEnumField = \<lparr>ef_field = [], ef_valuesMap = [], ef_counter = 0\<rparr>"

definition EnumField_Append :: "string \<Rightarrow> enum_field \<Rightarrow> enum_field" where
  "EnumField_Append value e =
     (case map_of (ef_valuesMap e) value of
        Some valueIndex \<Rightarrow> e\<lparr>ef_field := ef_field e @ [valueIndex]\<rparr>
      | None \<Rightarrow> e\<lparr>ef_valuesMap := ef_valuesMap e @ [(value, ef_counter e)],
                  ef_field := ef_field e @ [ef_counter e], ef_counter := ef_counter e + 1\<rparr>)"

text \<open>
  The labels by index. A map is walked in any order the runtime chooses: \<open>order\<close> gives the
  entries in that order.
\<close>

fun put_labels :: "(string \<times> u16) list \<Rightarrow> string list \<Rightarrow> string list option" where
  "put_labels [] s = Some s"
| "put_labels ((k, v) # m) s = (if unat v < length s then put_labels m (s[unat v := k]) else None)"

definition GetField_Text :: "((string \<times> u16) list \<Rightarrow> (string \<times> u16) list) \<Rightarrow> enum_field \<Rightarrow> string list option" where
  "GetField_Text order e = put_labels (order (ef_valuesMap e)) (replicate (length (ef_valuesMap e)) [])"

record frame =
  fr_level :: "int list"
  fr_value :: "int list"
  fr_self :: "int list"
  fr_label :: enum_field

definition frame_append :: "pnode \<Rightarrow> frame \<Rightarrow> frame" where
  "frame_append n fr = \<lparr>fr_level = fr_level fr @ [int (pt_level n)], fr_value = fr_value fr @ [pt_value n],
     fr_self = fr_self fr @ [pt_self n], fr_label = EnumField_Append (pt_name n) (fr_label fr)\<rparr>"

definition TreeToNestedSetDataFrame ::
    "((string \<times> u16) list \<Rightarrow> (string \<times> u16) list) \<Rightarrow> heap \<Rightarrow> (frame \<times> string list) option" where
  "TreeToNestedSetDataFrame order h =
     (let frame = \<lparr>fr_level = [], fr_value = [], fr_self = [], fr_label = NewEnumField\<rparr> in
      case (if h = [] then Some frame else walkTree h frame_append 0 frame) of
        None \<Rightarrow> None
      | Some fr \<Rightarrow> (case GetField_Text order (fr_label fr) of None \<Rightarrow> None | Some text \<Rightarrow> Some (fr, text)))"

text \<open>
  The rest of \<open>parsedata\<close>: the four columns become a list of rows. The index of a label goes
  through its decimal digits and back.
\<close>

record frame_data =
  fd_level :: int
  fd_value :: int
  fd_self :: int
  fd_label :: string

fun label_names :: "string list \<Rightarrow> u16 list \<Rightarrow> string list option" where
  "label_names keys [] = Some []"
| "label_names keys (i # is) =
     (if unat i < length keys then map_option ((#) (keys ! unat i)) (label_names keys is) else None)"

definition flame_rows ::
    "((string \<times> u16) list \<Rightarrow> (string \<times> u16) list) \<Rightarrow> frame \<Rightarrow> (string + frame_data list) option" where
  "flame_rows order fr =
     (let levelarr = fr_level fr; valuearr = fr_value fr; selfarr = fr_self fr;
          labelVmp = ef_valuesMap (fr_label fr) in
      case put_labels (order labelVmp) (replicate (length labelVmp) []) of
        None \<Rightarrow> None
      | Some keys \<Rightarrow>
          (case label_names keys (ef_field (fr_label fr)) of
             None \<Rightarrow> None
           | Some labelarr \<Rightarrow>
               let DataSize = length levelarr in
               if length valuearr \<noteq> DataSize \<or> length selfarr \<noteq> DataSize \<or> length labelarr \<noteq> DataSize
               then Some (Inl ''Data length is not equal'')
               else Some (Inr (map (\<lambda>i. \<lparr>fd_level = levelarr ! i, fd_value = valuearr ! i,
                      fd_self = selfarr ! i, fd_label = labelarr ! i\<rparr>) [0..<DataSize]))))"

definition FlameData ::
    "((string \<times> u16) list \<Rightarrow> (string \<times> u16) list) \<Rightarrow> int list list \<Rightarrow> string list \<Rightarrow>
     (string + frame_data list) option" where
  "FlameData order levels names =
     (case LevelsToTree levels names of
        None \<Rightarrow> None
      | Some h \<Rightarrow>
          (case TreeToNestedSetDataFrame order h of
             None \<Rightarrow> None
           | Some (fr, text) \<Rightarrow> flame_rows order fr))"

section \<open>The listing is the profile, depth first\<close>

fun listing :: "string list \<Rightarrow> nat \<Rightarrow> profile \<Rightarrow> frame_data list" where
  "listing names lvl (Prof s v w i ks) =
     \<lparr>fd_level = int lvl, fd_value = v, fd_self = w, fd_label = names ! i\<rparr> #
     concat (map (listing names (lvl + 1)) ks)"

definition row_of :: "pnode \<Rightarrow> frame_data" where
  "row_of n = \<lparr>fd_level = int (pt_level n), fd_value = pt_value n, fd_self = pt_self n, fd_label = pt_name n\<rparr>"

lemma walk_loop_rows:
  "tree_in names h lvl a p \<Longrightarrow>
   walk_loop h (\<lambda>n. g (row_of n)) (a # rest) s = walk_loop h (\<lambda>n. g (row_of n)) rest (fold g (listing names lvl p) s)"
proof (induction p arbitrary: lvl a rest s)
  case (Prof st v w i ks)
  let ?as = "pt_nodes (h ! a)"
  have kids: "length as = length qs \<Longrightarrow> set qs \<subseteq> set ks \<Longrightarrow>
      (\<forall>j<length qs. tree_in names h (lvl + 1) (as ! j) (qs ! j)) \<Longrightarrow>
      walk_loop h (\<lambda>n. g (row_of n)) (as @ rest) s =
      walk_loop h (\<lambda>n. g (row_of n)) rest (fold g (concat (map (listing names (lvl + 1)) qs)) s)" for as qs s
  proof (induction as qs arbitrary: s rule: list_induct2)
    case (Cons b as q qs)
    have "tree_in names h (lvl + 1) b q" "\<forall>j<length qs. tree_in names h (lvl + 1) (as ! j) (qs ! j)"
      using Cons.prems(2) by auto
    with Cons Prof.IH [of q "lvl + 1" b "as @ rest" s] show ?case by simp
  qed simp
  have "fold g (listing names lvl (Prof st v w i ks)) s =
      fold g (concat (map (listing names (lvl + 1)) ks)) (g (row_of (h ! a)) s)"
    using Prof.prems by (simp add: row_of_def)
  moreover have "walk_loop h (\<lambda>n. g (row_of n)) (a # rest) s =
      walk_loop h (\<lambda>n. g (row_of n)) (?as @ rest) (g (row_of (h ! a)) s)"
    by (simp add: walk_loop.simps)
  ultimately show ?case
    using kids [of ?as ks "g (row_of (h ! a)) s"] Prof.prems by simp
qed

lemma walkTree_rows:
  assumes "tree_in names h lvl a p"
  shows "walkTree h (\<lambda>n. g (row_of n)) a s = Some (fold g (listing names lvl p) s)"
  using walk_loop_rows [OF assms, of g "[]" s]
  by (simp add: walkTree_def walk_loop.simps [of h _ "[]"] walk_loop.simps [of h _ "[a]"])

text \<open>The columns: after the names \<open>ns\<close>, the labels \<open>ds\<close> are the different ones, in order.\<close>

definition enum_ok :: "enum_field \<Rightarrow> string list \<Rightarrow> string list \<Rightarrow> bool" where
  "enum_ok e ns ds \<longleftrightarrow> distinct ds \<and> set ds = set ns \<and> ef_valuesMap e = map (\<lambda>i. (ds ! i, of_nat i)) [0..<length ds] \<and>
     ef_counter e = of_nat (length ds) \<and> (\<forall>i\<in>set (ef_field e). unat i < length ds) \<and>
     map (\<lambda>i. ds ! unat i) (ef_field e) = ns"

lemma unat_u16: "i < 2 ^ 16 \<Longrightarrow> unat (of_nat i :: u16) = i"
  by (simp add: unat_of_nat take_bit_nat_eq_self)

lemma labels_lookup:
  assumes "distinct ds" "i < length ds"
  shows "map_of (map (\<lambda>i. (ds ! i, of_nat i :: u16)) [0..<length ds]) (ds ! i) = Some (of_nat i)"
  using assms by (intro map_of_is_SomeI) (auto simp: comp_def distinct_conv_nth distinct_map inj_on_def)

lemma enum_append:
  assumes "enum_ok e ns ds" "card (insert n (set ns)) \<le> 2 ^ 16"
  shows "\<exists>ds'. enum_ok (EnumField_Append n e) (ns @ [n]) ds'"
proof (cases "n \<in> set ds")
  case True
  then obtain i where i: "i < length ds" "ds ! i = n" by (auto simp: in_set_conv_nth)
  have "length ds \<le> 2 ^ 16"
    using assms True by (simp add: enum_ok_def insert_absorb distinct_card [symmetric])
  with i(1) have "unat (of_nat i :: u16) = i" by (intro unat_u16) simp
  moreover have "map_of (ef_valuesMap e) n = Some (of_nat i)"
    using assms(1) labels_lookup [of ds i] i by (simp add: enum_ok_def)
  ultimately have "enum_ok (EnumField_Append n e) (ns @ [n]) ds"
    using assms(1) i True by (auto simp: enum_ok_def EnumField_Append_def)
  then show ?thesis ..
next
  case False
  have ds: "distinct ds" "set ds = set ns" using assms(1) by (simp_all add: enum_ok_def)
  have "length ds < 2 ^ 16"
    using assms(2) False ds by (simp add: distinct_card [symmetric])
  then have c: "unat (of_nat (length ds) :: u16) = length ds" by (intro unat_u16) simp
  have "map_of (ef_valuesMap e) n = None"
    using assms(1) False by (auto simp: enum_ok_def map_of_eq_None_iff)
  moreover have "map (\<lambda>i. ((ds @ [n]) ! i, of_nat i :: u16)) [0..<length (ds @ [n])] =
      map (\<lambda>i. (ds ! i, of_nat i)) [0..<length ds] @ [(n, of_nat (length ds))]"
    by (simp add: nth_append)
  moreover have "map (\<lambda>i. (ds @ [n]) ! unat i) (ef_field e) = map (\<lambda>i. ds ! unat i) (ef_field e)"
    using assms(1) by (auto simp: enum_ok_def nth_append)
  ultimately have "enum_ok (EnumField_Append n e) (ns @ [n]) (ds @ [n])"
    using assms(1) False c by (auto simp: enum_ok_def EnumField_Append_def)
  then show ?thesis ..
qed

lemma enum_run:
  "card (set ns) \<le> 2 ^ 16 \<Longrightarrow> \<exists>ds. enum_ok (fold EnumField_Append ns NewEnumField) ns ds"
proof (induction ns rule: rev_induct)
  case Nil
  have "enum_ok NewEnumField [] []" by (simp add: enum_ok_def NewEnumField_def)
  then show ?case by auto
next
  case (snoc n ns)
  have "card (set ns) \<le> card (set (ns @ [n]))" by (intro card_mono) auto
  with snoc obtain ds where "enum_ok (fold EnumField_Append ns NewEnumField) ns ds" by auto
  from enum_append [OF this, of n] snoc.prems show ?case by simp
qed

text \<open>Whatever the order of the walk, the labels are at their indices.\<close>

lemma put_labels_nth:
  assumes "distinct (map snd m)" "\<forall>(k, v)\<in>set m. unat v < length s"
  shows "\<exists>s'. put_labels m s = Some s' \<and> length s' = length s \<and> (\<forall>(k, v)\<in>set m. s' ! unat v = k) \<and>
    (\<forall>i<length s. i \<notin> unat ` snd ` set m \<longrightarrow> s' ! i = s ! i)"
  using assms
proof (induction m arbitrary: s)
  case (Cons x m)
  obtain k v where x: "x = (k, v)" by (cases x)
  have v: "unat v < length s" "unat v \<notin> unat ` snd ` set m"
    using Cons.prems by (auto simp: x image_iff word_unat_eq_iff)
  obtain s' where "put_labels m (s[unat v := k]) = Some s'" "length s' = length s"
    "\<forall>(k, v)\<in>set m. s' ! unat v = k" "\<forall>i<length s. i \<notin> unat ` snd ` set m \<longrightarrow> s' ! i = s[unat v := k] ! i"
    using Cons.IH [of "s[unat v := k]"] Cons.prems by (auto simp: x)
  with v show ?case by (auto simp: x)
qed simp

lemma enum_labels:
  assumes "enum_ok e ns ds" "length ds \<le> 2 ^ 16" "mset (order (ef_valuesMap e)) = mset (ef_valuesMap e)"
  shows "put_labels (order (ef_valuesMap e)) (replicate (length (ef_valuesMap e)) []) = Some ds"
proof -
  let ?m = "order (ef_valuesMap e)"
  have u: "unat (of_nat i :: u16) = i" if "i < length ds" for i
    using that assms(2) by (intro unat_u16) simp
  have vm: "ef_valuesMap e = map (\<lambda>i. (ds ! i, of_nat i)) [0..<length ds]" using assms(1) by (simp add: enum_ok_def)
  have set: "set ?m = (\<lambda>i. (ds ! i, of_nat i)) ` {0..<length ds}"
    using mset_eq_setD [OF assms(3)] by (simp add: vm)
  have "distinct (map snd (ef_valuesMap e))"
    by (auto simp: vm comp_def distinct_map inj_on_def dest: arg_cong [of _ _ unat] simp: u)
  moreover have "mset (map snd ?m) = mset (map snd (ef_valuesMap e))" using assms(3) by simp
  ultimately have "distinct (map snd ?m)" using mset_eq_imp_distinct_iff by blast
  moreover have "\<forall>(k, v)\<in>set ?m. unat v < length (replicate (length (ef_valuesMap e)) [])"
    unfolding set by (auto simp: vm u)
  ultimately obtain s' where s': "put_labels ?m (replicate (length (ef_valuesMap e)) []) = Some s'"
    "length s' = length ds" "\<forall>(k, v)\<in>set ?m. s' ! unat v = k"
    using put_labels_nth [of ?m "replicate (length (ef_valuesMap e)) []"] by (auto simp: vm)
  have "s' = ds" using s'(2,3) by (intro nth_equalityI) (auto simp: set u)
  with s'(1) show ?thesis by simp
qed

lemma label_names_map:
  "\<forall>i\<in>set is. unat i < length keys \<Longrightarrow> label_names keys is = Some (map (\<lambda>i. keys ! unat i) is)"
  by (induction "is") auto

definition row_append :: "frame_data \<Rightarrow> frame \<Rightarrow> frame" where
  "row_append r fr = \<lparr>fr_level = fr_level fr @ [fd_level r], fr_value = fr_value fr @ [fd_value r],
     fr_self = fr_self fr @ [fd_self r], fr_label = EnumField_Append (fd_label r) (fr_label fr)\<rparr>"

lemma frame_append_row: "frame_append = (\<lambda>n. row_append (row_of n))"
  by (simp add: fun_eq_iff frame_append_def row_append_def row_of_def)

lemma row_append_run:
  "fold row_append rs fr = \<lparr>fr_level = fr_level fr @ map fd_level rs, fr_value = fr_value fr @ map fd_value rs,
     fr_self = fr_self fr @ map fd_self rs, fr_label = fold EnumField_Append (map fd_label rs) (fr_label fr)\<rparr>"
  by (induction rs arbitrary: fr) (simp_all add: row_append_def)

lemma flame_rows_run:
  assumes "card (fd_label ` set rs) \<le> 2 ^ 16" "\<And>m. mset (order m) = mset m"
    and "fr = fold row_append rs \<lparr>fr_level = [], fr_value = [], fr_self = [], fr_label = NewEnumField\<rparr>"
  shows "GetField_Text order (fr_label fr) \<noteq> None" "flame_rows order fr = Some (Inr rs)"
proof -
  have "card (set (map fd_label rs)) \<le> 2 ^ 16" using assms(1) by simp
  from enum_run [OF this] obtain ds where e: "enum_ok (fr_label fr) (map fd_label rs) ds"
    by (auto simp: assms(3) row_append_run)
  then have "length ds \<le> 2 ^ 16" using assms(1) by (simp add: enum_ok_def distinct_card [symmetric])
  from enum_labels [OF e this, of order] assms(2)
  have keys: "put_labels (order (ef_valuesMap (fr_label fr))) (replicate (length (ef_valuesMap (fr_label fr))) []) = Some ds" by blast
  then show "GetField_Text order (fr_label fr) \<noteq> None" by (simp add: GetField_Text_def)
  have "label_names ds (ef_field (fr_label fr)) = Some (map fd_label rs)"
    using e by (simp add: enum_ok_def label_names_map)
  moreover have "map (\<lambda>i. \<lparr>fd_level = map fd_level rs ! i, fd_value = map fd_value rs ! i,
      fd_self = map fd_self rs ! i, fd_label = map fd_label rs ! i\<rparr>) [0..<length rs] = rs"
    by (intro nth_equalityI) simp_all
  ultimately show "flame_rows order fr = Some (Inr rs)"
    using keys by (simp add: flame_rows_def assms(3) row_append_run)
qed

text \<open>
  C25. The data of the flame graph. For a profile as in the round trip above whose names are at
  most 65536 different ones, what \<open>parsedata\<close> prints is the profile listed depth first: one
  row per bar, a bar before the bars inside it and these from left to right, with the bar's
  depth, value, self value and name. It does not depend on the order in which the runtime
  walks the map of the labels, no access is out of range, and the columns have equal lengths.
\<close>

theorem FlameData_listing:
  assumes "wf_profile (length names) p" "pf_start p = 0" "pf_value p < 2 ^ 63" "pf_name p = 0"
    and "card (fd_label ` set (listing names 0 p)) \<le> 2 ^ 16" "\<And>m. mset (order m) = mset m"
  shows "FlameData order (profile_levels p) names = Some (Inr (listing names 0 p))"
proof -
  obtain h where h: "LevelsToTree (profile_levels p) names = Some h" "tree_in names h 0 0 p"
    using LevelsToTree_tree [OF assms(1-4)] by blast
  from h(2) have "h \<noteq> []" by (cases p) auto
  let ?fr = "\<lparr>fr_level = [], fr_value = [], fr_self = [], fr_label = NewEnumField\<rparr>"
  have "walkTree h frame_append 0 ?fr = Some (fold row_append (listing names 0 p) ?fr)"
    unfolding frame_append_row by (rule walkTree_rows [OF h(2)])
  with flame_rows_run [OF assms(5,6) refl] h(1) \<open>h \<noteq> []\<close> show ?thesis
    by (auto simp: FlameData_def TreeToNestedSetDataFrame_def)
qed

theorem FlameData_listing_witness:
  "FlameData rev [[0, 10, 1, 0], [0, 4, 1, 1, 1, 5, 5, 2], [1, 3, 3, 2]] [''total'', ''main'', ''work''] =
     Some (Inr [\<lparr>fd_level = 0, fd_value = 10, fd_self = 1, fd_label = ''total''\<rparr>,
       \<lparr>fd_level = 1, fd_value = 4, fd_self = 1, fd_label = ''main''\<rparr>,
       \<lparr>fd_level = 2, fd_value = 3, fd_self = 3, fd_label = ''work''\<rparr>,
       \<lparr>fd_level = 1, fd_value = 5, fd_self = 5, fd_label = ''work''\<rparr>])"
  using FlameData_listing
    [of "[''total'', ''main'', ''work'']" "Prof 0 10 1 0 [Prof 0 4 1 1 [Prof 1 3 3 2 []], Prof 5 5 5 2 []]" rev]
  by (simp add: profile_levels_def rows.simps below_def card_insert_if)

end
