(* ===== verification/Perf_Report.thy ===== *)
theory Perf_Report
  imports Perf Metrics Symbols Flamegraph
begin

text \<open>
  The report of the profiler, \<open>parsedata\<close> of \<^verbatim>\<open>cmd/perf/parsedata.go\<close>: the stacks that
  \<^verbatim>\<open>bpf/perf.c\<close> counted are read from the map, sorted by their counts, given names, merged into
  a profile by the package pyroscope, and listed as a flame graph. The merging is a parameter, and
  so are the files the names come from and the order in which the runtime walks a map.
\<close>

section \<open>Standard library\<close>

text \<open>\<open>strings.Join\<close>, \<open>strings.Split\<close> at one character, and \<open>strings.TrimRight\<close>.\<close>

fun strings_Join :: "string \<Rightarrow> string list \<Rightarrow> string" where
  "strings_Join sep [] = []"
| "strings_Join sep [s] = s"
| "strings_Join sep (s # t # ts) = s @ sep @ strings_Join sep (t # ts)"

fun strings_Split :: "char \<Rightarrow> string \<Rightarrow> string list" where
  "strings_Split sep [] = [[]]"
| "strings_Split sep (c # cs) =
     (if c = sep then [] # strings_Split sep cs
      else case strings_Split sep cs of [] \<Rightarrow> [[c]] | w # ws \<Rightarrow> (c # w) # ws)"

definition strings_TrimRight :: "char \<Rightarrow> string \<Rightarrow> string" where
  "strings_TrimRight c s = rev (dropWhile (\<lambda>x. x = c) (rev s))"

lemma TrimRight_zeros:
  assumes "s \<noteq> []" "last s \<noteq> c"
  shows "strings_TrimRight c (s @ replicate n c) = s"
proof -
  have "dropWhile (\<lambda>x. x = c) (replicate n c @ rev s) = dropWhile (\<lambda>x. x = c) (rev s)"
    by (induction n) simp_all
  moreover have "dropWhile (\<lambda>x. x = c) (rev s) = rev s"
    using assms by (cases s rule: rev_cases) auto
  ultimately show ?thesis by (simp add: strings_TrimRight_def)
qed

lemma Split_one: "sep \<notin> set s \<Longrightarrow> strings_Split sep s = [s]"
  by (induction s) auto

lemma Split_append: "sep \<notin> set s \<Longrightarrow> strings_Split sep (s @ sep # t) = s # strings_Split sep t"
  by (induction s) auto

lemma Split_Join:
  "\<forall>s\<in>set ss. sep \<notin> set s \<Longrightarrow> ss \<noteq> [] \<Longrightarrow> strings_Split sep (strings_Join [sep] ss) = ss"
  by (induction "[sep]" ss rule: strings_Join.induct) (simp_all add: Split_one Split_append)

lemma Split_Join_filter:
  assumes "\<forall>s\<in>set ss. sep \<notin> set s \<and> s \<noteq> []"
  shows "filter (\<lambda>s. s \<noteq> []) (strings_Split sep (strings_Join [sep] ss)) = ss"
  using assms by (cases "ss = []") (simp_all add: Split_Join)

section \<open>Definitions\<close>

record eventdata =
  ed_Ustack :: "u64 list"
  ed_Kstack :: "u64 list"
  ed_UstackSize :: s64
  ed_KstackSize :: s64
  ed_Pid :: u32
  ed_Name :: "byte list"

definition perfStackDepth :: nat where [simp]: "perfStackDepth = 20"

fun read_u64s :: "nat \<Rightarrow> byte list \<Rightarrow> u64 list" where
  "read_u64s 0 bs = []"
| "read_u64s (Suc n) bs = dec (take 8 bs) # read_u64s n (drop 8 bs)"

definition read_eventdata :: "byte list \<Rightarrow> go_error + eventdata" where
  "read_eventdata bs =
     (case binary_read go_eventdata bs of
        None \<Rightarrow> Inl Read_error
      | Some fs \<Rightarrow> Inr \<lparr>ed_Ustack = read_u64s perfStackDepth (snd (fs ! 0)),
          ed_Kstack = read_u64s perfStackDepth (snd (fs ! 1)), ed_UstackSize = dec (snd (fs ! 2)),
          ed_KstackSize = dec (snd (fs ! 3)), ed_Pid = dec (snd (fs ! 4)), ed_Name = snd (fs ! 5)\<rparr>)"

type_synonym stack_count = "eventdata \<times> u64"

fun read_pairs :: "map_item list \<Rightarrow> go_error + stack_count list" where
  "read_pairs [] = Inr []"
| "read_pairs ((k, v) # items) =
     (case read_eventdata k of
        Inl err \<Rightarrow> Inl err
      | Inr ed \<Rightarrow>
          case read_fields [(''count'', 8)] v of
            Inl err \<Rightarrow> Inl err
          | Inr fs \<Rightarrow> map_sum id ((#) (ed, hd fs)) (read_pairs items))"

fun find_from :: "nat \<Rightarrow> string \<Rightarrow> string list \<Rightarrow> nat option" where
  "find_from idx strA [] = None"
| "find_from idx strA (strB # b) = (if strA = strB then Some idx else find_from (idx + 1) strA b)"

definition findOrAdd :: "string \<Rightarrow> string list \<Rightarrow> nat \<times> string list" where
  "findOrAdd strA b = (case find_from 0 strA b of Some index \<Rightarrow> (index, b) | None \<Rightarrow> (length b, b @ [strA]))"

text \<open>A sample of pyroscope: a count, and the frames as indices into the function names.\<close>

record sample =
  sm_Value :: s64
  sm_FunctionIds :: "s32 list"

text \<open>The surroundings: the kernel symbols, the files, the sorts, the merging, the order of a map.\<close>

record perf_env =
  pe_cache :: ksymbol_cache
  pe_files :: usym_files
  pe_sort_sections :: "(usection \<Rightarrow> u64) \<Rightarrow> usection list \<Rightarrow> usection list"
  pe_sort_symbols :: "(usymbol \<Rightarrow> u64) \<Rightarrow> usymbol list \<Rightarrow> usymbol list"
  pe_sort_pairs :: "(stack_count \<Rightarrow> u64) \<Rightarrow> stack_count list \<Rightarrow> stack_count list"
  pe_merge :: "sample list \<Rightarrow> string list \<Rightarrow> string + int list list \<times> string list"
  pe_order :: "(string \<times> u16) list \<Rightarrow> (string \<times> u16) list"

definition CgDumpTrace :: "perf_env \<Rightarrow> u64 list \<Rightarrow> string option" where
  "CgDumpTrace E addrs = map_option (strings_Join [CHR 0x0A]) (DumpKernelBackTrace (pe_cache E) addrs perfStackDepth)"

type_synonym named = "s32 list \<times> string list"

definition add_name :: "string \<Rightarrow> named \<Rightarrow> named" where
  "add_name v = (\<lambda>(ids, functionNames).
     case findOrAdd v functionNames of (index, functionNames) \<Rightarrow> (ids @ [of_nat index], functionNames))"

definition kernel_names :: "perf_env \<Rightarrow> eventdata \<Rightarrow> named \<Rightarrow> named option" where
  "kernel_names E ed st =
     (if sint (ed_KstackSize ed) > 0 then
        (case CgDumpTrace E (ed_Kstack ed) of
           None \<Rightarrow> None
         | Some kernelStack \<Rightarrow>
             Some (foldl (\<lambda>st v. if v \<noteq> [] then add_name (v @ ''_[k]'') st else st) st
               (strings_Split (CHR 0x0A) kernelStack)))
      else Some st)"

fun user_names :: "perf_env \<Rightarrow> u32 \<Rightarrow> u64 list \<Rightarrow> usym \<Rightarrow> named \<Rightarrow> usym \<times> named" where
  "user_names E pid [] u st = (u, st)"
| "user_names E pid (addr # addrs) u st =
     (if addr = 0 then (u, st)
      else case ResolveUstack (pe_sort_sections E) (pe_sort_symbols E) (pe_files E) addr pid u of
        (u, usym) \<Rightarrow> user_names E pid addrs u (if usym \<noteq> [] then add_name usym st else st))"

definition sttitle :: "eventdata \<Rightarrow> string" where
  "sttitle ed = strings_TrimRight (CHR 0x00) (map (char_of \<circ> unat) (ed_Name ed))"

fun sample_loop :: "perf_env \<Rightarrow> stack_count list \<Rightarrow> usym \<Rightarrow> sample list \<Rightarrow> string list \<Rightarrow>
    (sample list \<times> string list) option" where
  "sample_loop E [] u stacktraces functionNames = Some (stacktraces, functionNames)"
| "sample_loop E ((ed, value) # kvs) u stacktraces functionNames =
     (case kernel_names E ed ([], functionNames) of
        None \<Rightarrow> None
      | Some st \<Rightarrow>
          (case (if sint (ed_UstackSize ed) > 0 then user_names E (ed_Pid ed) (ed_Ustack ed) u st else (u, st)) of
             (u, st) \<Rightarrow>
               (case add_name (sttitle ed) st of
                  (ids, functionNames) \<Rightarrow>
                    sample_loop E kvs u (stacktraces @ [\<lparr>sm_Value = value, sm_FunctionIds = ids\<rparr>]) functionNames)))"

datatype perf_error = Map_error go_error | Merge_error string

text \<open>
  The printed rows; \<open>Inr None\<close> is an empty map, for which nothing is printed. The outer
  \<open>None\<close> is a panic.
\<close>

definition flame_report :: "perf_env \<Rightarrow> sample list \<Rightarrow> string list \<Rightarrow> (perf_error + frame_data list option) option" where
  "flame_report E stacktraces functionNames =
     (case pe_merge E stacktraces functionNames of
        Inl err \<Rightarrow> Some (Inl (Merge_error err))
      | Inr (levels, names) \<Rightarrow>
          (case FlameData (pe_order E) levels names of
             None \<Rightarrow> None
           | Some (Inl err) \<Rightarrow> Some (Inl (Merge_error err))
           | Some (Inr rs) \<Rightarrow> Some (Inr (Some rs))))"

definition parsedata :: "perf_env \<Rightarrow> go_error + map_item list \<Rightarrow> (perf_error + frame_data list option) option" where
  "parsedata E dump =
     (case dump of
        Inl err \<Rightarrow> Some (Inl (Map_error err))
      | Inr items \<Rightarrow>
          if items = [] then Some (Inr None)
          else case read_pairs items of
            Inl err \<Rightarrow> Some (Inl (Map_error err))
          | Inr keyValuePairs \<Rightarrow>
              (case sample_loop E (pe_sort_pairs E snd keyValuePairs) NewUsym [] [] of
                 None \<Rightarrow> None
               | Some (stacktraces, functionNames) \<Rightarrow> flame_report E stacktraces functionNames))"

section \<open>The frames of a stack\<close>

definition kernel_frames :: "perf_env \<Rightarrow> eventdata \<Rightarrow> string list" where
  "kernel_frames E ed = (if 0 < sint (ed_KstackSize ed)
     then map (\<lambda>f. f @ ''_[k]'') (the (DumpKernelBackTrace (pe_cache E) (ed_Kstack ed) 20)) else [])"

definition user_frames :: "perf_env \<Rightarrow> eventdata \<Rightarrow> string list" where
  "user_frames E ed = (if 0 < sint (ed_UstackSize ed)
     then filter (\<lambda>s. s \<noteq> []) (map (\<lambda>a. user_symbol (pe_sort_sections E) (pe_sort_symbols E) (pe_files E) (a, ed_Pid ed))
       (takeWhile (\<lambda>a. a \<noteq> 0) (ed_Ustack ed))) else [])"

definition stack_frames :: "perf_env \<Rightarrow> eventdata \<Rightarrow> string list" where
  "stack_frames E ed = kernel_frames E ed @ user_frames E ed @ [sttitle ed]"

subsection \<open>Names and their indices\<close>

lemma find_from_eq:
  "find_from n s b = (if s \<in> set b then Some (n + length (takeWhile (\<lambda>x. x \<noteq> s) b)) else None)"
  by (induction b arbitrary: n) auto

definition reads :: "string list \<Rightarrow> s32 list \<Rightarrow> string list \<Rightarrow> bool" where
  "reads names ids fs \<longleftrightarrow> (\<forall>i\<in>set ids. unat i < length names) \<and> map (\<lambda>i. names ! unat i) ids = fs"

lemma reads_append: "reads names ids fs \<Longrightarrow> reads (names @ ext) ids fs"
  by (auto simp: reads_def nth_append)

lemma unat_s32: "i < 2 ^ 32 \<Longrightarrow> unat (of_nat i :: s32) = i"
  by (simp add: unat_of_nat take_bit_nat_eq_self)

lemma add_name_reads:
  assumes "reads names ids fs" "distinct names" "length names < 2 ^ 31"
  obtains ids' ext where "add_name f (ids, names) = (ids', names @ ext)" "reads (names @ ext) ids' (fs @ [f])"
    "distinct (names @ ext)" "length ext \<le> 1"
proof (cases "f \<in> set names")
  case True
  let ?i = "length (takeWhile (\<lambda>x. x \<noteq> f) names)"
  have "?i \<noteq> length names" using True takeWhile_eq_all_conv [of "\<lambda>x. x \<noteq> f" names]
    by (metis append_Nil2 append_eq_conv_conj length_0_conv takeWhile_dropWhile_id take_all_iff order_refl)
  then have i: "?i < length names" using length_takeWhile_le [of "\<lambda>x. x \<noteq> f" names] by simp
  then have i: "?i < length names" "names ! ?i = f" using nth_length_takeWhile [of "\<lambda>x. x \<noteq> f" names] by simp_all
  with assms(3) have "unat (of_nat ?i :: s32) = ?i" by (intro unat_s32) simp
  with True i assms(1,2) show ?thesis
    by (intro that [of "ids @ [of_nat ?i]" "[]"])
      (auto simp: add_name_def findOrAdd_def find_from_eq reads_def)
next
  case False
  have "unat (of_nat (length names) :: s32) = length names" using assms(3) by (intro unat_s32) simp
  with False assms(1,2) reads_append [OF assms(1), of "[f]"] show ?thesis
    by (intro that [of "ids @ [of_nat (length names)]" "[f]"])
      (auto simp: add_name_def findOrAdd_def find_from_eq reads_def)
qed

definition add_frames :: "string list \<Rightarrow> named \<Rightarrow> named" where
  "add_frames fs st = foldl (\<lambda>st f. add_name f st) st fs"

lemma add_frames_reads:
  assumes "reads names ids gs" "distinct names" "length names + length fs < 2 ^ 31"
  obtains ids' ext where "add_frames fs (ids, names) = (ids', names @ ext)" "reads (names @ ext) ids' (gs @ fs)"
    "distinct (names @ ext)" "length ext \<le> length fs"
  using assms
proof (induction fs arbitrary: names ids gs thesis)
  case Nil
  show ?case using Nil(2,3) by (intro Nil(1) [of ids "[]"]) (simp_all add: add_frames_def)
next
  case (Cons f fs)
  obtain ids1 m1 where 1: "add_name f (ids, names) = (ids1, names @ m1)" "reads (names @ m1) ids1 (gs @ [f])"
    "distinct (names @ m1)" "length m1 \<le> 1"
    using Cons.prems(4) add_name_reads [OF Cons.prems(2,3), of f] by auto
  have "length (names @ m1) + length fs < 2 ^ 31" using Cons.prems(4) 1(4) by simp
  from Cons.IH [OF _ 1(2,3) this] obtain ids2 m2 where
    "add_frames fs (ids1, names @ m1) = (ids2, (names @ m1) @ m2)" "reads ((names @ m1) @ m2) ids2 ((gs @ [f]) @ fs)"
    "distinct ((names @ m1) @ m2)" "length m2 \<le> length fs" by blast
  with 1 show ?case by (intro Cons.prems(1) [of ids2 "m1 @ m2"]) (simp_all add: add_frames_def)
qed

subsection \<open>Kernel frames\<close>

definition one_line :: "string \<Rightarrow> bool" where
  "one_line s \<longleftrightarrow> CHR 0x0A \<notin> set s"

lemma fields_one_line: "one_line s \<Longrightarrow> w \<in> set (fields_func p s) \<Longrightarrow> one_line w"
proof (induction p s rule: fields_func.induct)
  case (1 p s)
  show ?case
  proof (cases "dropWhile p s")
    case (Cons c cs)
    have sub: "set (c # cs) \<subseteq> set s" using set_dropWhileD [of _ p s] by (auto simp: Cons [symmetric])
    have "set (takeWhile (\<lambda>x. \<not> p x) cs) \<subseteq> set cs" "set (dropWhile (\<lambda>x. \<not> p x) cs) \<subseteq> set cs"
      by (auto dest: set_takeWhileD set_dropWhileD)
    with sub 1(2) have "one_line (c # takeWhile (\<lambda>x. \<not> p x) cs)" "one_line (dropWhile (\<lambda>x. \<not> p x) cs)"
      by (auto simp: one_line_def)
    with 1(1) [OF Cons] 1(3) show ?thesis by (auto simp: fields_func.simps [of p s] Cons)
  next
    case Nil
    have "fields_func p s = []" by (subst fields_func.simps) (simp add: Nil)
    with 1(3) show ?thesis by simp
  qed
qed

definition kernel_table :: "ksymbol_cache \<Rightarrow> bool" where
  "kernel_table cache \<longleftrightarrow> sorted (map ks_addr cache) \<and> length cache < ksymbolMax \<and> cache \<noteq> [] \<and>
     ks_addr (cache ! 0) = 0 \<and> (\<forall>s\<in>set cache. one_line (ks_name s) \<and> one_line (ks_module s))"

lemma ksymbol_line_one:
  assumes "ksymbol_line line = Some s" "one_line line"
  shows "one_line (ks_name s) \<and> one_line (ks_module s)"
proof -
  let ?ws = "fields_func (\<lambda>c. c = CHR '' '' \<or> c = CHR 0x09) line"
  have ws: "i < length ?ws \<Longrightarrow> one_line (?ws ! i)" for i
    using fields_one_line [OF assms(2)] nth_mem by blast
  have len: "length ?ws = 3 \<or> length ?ws = 4"
    using assms(1) by (auto simp: ksymbol_line_def Let_def split: if_splits)
  with ws have "one_line (?ws ! 2)" "length ?ws = 3 \<or> one_line (?ws ! 3)" by auto
  moreover have "one_line moduleKernel" by (simp add: one_line_def moduleKernel_def)
  ultimately show ?thesis
    using assms(1) len by (auto simp: ksymbol_line_def Let_def split: if_splits option.splits)
qed

lemma kernel_table_load:
  assumes "go_sort srt" "loadKAllSymbols srt (Some lines) = Some cache" "length cache < ksymbolMax"
    and "\<forall>line\<in>set lines. one_line line"
  shows "kernel_table cache"
proof -
  obtain xs where xs: "load_lines lines [defaultSymbol] = Some xs" "cache = srt ks_addr xs"
    using assms(2) by (auto simp: loadKAllSymbols_def)
  have set: "set cache = insert defaultSymbol (set (List.map_filter ksymbol_line lines))"
    using load_lines_set [OF xs(1)] by (simp add: xs(2) go_sort.sort_set [OF assms(1)])
  have sorted: "sorted (map ks_addr cache)" by (simp add: xs(2) go_sort.sort_sorted [OF assms(1)])
  have ne: "cache \<noteq> []" using set by auto
  obtain k where k: "k < length cache" "cache ! k = defaultSymbol"
    using set by (metis in_set_conv_nth insertI1)
  have "ks_addr (cache ! 0) \<le> ks_addr (cache ! k)"
    using sorted_nth_mono [OF sorted, of 0 k] k(1) ne by simp
  then have "ks_addr (cache ! 0) = 0" by (simp add: k(2) defaultSymbol_def)
  moreover have "one_line (ks_name s) \<and> one_line (ks_module s)" if "s \<in> set cache" for s
    using that assms(4) ksymbol_line_one unfolding set
    by (auto simp: defaultSymbol_def one_line_def List.map_filter_def)
  ultimately show ?thesis using sorted assms(3) ne by (auto simp: kernel_table_def)
qed

lemma hex_string_one: "one_line (hex_string n)"
proof (induction n rule: hex_string.induct)
  case (1 n)
  have "hex_digits ! (n mod 16) \<in> set hex_digits" by (rule nth_mem) (simp add: hex_digits_def)
  then have "hex_digits ! (n mod 16) \<noteq> CHR 0x0A" by (auto simp: hex_digits_def)
  with 1 show ?case by (subst hex_string.simps) (auto simp: one_line_def)
qed

lemma trace_frames_table:
  assumes "kernel_table cache"
  shows "\<exists>fs. trace_frames cache addrs = Some fs \<and> (\<forall>f\<in>set fs. one_line f \<and> f \<noteq> [])"
proof (induction addrs)
  case (Cons a addrs)
  obtain s where s: "ksymbolSearch cache a = Some s" "s \<in> set cache"
    using ksymbolSearch_sorted [of cache a] assms unfolding kernel_table_def by blast
  then have "one_line (frame_string s) \<and> frame_string s \<noteq> []"
    using assms hex_string_one [of "unat (ks_addr s)"] by (auto simp: kernel_table_def frame_string_def one_line_def)
  with Cons s(1) show ?case by (cases "ks_name s = []") auto
qed simp

lemma foldl_filtered: "foldl (\<lambda>st v. if P v then g v st else st) st xs = foldl (\<lambda>st v. g v st) st (filter P xs)"
  by (induction xs arbitrary: st) auto

lemma kernel_names_frames:
  assumes "kernel_table (pe_cache E)"
  shows "kernel_names E ed st = Some (add_frames (kernel_frames E ed) st)" "length (kernel_frames E ed) \<le> 20"
proof -
  note table = assms [unfolded kernel_table_def]
  obtain fs where fs: "DumpKernelBackTrace (pe_cache E) (ed_Kstack ed) 20 = Some fs" "length fs \<le> 20"
    using trace_frames_total [of "pe_cache E" "ed_Kstack ed" 20] table by auto
  have "\<forall>f\<in>set fs. CHR 0x0A \<notin> set f \<and> f \<noteq> []"
    using trace_frames_table [OF assms, of "takeWhile (\<lambda>a. a \<noteq> 0) (take 20 (ed_Kstack ed))"] fs(1)
    by (auto simp: DumpKernelBackTrace_def one_line_def)
  from Split_Join_filter [OF this] show "kernel_names E ed st = Some (add_frames (kernel_frames E ed) st)"
    by (simp add: kernel_names_def kernel_frames_def CgDumpTrace_def fs(1) add_frames_def foldl_filtered foldl_map)
  show "length (kernel_frames E ed) \<le> 20" using fs by (simp add: kernel_frames_def)
qed

subsection \<open>User frames\<close>

definition sorts_ok :: "perf_env \<Rightarrow> bool" where
  "sorts_ok E \<longleftrightarrow> go_sort (pe_sort_sections E) \<and> go_sort (pe_sort_symbols E) \<and> go_sort (pe_sort_pairs E)"

abbreviation caches_ok :: "perf_env \<Rightarrow> usym \<Rightarrow> bool" where
  "caches_ok E \<equiv> usym_ok (pe_sort_sections E) (pe_sort_symbols E) (pe_files E)"

lemma user_names_frames:
  assumes "sorts_ok E" "caches_ok E u"
  shows "\<exists>u'. caches_ok E u' \<and> user_names E pid addrs u st = (u', add_frames (filter (\<lambda>s. s \<noteq> [])
    (map (\<lambda>a. user_symbol (pe_sort_sections E) (pe_sort_symbols E) (pe_files E) (a, pid)) (takeWhile (\<lambda>a. a \<noteq> 0) addrs))) st)"
  using assms(2)
proof (induction addrs arbitrary: u st)
  case (Cons a addrs)
  obtain u1 s where r: "ResolveUstack (pe_sort_sections E) (pe_sort_symbols E) (pe_files E) a pid u = (u1, s)"
    by fastforce
  have "go_sort (pe_sort_sections E)" "go_sort (pe_sort_symbols E)" using assms(1) by (simp_all add: sorts_ok_def)
  from ResolveUstack_step [OF this Cons.prems, of a pid]
  have "caches_ok E u1" "s = user_symbol (pe_sort_sections E) (pe_sort_symbols E) (pe_files E) (a, pid)"
    by (simp_all add: r)
  with Cons.IH [of u1] Cons.prems r show ?case by (auto simp: add_frames_def)
qed (auto simp: add_frames_def)

lemma sample_step:
  assumes "kernel_table (pe_cache E)" "sorts_ok E" "caches_ok E u"
  shows "\<exists>u'. caches_ok E u' \<and> sample_loop E ((ed, v) # kvs) u acc names =
    (case add_frames (stack_frames E ed) ([], names) of
       (ids, names) \<Rightarrow> sample_loop E kvs u' (acc @ [\<lparr>sm_Value = v, sm_FunctionIds = ids\<rparr>]) names)"
proof -
  let ?st = "add_frames (kernel_frames E ed) ([], names)"
  let ?u = "if sint (ed_UstackSize ed) > 0 then user_names E (ed_Pid ed) (ed_Ustack ed) u ?st else (u, ?st)"
  obtain u' where u': "caches_ok E u'" "?u = (u', add_frames (user_frames E ed) ?st)"
    using user_names_frames [OF assms(2,3), of "ed_Pid ed" "ed_Ustack ed" ?st] assms(3)
    by (cases "sint (ed_UstackSize ed) > 0") (auto simp: user_frames_def add_frames_def)
  have "add_frames (stack_frames E ed) ([], names) = add_name (sttitle ed) (add_frames (user_frames E ed) ?st)"
    by (simp add: stack_frames_def add_frames_def)
  with u'(2) have "sample_loop E ((ed, v) # kvs) u acc names =
    (case add_frames (stack_frames E ed) ([], names) of
       (ids, names) \<Rightarrow> sample_loop E kvs u' (acc @ [\<lparr>sm_Value = v, sm_FunctionIds = ids\<rparr>]) names)"
    by (simp add: kernel_names_frames [OF assms(1)])
  with u'(1) show ?thesis by blast
qed

lemma stack_frames_bound:
  assumes "kernel_table (pe_cache E)" "length (ed_Ustack ed) \<le> 20"
  shows "length (stack_frames E ed) \<le> 41"
proof -
  have "length (user_frames E ed) \<le> length (takeWhile (\<lambda>a. a \<noteq> 0) (ed_Ustack ed))"
    unfolding user_frames_def by (simp add: le_trans [OF length_filter_le])
  also have "\<dots> \<le> 20" using assms(2) length_takeWhile_le le_trans by blast
  finally show ?thesis using kernel_names_frames(2) [OF assms(1), of ed] by (simp add: stack_frames_def)
qed

definition sample_ok :: "perf_env \<Rightarrow> string list \<Rightarrow> sample \<Rightarrow> stack_count \<Rightarrow> bool" where
  "sample_ok E names s kv \<longleftrightarrow> sm_Value s = snd kv \<and> reads names (sm_FunctionIds s) (stack_frames E (fst kv))"

lemma sample_loop_ok:
  assumes "kernel_table (pe_cache E)" "sorts_ok E"
  shows "caches_ok E u \<Longrightarrow> distinct names \<Longrightarrow> length names + 41 * length kvs < 2 ^ 31 \<Longrightarrow>
    \<forall>(ed, v)\<in>set kvs. length (ed_Ustack ed) \<le> 20 \<Longrightarrow>
    \<exists>ss ext. sample_loop E kvs u acc names = Some (acc @ ss, names @ ext) \<and> distinct (names @ ext) \<and>
      list_all2 (sample_ok E (names @ ext)) ss kvs"
proof (induction kvs arbitrary: u acc names)
  case (Cons kv kvs)
  obtain ed v where kv: "kv = (ed, v)" by (cases kv)
  have n: "length (stack_frames E ed) \<le> 41" using stack_frames_bound [OF assms(1)] Cons.prems(4) by (simp add: kv)
  have "reads names [] []" by (simp add: reads_def)
  moreover have "length names + length (stack_frames E ed) < 2 ^ 31" using n Cons.prems(3) by simp
  ultimately obtain ids m1 where 1: "add_frames (stack_frames E ed) ([], names) = (ids, names @ m1)"
    "reads (names @ m1) ids (stack_frames E ed)" "distinct (names @ m1)" "length m1 \<le> length (stack_frames E ed)"
    using add_frames_reads [OF _ Cons.prems(2), of "[]" "[]" "stack_frames E ed"] by auto
  obtain u' where u': "caches_ok E u'" and loop: "sample_loop E ((ed, v) # kvs) u acc names =
      sample_loop E kvs u' (acc @ [\<lparr>sm_Value = v, sm_FunctionIds = ids\<rparr>]) (names @ m1)"
    using sample_step [OF assms Cons.prems(1), of ed v kvs acc names] 1(1) by auto
  have "length (names @ m1) + 41 * length kvs < 2 ^ 31" using Cons.prems(3) 1(4) n by simp
  from Cons.IH [OF u' 1(3) this, of "acc @ [\<lparr>sm_Value = v, sm_FunctionIds = ids\<rparr>]"] Cons.prems(4)
  obtain ss m2 where 2: "sample_loop E kvs u' (acc @ [\<lparr>sm_Value = v, sm_FunctionIds = ids\<rparr>]) (names @ m1) =
      Some ((acc @ [\<lparr>sm_Value = v, sm_FunctionIds = ids\<rparr>]) @ ss, (names @ m1) @ m2)"
    "distinct ((names @ m1) @ m2)" "list_all2 (sample_ok E ((names @ m1) @ m2)) ss kvs" by auto
  have "sample_ok E (names @ m1 @ m2) \<lparr>sm_Value = v, sm_FunctionIds = ids\<rparr> (ed, v)"
    using reads_append [OF 1(2), of m2] by (simp add: sample_ok_def)
  with 2 loop show ?case
    by (intro exI [of _ "\<lparr>sm_Value = v, sm_FunctionIds = ids\<rparr> # ss"] exI [of _ "m1 @ m2"]) (simp add: kv)
qed simp

section \<open>From the clock ticks to the samples\<close>

text \<open>A key of the map as the bytes of the C structure, and as the structure of the agent.\<close>

definition key_bytes :: "key_t \<Rightarrow> byte list" where
  "key_bytes k = kt_ustack k @ kt_kstack k @ enc 8 (kt_ustack_size k) @ enc 8 (kt_kstack_size k) @
     enc 4 (kt_pid k) @ kt_name k @ replicate 4 0"

definition event_of :: "key_t \<Rightarrow> eventdata" where
  "event_of k = \<lparr>ed_Ustack = read_u64s 20 (kt_ustack k), ed_Kstack = read_u64s 20 (kt_kstack k),
     ed_UstackSize = kt_ustack_size k, ed_KstackSize = kt_kstack_size k, ed_Pid = kt_pid k, ed_Name = kt_name k\<rparr>"

definition key_sized :: "key_t \<Rightarrow> bool" where
  "key_sized k \<longleftrightarrow> length (kt_ustack k) = 160 \<and> length (kt_kstack k) = 160 \<and> length (kt_name k) = 16"

lemma key_bytes_size: "key_sized k \<Longrightarrow> length (key_bytes k) = sizeof c_key_t"
  by (simp add: key_sized_def key_bytes_def c_key_t_def layout_eval)

lemma read_eventdata_key: "key_sized k \<Longrightarrow> read_eventdata (key_bytes k) = Inr (event_of k)"
  by (simp add: key_sized_def read_eventdata_def key_bytes_def event_of_def go_eventdata_def)

lemma read_pairs_keys:
  "\<forall>(k, v)\<in>set kvs. key_sized k \<Longrightarrow>
   read_pairs (map (\<lambda>(k, v). (key_bytes k, enc 8 v)) kvs) = Inr (map (\<lambda>(k, v). (event_of k, v)) kvs)"
  by (induction kvs) (auto simp: read_eventdata_key read_fields_def)

lemma two_u64s: "read_u64s 20 bs = dec (take 8 bs) # dec (take 8 (drop 8 bs)) # read_u64s 18 (drop 16 bs)"
  by (simp add: eval_nat_numeral)

lemma dec_replicate: "dec (replicate n 0) = 0"
  by (induction n) (simp_all add: dec_def)

lemma length_read_u64s [simp]: "length (read_u64s n bs) = n"
  by (induction n arbitrary: bs) simp_all

definition sample_view :: "string list \<Rightarrow> sample \<Rightarrow> s64 \<times> string list" where
  "sample_view names s = (sm_Value s, map (\<lambda>i. names ! unat i) (sm_FunctionIds s))"

lemma sample_views:
  "list_all2 (sample_ok E names) ss kvs \<Longrightarrow>
   map (sample_view names) ss = map (\<lambda>(ed, v). (v, stack_frames E ed)) kvs"
  by (induction rule: list_all2_induct) (auto simp: sample_view_def sample_ok_def reads_def)

lemma parsedata_samples:
  assumes "kernel_table (pe_cache E)" "sorts_ok E" "\<forall>(k, v)\<in>set kvs. key_sized k"
    and "kvs \<noteq> []" "length kvs \<le> counts_max_entries"
  shows "\<exists>ss names. parsedata E (Inr (map (\<lambda>(k, v). (key_bytes k, enc 8 v)) kvs)) = flame_report E ss names \<and>
    distinct names \<and> sorted (map sm_Value ss) \<and>
    mset (map (sample_view names) ss) = mset (map (\<lambda>(k, v). (v, stack_frames E (event_of k))) kvs)"
proof -
  let ?kvs = "map (\<lambda>(k, v). (event_of k, v)) kvs"
  let ?s = "pe_sort_pairs E snd ?kvs"
  have srt: "go_sort (pe_sort_pairs E)" using assms(2) by (simp add: sorts_ok_def)
  have "caches_ok E NewUsym" by (simp add: usym_ok_def NewUsym_def)
  moreover have "length ([] :: string list) + 41 * length ?s < 2 ^ 31"
    using assms(5) by (simp add: go_sort.sort_length [OF srt] counts_max_entries_def)
  moreover have "\<forall>(ed, v)\<in>set ?s. length (ed_Ustack ed) \<le> 20"
    by (auto simp: go_sort.sort_set [OF srt] event_of_def)
  ultimately obtain ss names where s: "sample_loop E ?s NewUsym [] [] = Some (ss, names)" "distinct names"
    "list_all2 (sample_ok E names) ss ?s"
    using sample_loop_ok [OF assms(1,2), of NewUsym "[]" ?s "[]"] by auto
  have "parsedata E (Inr (map (\<lambda>(k, v). (key_bytes k, enc 8 v)) kvs)) = flame_report E ss names"
    using assms(4) s(1) by (simp add: parsedata_def read_pairs_keys [OF assms(3)])
  moreover have "map sm_Value ss = map snd ?s"
    using s(3) by (induction rule: list_all2_induct) (auto simp: sample_ok_def)
  then have "sorted (map sm_Value ss)" by (simp add: go_sort.sort_sorted [OF srt])
  moreover have "mset (map (sample_view names) ss) = image_mset (\<lambda>(ed, v). (v, stack_frames E ed)) (mset ?kvs)"
    by (simp add: sample_views [OF s(3)] go_sort.sort_mset [OF srt])
  then have "mset (map (sample_view names) ss) = mset (map (\<lambda>(k, v). (v, stack_frames E (event_of k))) kvs)"
    by (simp add: multiset.map_comp comp_def case_prod_unfold)
  ultimately show ?thesis using s(2) by blast
qed


definition perf_example :: perf_env where
  "perf_example = \<lparr>pe_cache = the (loadKAllSymbols sort_key (Some kallsyms_example)), pe_files = files_example,
     pe_sort_sections = sort_key, pe_sort_symbols = sort_key, pe_sort_pairs = sort_key,
     pe_merge = (\<lambda>_ _. Inl ''phlaremodel: Error parsing stack data''), pe_order = id\<rparr>"

definition tick_example :: bpf_env where
  "tick_example = (kernel_env [] 0 0x0000000700000007 0)\<lparr>
     get_stack := (\<lambda>flags n. if flags = 256 then (8, enc 8 (0x1120 :: u64) @ replicate 152 0) else (-14, replicate 160 0)),
     current_comm := [112, 114, 111, 103] @ replicate 12 0\<rparr>"


end
