(* ===== verification/Readers.thy ===== *)
theory Readers
  imports Perf_Report
begin

text \<open>
  What the readers of the event programs under \<^verbatim>\<open>core/events\<close> share: the loop over a perf buffer, the
  conversions of \<^verbatim>\<open>internal/utils/netutil\<close>, and the string functions of Go they use.
\<close>

section \<open>Reading a perf buffer\<close>

text \<open>How a loop ends: it was told to stop, a record could not be decoded, its handler failed, or a panic.\<close>

datatype reader_end = Context_done | Read_failed | Handler_failed | Panicked

text \<open>A handler ends the loop (left) or goes on with a new state (right).\<close>

fun read_loop :: "('r \<Rightarrow> 'e option) \<Rightarrow> ('e \<Rightarrow> 's \<Rightarrow> reader_end \<times> 's + 's) \<Rightarrow> 'r list \<Rightarrow> 's \<Rightarrow> reader_end \<times> 's" where
  "read_loop rd handle [] s = (Context_done, s)"
| "read_loop rd handle (bs # bss) s =
     (case rd bs of
        None \<Rightarrow> (Read_failed, s)
      | Some e \<Rightarrow> (case handle e s of Inl r \<Rightarrow> r | Inr s \<Rightarrow> read_loop rd handle bss s))"

lemma read_loop_all:
  assumes "\<And>x. x \<in> set xs \<Longrightarrow> rd (img x) = Some (ev x)"
    and "\<And>x s. x \<in> set xs \<Longrightarrow> handle (ev x) s = Inr (upd x s)"
  shows "read_loop rd handle (map img xs) s = (Context_done, fold upd xs s)"
  using assms by (induction xs arbitrary: s) auto

text \<open>A handler that only stores documents.\<close>

lemma read_loop_filter:
  assumes "\<And>x. x \<in> set xs \<Longrightarrow> rd (img x) = Some (ev x)"
    and "\<And>x docs. x \<in> set xs \<Longrightarrow> handle (ev x) docs = Inr (if keep x then docs @ [doc x] else docs)"
  shows "read_loop rd handle (map img xs) [] = (Context_done, map doc (filter keep xs))"
proof -
  have "fold (\<lambda>x docs. if keep x then docs @ [doc x] else docs) ys docs = docs @ map doc (filter keep ys)" for ys docs
    by (induction ys arbitrary: docs) simp_all
  then show ?thesis
    using read_loop_all [where ev = ev and upd = "\<lambda>x docs. if keep x then docs @ [doc x] else docs", of xs rd img handle "[]"] assms
    by simp
qed

section \<open>Network byte order\<close>

text \<open>On the little-endian machines the programs run on.\<close>

definition InetNtop :: "u32 \<Rightarrow> byte list" where
  "InetNtop ip = enc 4 ip"

definition InetNtohs :: "u16 \<Rightarrow> u16" where
  "InetNtohs val = dec (rev (enc 2 val))"

definition InetNtohl :: "u32 \<Rightarrow> u32" where
  "InetNtohl val = dec (rev (enc 4 val))"

text \<open>The string of an IPv4 address.\<close>

fun decimal :: "nat \<Rightarrow> string" where
  "decimal n = (if n < 10 then [char_of (48 + n)] else decimal (n div 10) @ [char_of (48 + n mod 10)])"

declare decimal.simps [simp del]

definition IP_String :: "byte list \<Rightarrow> string" where
  "IP_String ip = strings_Join ''.'' (map (\<lambda>b. decimal (unat b)) ip)"

lemma InetNtop_dec: "length bs = 4 \<Longrightarrow> InetNtop (dec bs) = bs"
  using enc_dec [of bs, where 'a = 32] by (simp add: InetNtop_def)

lemma InetNtohs_dec: "length bs = 2 \<Longrightarrow> InetNtohs (dec bs) = dec (rev bs)"
  using enc_dec [of bs, where 'a = 16] by (simp add: InetNtohs_def)

lemma InetNtohl_dec: "length bs = 4 \<Longrightarrow> InetNtohl (dec bs) = dec (rev bs)"
  using enc_dec [of bs, where 'a = 32] by (simp add: InetNtohl_def)

section \<open>Strings\<close>

definition HasPrefix :: "string \<Rightarrow> string \<Rightarrow> bool" where
  "HasPrefix s p \<longleftrightarrow> take (length p) s = p"

definition bytes_string :: "byte list \<Rightarrow> string" where
  "bytes_string bs = strings_TrimRight (CHR 0x00) (map (char_of \<circ> unat) bs)"

fun Contains :: "string \<Rightarrow> string \<Rightarrow> bool" where
  "Contains [] p \<longleftrightarrow> p = []"
| "Contains (c # s) p \<longleftrightarrow> HasPrefix (c # s) p \<or> Contains s p"

lemma Contains_sublist: "Contains s p \<longleftrightarrow> (\<exists>a b. s = a @ p @ b)"
proof (induction s)
  case Nil
  then show ?case by simp
next
  case (Cons c s)
  have "HasPrefix (c # s) p \<longleftrightarrow> (\<exists>b. c # s = p @ b)"
    unfolding HasPrefix_def by (metis append_eq_conv_conj append_take_drop_id)
  then show ?case unfolding Contains.simps Cons by (metis append_Cons append_Nil list.exhaust_sel list.inject neq_Nil_conv append_eq_Cons_conv)
qed

text \<open>\<open>strings.Split\<close> at a separator of several characters.\<close>

fun split_at :: "string \<Rightarrow> string \<Rightarrow> string \<Rightarrow> string list" where
  "split_at sep acc [] = [acc]"
| "split_at sep acc (c # s) =
     (if HasPrefix (c # s) sep then acc # split_at sep [] (drop (length sep - 1) s) else split_at sep (acc @ [c]) s)"

end
