(* ===== verification/Drop_Reader.thy ===== *)
theory Drop_Reader
  imports Dropwatch Readers
begin

text \<open>
  The reader of dropped packets, \<^verbatim>\<open>core/events/dropwatch.go\<close>. Together with the program in \<open>Dropwatch\<close>
  this gives the documents that are stored for a sequence of dropped packets.
\<close>

section \<open>core/events/dropwatch.go\<close>

definition KsymbolStackMaxDepth :: nat where [simp]: "KsymbolStackMaxDepth = 127"

record perfEventT =
  pv_TgidPid :: u64
  pv_Saddr :: u32
  pv_Daddr :: u32
  pv_Sport :: u16
  pv_Dport :: u16
  pv_Seq :: u32
  pv_AckSeq :: u32
  pv_QueueMapping :: u32
  pv_PktLen :: u64
  pv_StackSize :: s64
  pv_Stack :: "u64 list"
  pv_SkMaxAckBacklog :: u32
  pv_State :: u8
  pv_Type :: u8
  pv_Comm :: "byte list"

definition read_perfEventT :: "byte list \<Rightarrow> perfEventT option" where
  "read_perfEventT bs =
     (case binary_read go_perfEventT bs of
        None \<Rightarrow> None
      | Some fs \<Rightarrow>
          let f = (\<lambda>i. snd (fs ! i)) in
          Some \<lparr>pv_TgidPid = dec (f 0), pv_Saddr = dec (f 1), pv_Daddr = dec (f 2), pv_Sport = dec (f 3),
            pv_Dport = dec (f 4), pv_Seq = dec (f 5), pv_AckSeq = dec (f 6), pv_QueueMapping = dec (f 7),
            pv_PktLen = dec (f 8), pv_StackSize = dec (f 9), pv_Stack = read_u64s KsymbolStackMaxDepth (f 10),
            pv_SkMaxAckBacklog = dec (f 11), pv_State = dec (f 12), pv_Type = dec (f 13), pv_Comm = f 14\<rparr>)"

definition tcpstateMap :: "string list" where
  "tcpstateMap = [''<nil>'', ''ESTABLISHED'', ''SYN_SENT'', ''SYN_RECV'', ''FIN_WAIT1'', ''FIN_WAIT2'', ''TIME_WAIT'',
     ''CLOSE'', ''CLOSE_WAIT'', ''LAST_ACK'', ''LISTEN'', ''CLOSING'', ''NEW_SYN_RECV'']"

definition typeMap :: "u8 \<Rightarrow> string" where
  "typeMap t =
     (case map_of [(1, ''common_drop''), (2, ''syn_flood''), (3, ''listen_overflow_handshake1''),
        (4, ''listen_overflow_handshake3'')] t of None \<Rightarrow> [] | Some s \<Rightarrow> s)"

record DropWatchTracingData =
  dd_Type :: string
  dd_Comm :: string
  dd_Pid :: u64
  dd_Saddr :: string
  dd_Daddr :: string
  dd_Sport :: u16
  dd_Dport :: u16
  dd_SrcHostname :: string
  dd_DestHostname :: string
  dd_MaxAckBacklog :: u32
  dd_Seq :: u32
  dd_AckSeq :: u32
  dd_QueueMapping :: u32
  dd_PktLen :: u64
  dd_State :: string
  dd_Stack :: string

text \<open>The surroundings: the kernel symbols, the resolver of host names, and a switch of the configuration.\<close>

record drop_conf =
  dc_cache :: ksymbol_cache
  dc_LookupAddr :: "string \<Rightarrow> string list option"
  dc_IgnoreNeighInvalidate :: bool

definition hostname :: "drop_conf \<Rightarrow> string \<Rightarrow> string" where
  "hostname D addr = (case dc_LookupAddr D addr of Some (h # _) \<Rightarrow> h | _ \<Rightarrow> ''<nil>'')"

text \<open>\<open>None\<close> is a panic: of the search for a symbol, or for a state without a name.\<close>

definition formatEvent :: "drop_conf \<Rightarrow> perfEventT \<Rightarrow> DropWatchTracingData option" where
  "formatEvent D event =
     (let saddr = IP_String (InetNtop (pv_Saddr event)); daddr = IP_String (InetNtop (pv_Daddr event)) in
      case DumpKernelBackTrace (dc_cache D) (pv_Stack event) KsymbolStackMaxDepth of
        None \<Rightarrow> None
      | Some frames \<Rightarrow>
          if length tcpstateMap \<le> unat (pv_State event) then None
          else Some \<lparr>dd_Type = typeMap (pv_Type event), dd_Comm = bytes_string (pv_Comm event),
            dd_Pid = drop_bit 32 (pv_TgidPid event), dd_Saddr = saddr, dd_Daddr = daddr,
            dd_Sport = InetNtohs (pv_Sport event), dd_Dport = InetNtohs (pv_Dport event),
            dd_SrcHostname = hostname D saddr, dd_DestHostname = hostname D daddr,
            dd_MaxAckBacklog = pv_SkMaxAckBacklog event, dd_Seq = InetNtohl (pv_Seq event),
            dd_AckSeq = InetNtohl (pv_AckSeq event), dd_QueueMapping = pv_QueueMapping event,
            dd_PktLen = pv_PktLen event, dd_State = tcpstateMap ! unat (pv_State event),
            dd_Stack = strings_Join [CHR 0x0A] frames\<rparr>)"

definition drop_ignore :: "drop_conf \<Rightarrow> DropWatchTracingData \<Rightarrow> bool" where
  "drop_ignore D data =
     (let stack = strings_Split (CHR 0x0A) (dd_Stack data) in
      if dd_State data = ''CLOSE_WAIT'' \<and> 3 \<le> length stack \<and> HasPrefix (stack ! 2) ''skb_rbtree_purge/'' then True
      else if dc_IgnoreNeighInvalidate D \<and> 3 \<le> length stack \<and> HasPrefix (stack ! 2) ''neigh_invalidate/'' then True
      else 3 \<le> length stack \<and> (HasPrefix (stack ! 2) ''bnxt_tx_int/'' \<or> HasPrefix (stack ! 2) ''__bnxt_tx_int/''))"

text \<open>One round of the loop; the state is the list of the stored documents.\<close>

definition dropwatch_event :: "drop_conf \<Rightarrow> perfEventT \<Rightarrow> DropWatchTracingData list \<Rightarrow> reader_end \<times> DropWatchTracingData list + DropWatchTracingData list" where
  "dropwatch_event D event saved =
     (case formatEvent D event of
        None \<Rightarrow> Inl (Panicked, saved)
      | Some tracerData \<Rightarrow> Inr (if drop_ignore D tracerData then saved else saved @ [tracerData]))"

definition dropWatchTracing_Start :: "drop_conf \<Rightarrow> byte list list \<Rightarrow> reader_end \<times> DropWatchTracingData list" where
  "dropWatchTracing_Start D records = read_loop read_perfEventT (dropwatch_event D) records []"

section \<open>From the packets to the documents\<close>

text \<open>An event as the bytes of the C structure.\<close>

definition drop_bytes :: "drop_event \<Rightarrow> byte list" where
  "drop_bytes v = enc 8 (dw_tgid_pid v) @ enc 4 (dw_saddr v) @ enc 4 (dw_daddr v) @ enc 2 (dw_sport v) @
     enc 2 (dw_dport v) @ enc 4 (dw_seq v) @ enc 4 (dw_ack_seq v) @ enc 4 (dw_queue_mapping v) @ enc 8 (dw_pkt_len v) @
     enc 8 (dw_stack_size v) @ dw_stack v @ enc 4 (dw_sk_max_ack_backlog v) @ enc 1 (dw_state v) @ enc 1 (dw_type v) @
     dw_comm v @ replicate 2 0"

definition perf_of :: "drop_event \<Rightarrow> perfEventT" where
  "perf_of v = \<lparr>pv_TgidPid = dw_tgid_pid v, pv_Saddr = dw_saddr v, pv_Daddr = dw_daddr v, pv_Sport = dw_sport v,
     pv_Dport = dw_dport v, pv_Seq = dw_seq v, pv_AckSeq = dw_ack_seq v, pv_QueueMapping = dw_queue_mapping v,
     pv_PktLen = dw_pkt_len v, pv_StackSize = dw_stack_size v, pv_Stack = read_u64s 127 (dw_stack v),
     pv_SkMaxAckBacklog = dw_sk_max_ack_backlog v, pv_State = dw_state v, pv_Type = dw_type v, pv_Comm = dw_comm v\<rparr>"

lemma read_drop_bytes:
  assumes "length (dw_stack v) = 1016" "length (dw_comm v) = 16"
  shows "read_perfEventT (drop_bytes v) = Some (perf_of v)"
  using assms by (simp add: read_perfEventT_def drop_bytes_def perf_of_def go_perfEventT_def Let_def)

lemma drop_bytes_size:
  assumes "length (dw_stack v) = 1016" "length (dw_comm v) = 16"
  shows "length (drop_bytes v) = sizeof c_drop_event"
  using assms by (simp add: drop_bytes_def c_drop_event_def layout_eval)

text \<open>What is read of a packet: its headers in full, a known state, and buffers of the sizes asked for.\<close>

definition packet_state :: "drop_hook \<Rightarrow> u8" where
  "packet_state h = read8 (drop_env h) (read64 (drop_env h) (drop_skb h) ''sk_buff'' [''sk'']) ''sock_common'' [''skc_state'']"

definition packet_read :: "drop_hook \<Rightarrow> bool" where
  "packet_read h \<longleftrightarrow> length (read_iphdr (drop_env h) (drop_skb h)) = 20 \<and> length (read_tcphdr (drop_env h) (drop_skb h)) = 20 \<and>
     unat (packet_state h) \<le> 12 \<and> length (snd (get_stack (drop_env h) 0 1016)) = 1016 \<and>
     length (current_comm (drop_env h)) = 16"

definition packet_frames :: "drop_conf \<Rightarrow> drop_hook \<Rightarrow> string list" where
  "packet_frames D h = the (DumpKernelBackTrace (dc_cache D) (read_u64s 127 (snd (get_stack (drop_env h) 0 1016))) 127)"

text \<open>The document of a packet: addresses and numbers from the bytes of its headers, most significant first.\<close>

definition packet_doc :: "drop_conf \<Rightarrow> drop_hook \<Rightarrow> DropWatchTracingData" where
  "packet_doc D h =
     (let e = drop_env h; skb = drop_skb h; ip = read_iphdr e skb; tcp = read_tcphdr e skb;
          saddr = IP_String (take 4 (drop 12 ip)); daddr = IP_String (take 4 (drop 16 ip))
      in \<lparr>dd_Type = ''common_drop'', dd_Comm = bytes_string (current_comm e), dd_Pid = drop_bit 32 (current_pid_tgid e),
          dd_Saddr = saddr, dd_Daddr = daddr, dd_Sport = dec (rev (take 2 tcp)), dd_Dport = dec (rev (take 2 (drop 2 tcp))),
          dd_SrcHostname = hostname D saddr, dd_DestHostname = hostname D daddr, dd_MaxAckBacklog = 0,
          dd_Seq = dec (rev (take 4 (drop 4 tcp))), dd_AckSeq = dec (rev (take 4 (drop 8 tcp))),
          dd_QueueMapping = ucast (read16 e skb ''sk_buff'' [''queue_mapping'']),
          dd_PktLen = ucast (read32 e skb ''sk_buff'' [''len'']), dd_State = tcpstateMap ! unat (packet_state h),
          dd_Stack = strings_Join [CHR 0x0A] (packet_frames D h)\<rparr>)"

text \<open>The drops that are noise: by the third function of the stack, for one of them by the state too.\<close>

definition noise :: "drop_conf \<Rightarrow> drop_hook \<Rightarrow> bool" where
  "noise D h \<longleftrightarrow> (case packet_frames D h of
     _ # _ # f # _ \<Rightarrow> packet_state h = 8 \<and> HasPrefix f ''skb_rbtree_purge/'' \<or>
       dc_IgnoreNeighInvalidate D \<and> HasPrefix f ''neigh_invalidate/'' \<or>
       HasPrefix f ''bnxt_tx_int/'' \<or> HasPrefix f ''__bnxt_tx_int/''
   | _ \<Rightarrow> False)"

lemma packet_frames_table:
  assumes "kernel_table (dc_cache D)"
  shows "DumpKernelBackTrace (dc_cache D) (read_u64s 127 (snd (get_stack (drop_env h) 0 1016))) 127 = Some (packet_frames D h)"
    "\<forall>f\<in>set (packet_frames D h). CHR 0x0A \<notin> set f"
  using trace_frames_table [OF assms, of "takeWhile (\<lambda>a. a \<noteq> 0) (take 127 (read_u64s 127 (snd (get_stack (drop_env h) 0 1016))))"]
  by (auto simp: packet_frames_def DumpKernelBackTrace_def one_line_def)

lemma format_packet:
  assumes "kernel_table (dc_cache D)" "packet_read h"
  shows "formatEvent D (perf_of (drop_report h)) = Some (packet_doc D h)"
proof -
  have len: "length (read_iphdr (drop_env h) (drop_skb h)) = 20" "length (read_tcphdr (drop_env h) (drop_skb h)) = 20"
    "unat (packet_state h) < 13" using assms(2) by (simp_all add: packet_read_def)
  have st: "unat (packet_state h) < length tcpstateMap" using len(3) by (simp add: tcpstateMap_def)
  have "perf_of (drop_report h) = \<lparr>pv_TgidPid = current_pid_tgid (drop_env h),
      pv_Saddr = dec (take 4 (drop 12 (read_iphdr (drop_env h) (drop_skb h)))),
      pv_Daddr = dec (take 4 (drop 16 (read_iphdr (drop_env h) (drop_skb h)))),
      pv_Sport = dec (take 2 (read_tcphdr (drop_env h) (drop_skb h))),
      pv_Dport = dec (take 2 (drop 2 (read_tcphdr (drop_env h) (drop_skb h)))),
      pv_Seq = dec (take 4 (drop 4 (read_tcphdr (drop_env h) (drop_skb h)))),
      pv_AckSeq = dec (take 4 (drop 8 (read_tcphdr (drop_env h) (drop_skb h)))),
      pv_QueueMapping = ucast (read16 (drop_env h) (drop_skb h) ''sk_buff'' [''queue_mapping'']),
      pv_PktLen = ucast (read32 (drop_env h) (drop_skb h) ''sk_buff'' [''len'']),
      pv_StackSize = fst (get_stack (drop_env h) 0 1016), pv_Stack = read_u64s 127 (snd (get_stack (drop_env h) 0 1016)),
      pv_SkMaxAckBacklog = 0, pv_State = packet_state h, pv_Type = 1, pv_Comm = current_comm (drop_env h)\<rparr>"
    by (simp add: perf_of_def drop_report_def fill_drop_event_def Let_def ip_tcp_bytes packet_state_def split: prod.split)
  then show ?thesis
    using packet_frames_table(1) [OF assms(1), of h] len st
    by (simp add: formatEvent_def packet_doc_def Let_def InetNtop_dec InetNtohs_dec InetNtohl_dec typeMap_def not_le)
qed

lemma state_close_wait: "unat s \<le> 12 \<Longrightarrow> tcpstateMap ! unat s = ''CLOSE_WAIT'' \<longleftrightarrow> s = (8 :: u8)"
proof -
  assume s: "unat s \<le> 12"
  have "distinct tcpstateMap" "tcpstateMap ! 8 = ''CLOSE_WAIT''" "length tcpstateMap = 13"
    by (simp_all add: tcpstateMap_def)
  then have "tcpstateMap ! unat s = ''CLOSE_WAIT'' \<longleftrightarrow> unat s = 8"
    using s nth_eq_iff_index_eq [of tcpstateMap "unat s" 8] by simp
  then show ?thesis by (simp add: word_unat_eq_iff)
qed

lemma ignore_packet:
  assumes "kernel_table (dc_cache D)" "packet_read h"
  shows "drop_ignore D (packet_doc D h) = noise D h"
proof -
  let ?fs = "packet_frames D h"
  have state: "dd_State (packet_doc D h) = ''CLOSE_WAIT'' \<longleftrightarrow> packet_state h = 8"
    using assms(2) state_close_wait by (simp add: packet_doc_def Let_def packet_read_def)
  have stack: "dd_Stack (packet_doc D h) = strings_Join [CHR 0x0A] ?fs" by (simp add: packet_doc_def Let_def)
  show ?thesis
  proof (cases "?fs = []")
    case True
    then show ?thesis by (simp add: drop_ignore_def noise_def stack)
  next
    case False
    then have split: "strings_Split (CHR 0x0A) (dd_Stack (packet_doc D h)) = ?fs"
      unfolding stack by (intro Split_Join packet_frames_table(2) [OF assms(1)])
    show ?thesis unfolding drop_ignore_def split state noise_def
      by (auto simp: Let_def split: list.split)
  qed
qed

lemma report_buffers:
  assumes "packet_read h"
  shows "length (dw_stack (drop_report h)) = 1016" "length (dw_comm (drop_report h)) = 16"
  using assms by (cases "get_stack (drop_env h) 0 1016"; simp add: packet_read_def drop_report_def fill_drop_event_def Let_def)+

text \<open>
  C36. From the dropped packets to the stored documents: for every sequence of dropped packets, the reader stores,
  in order, one document for each packet that passes the filter of the program and its rate limiter and whose
  drop is not one of the four known kinds of noise. The document has the addresses as dotted decimals, the ports
  and sequence numbers as the packet's headers have them (most significant byte first), the name and the process
  of the current task, the name of the socket's state, and the functions on the stack.
\<close>

theorem dropwatch_documents:
  fixes hs :: "drop_hook list"
  assumes "bpf_array_map M 1" "\<forall>c. lookup_elem M (m c) 0 = Some zero_data"
    and "kernel_table (dc_cache D)" "\<forall>h\<in>set hs. watched h \<longrightarrow> packet_read h"
  defines "s \<equiv> foldl (drop_step M) \<lparr>drop_rate = dropwatch_rate, dropwatch_stackmap = m, perf_events = []\<rparr> hs"
  shows "dropWatchTracing_Start D (map drop_bytes (perf_events s)) =
    (Context_done, map (packet_doc D) (filter (\<lambda>h. \<not> noise D h) (let_through drop_clock dropwatch_rate (filter watched hs))))"
proof -
  let ?xs = "let_through drop_clock dropwatch_rate (filter watched hs)"
  have ev: "perf_events s = map drop_report ?xs"
    using drop_run [OF assms(1), of "\<lparr>drop_rate = dropwatch_rate, dropwatch_stackmap = m, perf_events = []\<rparr>"]
      assms(2) by (simp add: s_def buffers_zero_def)
  have "set ?xs \<subseteq> set (filter watched hs)" using set_let_through [of drop_clock dropwatch_rate "filter watched hs"] .
  then have read: "x \<in> set ?xs \<Longrightarrow> packet_read x" for x using assms(4) by auto
  have "read_loop read_perfEventT (dropwatch_event D) (map (drop_bytes \<circ> drop_report) ?xs) [] =
      (Context_done, map (packet_doc D) (filter (\<lambda>h. \<not> noise D h) ?xs))"
  proof (rule read_loop_filter [where ev = "perf_of \<circ> drop_report"])
    fix x docs assume "x \<in> set ?xs"
    then have r: "packet_read x" by (rule read)
    show "read_perfEventT ((drop_bytes \<circ> drop_report) x) = Some ((perf_of \<circ> drop_report) x)"
      using read_drop_bytes [OF report_buffers [OF r]] by simp
    show "dropwatch_event D ((perf_of \<circ> drop_report) x) docs = Inr (if \<not> noise D x then docs @ [packet_doc D x] else docs)"
      by (simp add: dropwatch_event_def format_packet [OF assms(3) r] ignore_packet [OF assms(3) r])
  qed
  then show ?thesis by (simp add: dropWatchTracing_Start_def ev)
qed

lemma read_u64s_zero: "read_u64s n (replicate k 0) = replicate n 0"
  by (induction n arbitrary: k) (simp_all add: dec_replicate)

definition drop_conf_example :: drop_conf where
  "drop_conf_example = \<lparr>dc_cache = [\<lparr>ks_addr = 0, ks_name = ''start'', ks_module = []\<rparr>],
     dc_LookupAddr = (\<lambda>a. if a = ''10.0.0.1'' then Some [''client''] else None), dc_IgnoreNeighInvalidate = True\<rparr>"

theorem dropwatch_documents_witness:
  "map (\<lambda>d. (dd_Saddr d, dd_SrcHostname d, dd_Sport d)) (snd (dropWatchTracing_Start drop_conf_example
     (map drop_bytes (perf_events (foldl (drop_step (array_ops 1))
       \<lparr>drop_rate = dropwatch_rate, dropwatch_stackmap = (\<lambda>_ _. zero_data), perf_events = []\<rparr>
       [drop_example 2000000000, Kfree_skb (kernel_env [] 0 0 0) 4096 0x86dd]))))) =
   [(''10.0.0.1'', ''client'', 80)]"
proof -
  let ?hs = "[drop_example 2000000000, Kfree_skb (kernel_env [] 0 0 0) 4096 0x86dd]" and ?D = drop_conf_example
  have h: "bpf_array_map (array_ops 1 :: (u32, drop_event, _) map_ops) 1"
    "\<forall>c :: u32. lookup_elem (array_ops 1) ((\<lambda>_ _. zero_data) c) 0 = Some zero_data"
    by (simp_all only: array_ops_map) (simp_all add: array_simps)
  have table: "kernel_table (dc_cache ?D)"
    by (simp add: kernel_table_def drop_conf_example_def one_line_def ksymbolMax_def)
  have st: "packet_state (drop_example 2000000000) \<le> 12"
    by (simp add: packet_state_def drop_example_def read64_def read8_def core_read_def core_addr_def
      cells_read_def skb_cells_def sock_cells_def dec_enc_at dec_byte)
  have buf: "current_comm (drop_env (drop_example 2000000000)) = replicate 16 0"
    "get_stack (drop_env (drop_example 2000000000)) 0 1016 = (0, replicate 1016 0)"
    by (simp_all add: drop_example_def kernel_env_def)
  have hd: "read_iphdr (drop_env (drop_example 2000000000)) (drop_skb (drop_example 2000000000)) = ip_bytes 6"
    "read_tcphdr (drop_env (drop_example 2000000000)) (drop_skb (drop_example 2000000000)) = tcp_bytes"
    by (simp_all add: drop_example_def skb_example_headers)
  have "packet_read (drop_example 2000000000)"
    using st by (simp add: packet_read_def word_le_nat_alt buf hd) (simp add: ip_bytes_def tcp_bytes_def)
  moreover have "\<not> watched (Kfree_skb (kernel_env [] 0 0 0) 4096 0x86dd)" by (simp add: watched_def)
  ultimately have read: "\<forall>h\<in>set ?hs. watched h \<longrightarrow> packet_read h" by simp
  have "let_through drop_clock dropwatch_rate (filter watched ?hs) = [drop_example 2000000000]"
    by (simp add: watched_example) (simp add: watched_def drop_example_def drop_clock_def
        dropwatch_rate_def BPF_RATELIMIT_def ratelimited_simp ratelimit_window_def ratelimit_take_def)
  moreover have "packet_frames ?D (drop_example 2000000000) = []"
    by (simp add: packet_frames_def DumpKernelBackTrace_def buf read_u64s_zero)
  moreover have ip: "IP_String [10, 0, 0, 1] = ''10.0.0.1''"
    by (simp add: IP_String_def decimal.simps char_of_def bit_0)
  moreover have "hostname ?D ''10.0.0.1'' = ''client''" by (simp add: hostname_def drop_conf_example_def)
  ultimately show ?thesis
    using dropwatch_documents [OF h table read]
    by (simp add: noise_def packet_doc_def Let_def hd) (simp add: ip_bytes_def tcp_bytes_def dec_def)
qed

end
