(* ===== verification/Containers.thy ===== *)
theory Containers
  imports Cgroup Readers "HOL-Library.AList"
begin

unbundle bit_operations_syntax

text \<open>
  The containers of the node, \<^verbatim>\<open>internal/pod\<close>: the table that is synchronised with the kubelet
  (\<^verbatim>\<open>container_sync.go\<close>), the type, level, host name, labels and cgroup path of a container, and the
  lookups the collectors use (\<^verbatim>\<open>container.go\<close>). A Go map is an association list; a loop over a map
  visits its keys in an order that \<open>ne_range\<close> gives.
\<close>

section \<open>container_type.go, container_level_default.go\<close>

type_synonym ContainerType = u32

definition ContainerTypeSidecar :: ContainerType where "ContainerTypeSidecar = 1"
definition ContainerTypeDaemonSet :: ContainerType where "ContainerTypeDaemonSet = 2"
definition ContainerTypeNode :: ContainerType where "ContainerTypeNode = 4"
definition ContainerTypeStatic :: ContainerType where "ContainerTypeStatic = 8"
definition ContainerTypeNormal :: ContainerType where "ContainerTypeNormal = 16"
definition ContainerTypeUnknown :: ContainerType where "ContainerTypeUnknown = 32"
definition ContainerTypeAll :: ContainerType where "ContainerTypeAll = 64 - 1"

lemmas type_defs = ContainerTypeSidecar_def ContainerTypeDaemonSet_def ContainerTypeNode_def
  ContainerTypeStatic_def ContainerTypeNormal_def ContainerTypeUnknown_def ContainerTypeAll_def

definition type_String :: "ContainerType \<Rightarrow> string" where
  "type_String t =
     (case map_of [(ContainerTypeSidecar, ''Sidecar''), (ContainerTypeDaemonSet, ''DaemonSet''),
        (ContainerTypeNormal, ''Normal''), (ContainerTypeNode, ''Node''), (ContainerTypeStatic, ''Static''),
        (ContainerTypeUnknown, ''Unknown'')] t of None \<Rightarrow> [] | Some s \<Rightarrow> s)"

definition type_Unmarshal :: "string \<Rightarrow> ContainerType" where
  "type_Unmarshal s =
     (if s = ''Sidecar'' then ContainerTypeSidecar else if s = ''DaemonSet'' then ContainerTypeDaemonSet
      else if s = ''Normal'' then ContainerTypeNormal else ContainerTypeUnknown)"

type_synonym ContainerQos = int

definition ContainerQosLevelMin :: ContainerQos where "ContainerQosLevelMin = 0"

definition parseContainerQos :: "string \<Rightarrow> ContainerQos" where
  "parseContainerQos qos =
     (if qos = ''Burstable'' then 2 else if qos = ''BestEffort'' then 3 else if qos = ''Guaranteed'' then 1 else 0)"

definition qos_String :: "ContainerQos \<Rightarrow> string" where
  "qos_String q =
     (if q = 2 then ''Burstable'' else if q = 3 then ''BestEffort'' else if q = 1 then ''Guaranteed'' else ''Unknown'')"

definition qos_Unmarshal :: "string \<Rightarrow> ContainerQos" where
  "qos_Unmarshal s =
     (if s = ''Burstable'' then 2 else if s = ''BestEffort'' then 3 else if s = ''Guaranteed'' then 1 else 0)"

text \<open>Reading a type back: all but two of the six come back.\<close>

lemma type_roundtrip:
  "t \<in> {ContainerTypeSidecar, ContainerTypeDaemonSet, ContainerTypeNormal, ContainerTypeUnknown} \<Longrightarrow>
     type_Unmarshal (type_String t) = t"
  by (auto simp: type_Unmarshal_def type_String_def type_defs)

lemma type_not_read_back:
  "type_Unmarshal (type_String ContainerTypeNode) = ContainerTypeUnknown"
  "type_Unmarshal (type_String ContainerTypeStatic) = ContainerTypeUnknown"
  by (simp_all add: type_Unmarshal_def type_String_def type_defs)

lemma qos_roundtrip: "0 \<le> q \<Longrightarrow> q \<le> 3 \<Longrightarrow> qos_Unmarshal (qos_String q) = q"
  by (auto simp: qos_Unmarshal_def qos_String_def)

section \<open>The pods of the kubelet\<close>

text \<open>What is read of a pod; a status without a start time is of a container that does not run.\<close>

record pod_status =
  st_Name :: string
  st_ContainerID :: string
  st_Running :: "string option"

record pod =
  pod_Name :: string
  pod_Namespace :: string
  pod_UID :: string
  pod_Hostname :: string
  pod_IP :: string
  pod_Phase :: string
  pod_QOSClass :: string
  pod_Owners :: "string list"
  pod_Containers :: "string list"
  pod_Statuses :: "pod_status list"

definition isRuningPod :: "pod \<Rightarrow> bool" where
  "isRuningPod p \<longleftrightarrow> pod_Phase p = ''Running'' \<and> list_all (\<lambda>s. st_Running s \<noteq> None) (pod_Statuses p)"

definition sidecarModules :: string where "sidecarModules = ''istio-proxy''"

definition parseContainerType :: "string \<Rightarrow> pod \<Rightarrow> ContainerType" where
  "parseContainerType name p =
     (case pod_Owners p of
        [] \<Rightarrow> if pod_Phase p = ''Running'' then ContainerTypeNormal else ContainerTypeUnknown
      | kind # _ \<Rightarrow>
          if kind = ''DaemonSet'' then ContainerTypeDaemonSet
          else if Contains sidecarModules name then ContainerTypeSidecar else ContainerTypeNormal)"

definition parseContainerHostname :: "string option \<Rightarrow> ContainerType \<Rightarrow> pod \<Rightarrow> string option" where
  "parseContainerHostname os_hostname typ p =
     (if typ = ContainerTypeDaemonSet then os_hostname
      else Some (if pod_Hostname p = [] then pod_Name p else pod_Hostname p))"

definition parseContainerLabels :: "pod \<Rightarrow> (string \<times> string) list" where
  "parseContainerLabels p = [(''HostNamespace'', pod_Namespace p)]"

text \<open>A sidecar is recognised when its name is part of \<open>istio-proxy\<close>, not the other way round.\<close>

lemma sidecar_by_part:
  assumes "pod_Owners p = [''ReplicaSet'']"
  shows "parseContainerType ''proxy'' p = ContainerTypeSidecar" "parseContainerType ''istio-proxy-v2'' p = ContainerTypeNormal"
  using assms by (simp_all add: parseContainerType_def sidecarModules_def HasPrefix_def)

section \<open>container_cgroup_path.go\<close>

definition escapeSystemd :: "string \<Rightarrow> string" where
  "escapeSystemd part = map (\<lambda>c. if c = CHR ''-'' then CHR ''_'' else c) part"

definition TrimSuffix :: "string \<Rightarrow> string \<Rightarrow> string" where
  "TrimSuffix s p = (if length p \<le> length s \<and> drop (length s - length p) s = p then take (length s - length p) s else s)"

definition defaultSystemdSuffix :: string where "defaultSystemdSuffix = ''.slice''"

fun expand_slices :: "string \<Rightarrow> string \<Rightarrow> string list \<Rightarrow> string" where
  "expand_slices path prefix [] = path"
| "expand_slices path prefix (component # components) =
     expand_slices (path @ ''/'' @ prefix @ component @ defaultSystemdSuffix) (prefix @ component @ ''-'') components"

definition expandSytemdSlice :: "string \<Rightarrow> string" where
  "expandSytemdSlice s = expand_slices [] [] (strings_Split (CHR ''-'') (TrimSuffix s defaultSystemdSuffix))"

definition ToSystemd :: "string list \<Rightarrow> string" where
  "ToSystemd paths = expandSytemdSlice (strings_Join ''-'' (map escapeSystemd paths) @ defaultSystemdSuffix)"

text \<open>\<open>path.Clean\<close> and \<open>path.Join\<close> of the standard library.\<close>

fun clean_step :: "bool \<Rightarrow> string list \<Rightarrow> string \<Rightarrow> string list" where
  "clean_step rooted out part =
     (if part = [] \<or> part = ''.'' then out
      else if part = ''..'' then
        if out \<noteq> [] \<and> last out \<noteq> ''..'' then butlast out else if rooted then out else out @ [part]
      else out @ [part])"

definition path_Clean :: "string \<Rightarrow> string" where
  "path_Clean p =
     (let rooted = HasPrefix p ''/'';
          s = (if rooted then ''/'' else []) @ strings_Join ''/'' (foldl (clean_step rooted) [] (strings_Split (CHR ''/'') p))
      in if s = [] then ''.'' else s)"

definition path_Join :: "string list \<Rightarrow> string" where
  "path_Join elems =
     (let es = filter (\<lambda>e. e \<noteq> []) elems in if es = [] then [] else path_Clean (strings_Join ''/'' es))"

definition ToCgroupfs :: "string list \<Rightarrow> string" where
  "ToCgroupfs paths = ''/'' @ path_Join paths"

definition to_lower :: "char \<Rightarrow> char" where
  "to_lower c = (if of_char c \<in> {65 .. 90 :: nat} then char_of (of_char c + 32 :: nat) else c)"

definition containerCgroupPath :: "bool \<Rightarrow> string \<Rightarrow> pod \<Rightarrow> string list" where
  "containerCgroupPath systemd containerID p =
     [''kubepods''] @ (if pod_QOSClass p \<noteq> ''Guaranteed'' then [map to_lower (pod_QOSClass p)] else []) @
     [''pod'' @ pod_UID p] @ (if systemd then [] else [containerID])"

definition containerCgroupSuffix :: "bool \<Rightarrow> string \<Rightarrow> pod \<Rightarrow> string" where
  "containerCgroupSuffix systemd containerID p =
     (let name = containerCgroupPath systemd containerID p in if systemd then ToSystemd name else ToCgroupfs name)"

text \<open>
  The two forms of the path: nested slices, each named after the parts so far, or the parts themselves.
\<close>

lemma expand_slices_eq:
  "expand_slices path (concat (map (\<lambda>c. c @ ''-'') ds)) cs =
     path @ concat (map (\<lambda>i. ''/'' @ strings_Join ''-'' (ds @ take (Suc i) cs) @ ''.slice'') [0 ..< length cs])"
proof (induction cs arbitrary: path ds)
  case Nil
  then show ?case by simp
next
  case (Cons c cs)
  have join: "concat (map (\<lambda>c. c @ ''-'') ds) @ c = strings_Join ''-'' (ds @ [c])" for ds
  proof (induction ds)
    case (Cons d ds)
    then show ?case by (cases ds) simp_all
  qed simp
  have "expand_slices path (concat (map (\<lambda>c. c @ ''-'') ds)) (c # cs) =
      expand_slices (path @ ''/'' @ strings_Join ''-'' (ds @ [c]) @ ''.slice'') (concat (map (\<lambda>c. c @ ''-'') (ds @ [c]))) cs"
    by (simp add: defaultSystemdSuffix_def flip: join)
  also have "\<dots> = path @ ''/'' @ strings_Join ''-'' (ds @ [c]) @ ''.slice'' @
      concat (map (\<lambda>i. ''/'' @ strings_Join ''-'' ((ds @ [c]) @ take (Suc i) cs) @ ''.slice'') [0 ..< length cs])"
    unfolding Cons by simp
  also have "\<dots> = path @ concat (map (\<lambda>i. ''/'' @ strings_Join ''-'' (ds @ take (Suc i) (c # cs)) @ ''.slice'') [0 ..< length (c # cs)])"
    unfolding length_Cons upt_conv_Cons [OF zero_less_Suc] map_Suc_upt [symmetric] by (simp add: comp_def)
  finally show ?case .
qed

lemma systemd_path:
  assumes "ps \<noteq> []"
  defines "qs \<equiv> map escapeSystemd ps"
  shows "ToSystemd ps = concat (map (\<lambda>i. ''/'' @ strings_Join ''-'' (take (Suc i) qs) @ ''.slice'') [0 ..< length qs])"
proof -
  have "\<forall>q\<in>set qs. CHR ''-'' \<notin> set q" by (auto simp: qs_def escapeSystemd_def)
  then have split: "strings_Split (CHR ''-'') (strings_Join ''-'' qs) = qs"
    using assms(1) by (intro Split_Join) (simp_all add: qs_def)
  have "TrimSuffix (s @ defaultSystemdSuffix) defaultSystemdSuffix = s" for s by (simp add: TrimSuffix_def)
  then show ?thesis
    using expand_slices_eq [of "[]" "[]" qs] by (simp add: ToSystemd_def expandSytemdSlice_def qs_def [symmetric] split)
qed

definition plain_part :: "string \<Rightarrow> bool" where
  "plain_part s \<longleftrightarrow> s \<noteq> [] \<and> s \<noteq> ''.'' \<and> s \<noteq> ''..'' \<and> CHR ''/'' \<notin> set s"

lemma cgroupfs_path:
  assumes "ps \<noteq> []" "\<forall>p\<in>set ps. plain_part p"
  shows "ToCgroupfs ps = ''/'' @ strings_Join ''/'' ps"
proof -
  have "filter (\<lambda>e. e \<noteq> []) ps = ps" using assms(2) by (auto simp: plain_part_def filter_id_conv)
  moreover have split: "strings_Split (CHR ''/'') (strings_Join ''/'' ps) = ps"
    using assms by (intro Split_Join) (auto simp: plain_part_def)
  moreover have "foldl (clean_step r) out qs = out @ qs" if "\<forall>q\<in>set qs. plain_part q" for r out qs
    using that by (induction qs arbitrary: out) (auto simp: plain_part_def)
  moreover obtain c s where "strings_Join ''/'' ps = c # s" "c \<noteq> CHR ''/''"
  proof -
    obtain p qs where ps: "ps = p # qs" using assms(1) by (cases ps) auto
    with assms(2) obtain c s where "p = c # s" "c \<noteq> CHR ''/''" by (cases p) (auto simp: plain_part_def)
    with ps that show thesis by (cases qs) auto
  qed
  ultimately show ?thesis using assms
    by (simp add: ToCgroupfs_def path_Join_def path_Clean_def Let_def HasPrefix_def)
qed

section \<open>container.go, container_sync.go\<close>

record Container =
  ct_ID :: string
  ct_Name :: string
  ct_Hostname :: string
  ct_Type :: ContainerType
  ct_Qos :: ContainerQos
  ct_IPAddress :: string
  ct_NetNamespaceInode :: u64
  ct_InitPid :: int
  ct_CgroupSuffix :: string
  ct_CSS :: "string \<rightharpoonup> u64"
  ct_StartedAt :: string
  ct_SyncedAt :: int
  ct_Labels :: "(string \<times> string) list"

text \<open>The provider of the containers is found out once, from the first container that is seen.\<close>

datatype container_env = Env_docker | Env_containerd

record pod_mgr =
  pm_containers :: "(string \<times> Container) list"
  pm_env :: "container_env option"
  pm_lastUpdatedAt :: int

text \<open>
  The surroundings: the answer of the kubelet, the name of the host, whether a provider can be initialised, the
  process ids in its files, the namespaces of processes, the time that is read back from the form
  \<open>RFC3339\<close>, the clock, the table of \<open>Cgroup\<close> with the order in which it is visited, the driver of
  the cgroups, and the order of a loop over a map.
\<close>

record node_env =
  ne_enabled :: bool
  ne_request :: "pod list option"
  ne_hostname :: "string option"
  ne_provider :: "container_env \<Rightarrow> bool"
  ne_docker_pid :: "string \<Rightarrow> int option"
  ne_containerd_pid :: "string \<Rightarrow> int option"
  ne_netns :: "int \<Rightarrow> u64 option"
  ne_time :: "string \<Rightarrow> string option"
  ne_now :: int
  ne_css_order :: "u64 list"
  ne_css_table :: css_table
  ne_systemd :: bool
  ne_range :: "string list \<Rightarrow> string list"

datatype pod_error = Invalid_container_id | Connection_refused | Update_failed

datatype 'a pod_result = Pod_panic | Pod_error pod_error | Pod_ok 'a

definition initContainerProviderEnv :: "node_env \<Rightarrow> string \<Rightarrow> container_env option \<Rightarrow> container_env option" where
  "initContainerProviderEnv N name env =
     (case env of
        Some e \<Rightarrow> Some e
      | None \<Rightarrow>
          if name = ''docker'' then if ne_provider N Env_docker then Some Env_docker else None
          else if name = ''containerd'' then if ne_provider N Env_containerd then Some Env_containerd else None
          else None)"

definition id_parts :: "string \<Rightarrow> string list" where
  "id_parts data = split_at ''://'' [] (strings_TrimRight (CHR 0x22) (dropWhile (\<lambda>c. c = CHR 0x22) data))"

text \<open>The first component is the provider after the call; \<open>initContainerProviderEnv\<close> panics when it fails.\<close>

definition parseContainerIDInPodStatus :: "node_env \<Rightarrow> string \<Rightarrow> container_env option \<Rightarrow> container_env option \<times> string pod_result" where
  "parseContainerIDInPodStatus N data env =
     (let parts = id_parts data in
      if length parts \<noteq> 2 then (env, Pod_error Invalid_container_id)
      else case initContainerProviderEnv N (parts ! 0) env of
        None \<Rightarrow> (None, Pod_panic)
      | Some e \<Rightarrow> (Some e, Pod_ok (parts ! 1)))"

definition containerInitPid :: "node_env \<Rightarrow> container_env option \<Rightarrow> string \<Rightarrow> int option" where
  "containerInitPid N env containerID =
     (case env of
        None \<Rightarrow> None
      | Some Env_docker \<Rightarrow> (case ne_docker_pid N containerID of None \<Rightarrow> None | Some pid \<Rightarrow> if pid = 0 then None else Some pid)
      | Some Env_containerd \<Rightarrow> ne_containerd_pid N containerID)"

definition string_bytes :: "string \<Rightarrow> byte list" where
  "string_bytes s = map (\<lambda>c. of_nat (of_char c)) s"

text \<open>The new container, or an error; a status that does not run would be a null pointer.\<close>

definition kubeletUpdateContainer ::
    "node_env \<Rightarrow> container_env option \<Rightarrow> string \<Rightarrow> string \<times> pod_status \<times> pod \<Rightarrow> Container pod_result" where
  "kubeletUpdateContainer N env containerID = (\<lambda>(name, status, p).
     let containerType = parseContainerType name p in
     case parseContainerHostname (ne_hostname N) containerType p of
       None \<Rightarrow> Pod_error Update_failed
     | Some hostname \<Rightarrow>
     case containerInitPid N env containerID of
       None \<Rightarrow> Pod_error Update_failed
     | Some initPid \<Rightarrow>
     case ne_netns N initPid of
       None \<Rightarrow> Pod_error Update_failed
     | Some nsInode \<Rightarrow>
     case st_Running status of
       None \<Rightarrow> Pod_panic
     | Some started \<Rightarrow>
     case ne_time N started of
       None \<Rightarrow> Pod_error Update_failed
     | Some startedAt \<Rightarrow>
       Pod_ok \<lparr>ct_ID = containerID, ct_Name = name, ct_Hostname = hostname, ct_Type = containerType,
         ct_Qos = parseContainerQos (pod_QOSClass p), ct_IPAddress = pod_IP p, ct_NetNamespaceInode = nsInode,
         ct_InitPid = initPid, ct_CgroupSuffix = containerCgroupSuffix (ne_systemd N) containerID p,
         ct_CSS = parseContainerCSS (ne_css_order N) (ne_css_table N) (string_bytes containerID),
         ct_StartedAt = startedAt, ct_SyncedAt = ne_now N, ct_Labels = parseContainerLabels p\<rparr>)"

definition kubeletGetPodList :: "node_env \<Rightarrow> pod list option" where
  "kubeletGetPodList N = (if ne_enabled N then ne_request N else None)"

type_synonym new_containers = "(string \<times> string \<times> pod_status \<times> pod) list"

text \<open>The entry of a name in the map of one pod: the last status with that name.\<close>

definition status_of :: "pod \<Rightarrow> string \<Rightarrow> pod_status option" where
  "status_of p name = find (\<lambda>s. st_Name s = name) (rev (pod_Statuses p))"

fun add_entries :: "node_env \<Rightarrow> pod \<Rightarrow> string list \<Rightarrow> container_env option \<Rightarrow> new_containers \<Rightarrow>
    container_env option \<times> new_containers pod_result" where
  "add_entries N p [] env new = (env, Pod_ok new)"
| "add_entries N p (name # names) env new =
     (case status_of p name of
        None \<Rightarrow> (env, Pod_panic)
      | Some containerStatus \<Rightarrow>
          case parseContainerIDInPodStatus N (st_ContainerID containerStatus) env of
            (env, Pod_panic) \<Rightarrow> (env, Pod_panic)
          | (env, Pod_error e) \<Rightarrow> (env, Pod_error e)
          | (env, Pod_ok containerID) \<Rightarrow>
              add_entries N p names env (AList.update containerID (name, containerStatus, p) new))"

fun add_pods :: "node_env \<Rightarrow> pod list \<Rightarrow> container_env option \<Rightarrow> new_containers \<Rightarrow>
    container_env option \<times> new_containers pod_result" where
  "add_pods N [] env new = (env, Pod_ok new)"
| "add_pods N (p # ps) env new =
     (if \<not> isRuningPod p then add_pods N ps env new
      else case add_entries N p (ne_range N (remdups (pod_Containers p))) env new of
        (env, Pod_panic) \<Rightarrow> (env, Pod_panic)
      | (env, Pod_error e) \<Rightarrow> (env, Pod_error e)
      | (env, Pod_ok new) \<Rightarrow> add_pods N ps env new)"

fun clear_old :: "string list \<Rightarrow> (string \<times> Container) list \<Rightarrow> new_containers \<Rightarrow> (string \<times> Container) list \<times> new_containers" where
  "clear_old [] cs new = (cs, new)"
| "clear_old (k # ks) cs new =
     (if map_of new k = None then clear_old ks (AList.delete k cs) new else clear_old ks cs (AList.delete k new))"

fun update_loop :: "node_env \<Rightarrow> container_env option \<Rightarrow> string list \<Rightarrow> new_containers \<Rightarrow> (string \<times> Container) list \<Rightarrow>
    (string \<times> Container) list pod_result" where
  "update_loop N env [] new cs = Pod_ok cs"
| "update_loop N env (k # ks) new cs =
     (case kubeletUpdateContainer N env k (the (map_of new k)) of
        Pod_panic \<Rightarrow> Pod_panic
      | Pod_error _ \<Rightarrow> update_loop N env ks new cs
      | Pod_ok c \<Rightarrow> update_loop N env ks new (AList.update k c cs))"

definition kubeletSyncContainers :: "node_env \<Rightarrow> pod_mgr \<Rightarrow> pod_mgr \<times> unit pod_result" where
  "kubeletSyncContainers N st =
     (case kubeletGetPodList N of
        None \<Rightarrow> (st, Pod_ok ())
      | Some podList \<Rightarrow>
          case add_pods N podList (pm_env st) [] of
            (env, Pod_panic) \<Rightarrow> (st\<lparr>pm_env := env\<rparr>, Pod_panic)
          | (env, Pod_error e) \<Rightarrow> (st\<lparr>pm_env := env\<rparr>, Pod_error e)
          | (env, Pod_ok new) \<Rightarrow>
              case clear_old (ne_range N (map fst (pm_containers st))) (pm_containers st) new of
                (cs, new) \<Rightarrow>
                  case update_loop N env (ne_range N (map fst new)) new cs of
                    Pod_ok cs \<Rightarrow> (st\<lparr>pm_env := env, pm_containers := cs\<rparr>, Pod_ok ())
                  | _ \<Rightarrow> (st\<lparr>pm_env := env, pm_containers := cs\<rparr>, Pod_panic))"

text \<open>The lookups. Only a refused connection is not an error for the caller.\<close>

definition updatedStep :: int where "updatedStep = 5000000000"

definition range_of :: "node_env \<Rightarrow> (string \<times> 'a) list \<Rightarrow> 'a list" where
  "range_of N m = map (\<lambda>k. the (map_of m k)) (ne_range N (map fst m))"

fun select_containers :: "ContainerType \<Rightarrow> ContainerQos \<Rightarrow> Container list \<Rightarrow> (string \<times> Container) list \<Rightarrow> (string \<times> Container) list" where
  "select_containers typeMask minLevel [] res = res"
| "select_containers typeMask minLevel (c # cs) res =
     (if ct_Type c AND typeMask = 0 then select_containers typeMask minLevel cs res
      else if ct_Qos c < minLevel then select_containers typeMask minLevel cs res
      else select_containers typeMask minLevel cs (AList.update (ct_ID c) c res))"

definition getContainers :: "ContainerType \<Rightarrow> ContainerQos \<Rightarrow> node_env \<Rightarrow> pod_mgr \<Rightarrow>
    pod_mgr \<times> (string \<times> Container) list pod_result" where
  "getContainers typeMask minLevel N st =
     (let sync = (if ne_now N - pm_lastUpdatedAt st > updatedStep
                  then case kubeletSyncContainers N st of
                         (st, Pod_ok _) \<Rightarrow> (st\<lparr>pm_lastUpdatedAt := ne_now N\<rparr>, Pod_ok ())
                       | r \<Rightarrow> r
                  else (st, Pod_ok ()))
      in case sync of
           (st, Pod_panic) \<Rightarrow> (st, Pod_panic)
         | (st, Pod_error e) \<Rightarrow> (st, if e = Connection_refused then Pod_ok [] else Pod_error e)
         | (st, Pod_ok _) \<Rightarrow> (st, Pod_ok (select_containers typeMask minLevel (range_of N (pm_containers st)) [])))"

definition GetContainersByType :: "ContainerType \<Rightarrow> node_env \<Rightarrow> pod_mgr \<Rightarrow> pod_mgr \<times> (string \<times> Container) list pod_result" where
  "GetContainersByType typeMask = getContainers typeMask ContainerQosLevelMin"

definition GetNormalContainers :: "node_env \<Rightarrow> pod_mgr \<Rightarrow> pod_mgr \<times> (string \<times> Container) list pod_result" where
  "GetNormalContainers = GetContainersByType ContainerTypeNormal"

definition GetNormalAndSidecarContainers :: "node_env \<Rightarrow> pod_mgr \<Rightarrow> pod_mgr \<times> (string \<times> Container) list pod_result" where
  "GetNormalAndSidecarContainers = GetContainersByType (ContainerTypeNormal OR ContainerTypeSidecar)"

definition GetAllContainers :: "node_env \<Rightarrow> pod_mgr \<Rightarrow> pod_mgr \<times> (string \<times> Container) list pod_result" where
  "GetAllContainers = getContainers ContainerTypeAll ContainerQosLevelMin"

fun map_result :: "('a \<Rightarrow> 'b) \<Rightarrow> 's \<times> 'a pod_result \<Rightarrow> 's \<times> 'b pod_result" where
  "map_result f (st, Pod_panic) = (st, Pod_panic)"
| "map_result f (st, Pod_error e) = (st, Pod_error e)"
| "map_result f (st, Pod_ok a) = (st, Pod_ok (f a))"

definition GetContainerByID :: "string \<Rightarrow> node_env \<Rightarrow> pod_mgr \<Rightarrow> pod_mgr \<times> Container option pod_result" where
  "GetContainerByID i N st = map_result (\<lambda>all. map_of all i) (GetAllContainers N st)"

definition GetContainerByIPAddress :: "string \<Rightarrow> node_env \<Rightarrow> pod_mgr \<Rightarrow> pod_mgr \<times> Container option pod_result" where
  "GetContainerByIPAddress ip N st =
     map_result (\<lambda>all. find (\<lambda>c. ct_IPAddress c = ip) (range_of N all)) (GetNormalContainers N st)"

definition GetContainerByNetNamespaceInode :: "u64 \<Rightarrow> node_env \<Rightarrow> pod_mgr \<Rightarrow> pod_mgr \<times> Container option pod_result" where
  "GetContainerByNetNamespaceInode inode N st =
     map_result (\<lambda>all. find (\<lambda>c. ct_NetNamespaceInode c = inode) (range_of N all)) (GetNormalContainers N st)"

definition GetContainerByCSS_in :: "u64 \<Rightarrow> string \<Rightarrow> node_env \<Rightarrow> pod_mgr \<Rightarrow> pod_mgr \<times> Container option pod_result" where
  "GetContainerByCSS_in css subsys N st =
     map_result (\<lambda>all. find (\<lambda>c. ct_CSS c subsys = Some css) (range_of N all)) (GetAllContainers N st)"

fun css_to_id :: "string \<Rightarrow> Container list \<Rightarrow> (u64 \<rightharpoonup> string) \<Rightarrow> (u64 \<rightharpoonup> string)" where
  "css_to_id subsys [] m = m"
| "css_to_id subsys (c # cs) m =
     css_to_id subsys cs (case ct_CSS c subsys of Some addr \<Rightarrow> m(addr \<mapsto> ct_ID c) | None \<Rightarrow> m)"

definition GetCSSToContainerID :: "string \<Rightarrow> node_env \<Rightarrow> pod_mgr \<Rightarrow> pod_mgr \<times> (u64 \<rightharpoonup> string) pod_result" where
  "GetCSSToContainerID subsys N st = map_result (\<lambda>all. css_to_id subsys (range_of N all) Map.empty) (GetAllContainers N st)"

section \<open>What a synchronisation does\<close>

text \<open>The containers a list of pods names, each with its name, its status and its pod.\<close>

definition lists_container :: "pod list \<Rightarrow> string \<Rightarrow> string \<times> pod_status \<times> pod \<Rightarrow> bool" where
  "lists_container ps containerID = (\<lambda>(name, status, p). p \<in> set ps \<and> isRuningPod p \<and> name \<in> set (pod_Containers p) \<and>
     status_of p name = Some status \<and> length (id_parts (st_ContainerID status)) = 2 \<and>
     containerID = id_parts (st_ContainerID status) ! 1)"

text \<open>Every container of a running pod has a status with an identifier of a provider that works.\<close>

definition name_ok :: "node_env \<Rightarrow> container_env option \<Rightarrow> pod \<Rightarrow> string \<Rightarrow> bool" where
  "name_ok N env p name \<longleftrightarrow> (\<exists>s. status_of p name = Some s \<and> length (id_parts (st_ContainerID s)) = 2 \<and>
     initContainerProviderEnv N (id_parts (st_ContainerID s) ! 0) env \<noteq> None)"

definition podlist_ok :: "node_env \<Rightarrow> container_env option \<Rightarrow> pod list \<Rightarrow> bool" where
  "podlist_ok N env ps \<longleftrightarrow> (\<forall>p\<in>set ps. isRuningPod p \<longrightarrow> (\<forall>name\<in>set (pod_Containers p). name_ok N env p name))"

definition ids_unique :: "pod list \<Rightarrow> bool" where
  "ids_unique ps \<longleftrightarrow> (\<forall>i a b. lists_container ps i a \<longrightarrow> lists_container ps i b \<longrightarrow> a = b)"

definition ranges :: "node_env \<Rightarrow> bool" where
  "ranges N \<longleftrightarrow> (\<forall>ks. mset (ne_range N ks) = mset ks)"

lemma ranges_set: "ranges N \<Longrightarrow> set (ne_range N ks) = set ks" "ranges N \<Longrightarrow> distinct (ne_range N ks) = distinct ks"
  unfolding ranges_def by (metis mset_eq_setD, metis mset_eq_imp_distinct_iff)

definition pod_entry :: "pod \<Rightarrow> string \<Rightarrow> string \<times> string \<times> pod_status \<times> pod" where
  "pod_entry p name = (let s = the (status_of p name) in (id_parts (st_ContainerID s) ! 1, name, s, p))"

definition put_all :: "(string \<times> 'a) list \<Rightarrow> (string \<times> 'a) list \<Rightarrow> (string \<times> 'a) list" where
  "put_all es al = fold (\<lambda>(k, v). AList.update k v) es al"

lemma put_all_simps [simp]: "put_all [] al = al" "put_all ((k, v) # es) al = put_all es (AList.update k v al)"
  "put_all (es @ fs) al = put_all fs (put_all es al)"
  by (simp_all add: put_all_def)

lemma put_all_keys: "distinct (map fst al) \<Longrightarrow> distinct (map fst (put_all es al))"
  by (induction es arbitrary: al) (auto simp: AList.distinct_update)

lemma map_of_unique:
  assumes "\<And>v w. (k, v) \<in> set es \<Longrightarrow> (k, w) \<in> set es \<Longrightarrow> v = w"
  shows "map_of es k = Some v \<longleftrightarrow> (k, v) \<in> set es"
proof
  assume "map_of es k = Some v"
  then show "(k, v) \<in> set es" by (rule map_of_SomeD)
next
  assume v: "(k, v) \<in> set es"
  then obtain w where w: "map_of es k = Some w" using weak_map_of_SomeI [of k v es] by blast
  from assms [OF map_of_SomeD [OF w] v] w show "map_of es k = Some v" by simp
qed

lemma put_all_lookup:
  assumes "\<forall>k v w. (k, v) \<in> set es \<longrightarrow> (k, w) \<in> set es \<longrightarrow> v = w"
  shows "map_of (put_all es []) k = Some v \<longleftrightarrow> (k, v) \<in> set es"
proof -
  have "map_of (put_all es al) = map_of al ++ map_of (rev es)" for al :: "(string \<times> 'a) list"
    by (induction es arbitrary: al) (auto simp: AList.update_conv' map_add_def fun_eq_iff split: option.splits)
  then have "map_of (put_all es []) k = map_of (rev es) k" by simp
  moreover have "map_of (rev es) k = Some v \<longleftrightarrow> (k, v) \<in> set es"
    using map_of_unique [of k "rev es" v] assms by auto
  ultimately show ?thesis by simp
qed

lemma name_ok_env: "name_ok N env p name \<Longrightarrow> env = None \<or> env = env' \<Longrightarrow> env' \<noteq> None \<or> env = env' \<Longrightarrow> name_ok N env' p name"
  unfolding name_ok_def initContainerProviderEnv_def by (cases env'; cases env) fastforce+

lemma add_entries_ok:
  "\<forall>name\<in>set names. name_ok N env p name \<Longrightarrow>
     \<exists>env'. add_entries N p names env new = (env', Pod_ok (put_all (map (pod_entry p) names) new)) \<and> (env' = env \<or> env = None \<and> env' \<noteq> None)"
proof (induction names arbitrary: env new)
  case Nil
  then show ?case by simp
next
  case (Cons name names)
  then obtain s env1 where s: "status_of p name = Some s" "length (id_parts (st_ContainerID s)) = 2"
    "initContainerProviderEnv N (id_parts (st_ContainerID s) ! 0) env = Some env1" by (auto simp: name_ok_def)
  have e1: "Some env1 = env \<or> env = None" using s(3) by (auto simp: initContainerProviderEnv_def split: option.splits)
  have "\<forall>name\<in>set names. name_ok N (Some env1) p name"
    using Cons.prems e1 by (auto intro: name_ok_env)
  from Cons.IH [OF this] e1 show ?case
    by (auto simp: s parseContainerIDInPodStatus_def Let_def pod_entry_def)
qed

definition all_entries :: "node_env \<Rightarrow> pod list \<Rightarrow> new_containers" where
  "all_entries N ps = concat (map (\<lambda>p. map (pod_entry p) (ne_range N (remdups (pod_Containers p)))) (filter isRuningPod ps))"

lemma add_pods_ok:
  assumes "ranges N"
  shows "podlist_ok N env ps \<Longrightarrow>
     \<exists>env'. add_pods N ps env new = (env', Pod_ok (put_all (all_entries N ps) new)) \<and> (env' = env \<or> env = None \<and> env' \<noteq> None)"
proof (induction ps arbitrary: env new)
  case Nil
  then show ?case by (simp add: all_entries_def)
next
  case (Cons p ps)
  show ?case
  proof (cases "isRuningPod p")
    case False
    with Cons show ?thesis by (simp add: podlist_ok_def all_entries_def)
  next
    case True
    then have "\<forall>name\<in>set (ne_range N (remdups (pod_Containers p))). name_ok N env p name"
      using Cons.prems by (simp add: podlist_ok_def ranges_set [OF assms])
    from add_entries_ok [OF this, of new] obtain env1 where
      one: "add_entries N p (ne_range N (remdups (pod_Containers p))) env new =
        (env1, Pod_ok (put_all (map (pod_entry p) (ne_range N (remdups (pod_Containers p)))) new))"
        "env1 = env \<or> env = None \<and> env1 \<noteq> None" by blast
    have "podlist_ok N env1 ps" using Cons.prems one(2) unfolding podlist_ok_def by (auto intro: name_ok_env)
    from Cons.IH [OF this] one True show ?thesis by (fastforce simp: all_entries_def)
  qed
qed

lemma set_all_entries:
  assumes "ranges N" "podlist_ok N env ps"
  shows "(i, a) \<in> set (all_entries N ps) \<longleftrightarrow> lists_container ps i a"
proof -
  obtain name s p where a: "a = (name, s, p)" by (cases a)
  have "(i, a) \<in> set (all_entries N ps) \<longleftrightarrow>
      (\<exists>q\<in>set ps. isRuningPod q \<and> (\<exists>n\<in>set (pod_Containers q). (i, a) = pod_entry q n))"
    by (auto simp: all_entries_def ranges_set [OF assms(1)])
  also have "\<dots> \<longleftrightarrow> p \<in> set ps \<and> isRuningPod p \<and> name \<in> set (pod_Containers p) \<and> (i, a) = pod_entry p name"
    by (auto simp: pod_entry_def Let_def a)
  also have "\<dots> \<longleftrightarrow> lists_container ps i a"
    using assms(2) unfolding podlist_ok_def lists_container_def name_ok_def a pod_entry_def Let_def by fastforce
  finally show ?thesis .
qed

lemma new_lookup:
  assumes "ranges N" "podlist_ok N env ps" "ids_unique ps"
  shows "map_of (put_all (all_entries N ps) []) i = Some a \<longleftrightarrow> lists_container ps i a"
proof -
  have "\<forall>k v w. (k, v) \<in> set (all_entries N ps) \<longrightarrow> (k, w) \<in> set (all_entries N ps) \<longrightarrow> v = w"
    using assms(3) unfolding set_all_entries [OF assms(1,2)] ids_unique_def by blast
  from put_all_lookup [OF this] show ?thesis by (simp add: set_all_entries [OF assms(1,2)])
qed

lemma clear_old_keys:
  "clear_old ks cs new = (cs', new') \<Longrightarrow> distinct (map fst new) \<Longrightarrow> distinct (map fst new')"
  "clear_old ks cs new = (cs', new') \<Longrightarrow> distinct (map fst cs) \<Longrightarrow> distinct (map fst cs')"
  by (induction ks arbitrary: cs new) (auto simp: distinct_delete split: if_splits)

lemma clear_old_lookup:
  assumes "distinct ks" "clear_old ks cs new = (cs', new')"
  shows "map_of cs' k = (if k \<in> set ks \<and> map_of new k = None then None else map_of cs k)"
    "map_of new' k = (if k \<in> set ks then None else map_of new k)"
  using assms by (induction ks arbitrary: cs new) (auto simp: AList.delete_conv' split: if_splits)

lemma update_loop_lookup:
  assumes "\<forall>k\<in>set ks. kubeletUpdateContainer N env k (the (map_of new k)) \<noteq> Pod_panic"
  shows "\<exists>cs'. update_loop N env ks new cs = Pod_ok cs' \<and> (distinct (map fst cs) \<longrightarrow> distinct (map fst cs')) \<and>
    (\<forall>k. map_of cs' k = (if k \<in> set ks then case kubeletUpdateContainer N env k (the (map_of new k)) of
       Pod_ok c \<Rightarrow> Some c | _ \<Rightarrow> map_of cs k else map_of cs k))"
  using assms
proof (induction ks arbitrary: cs)
  case Nil
  then show ?case by simp
next
  case (Cons k ks)
  let ?u = "kubeletUpdateContainer N env k (the (map_of new k))"
  define cs1 where "cs1 = (case ?u of Pod_ok c \<Rightarrow> AList.update k c cs | _ \<Rightarrow> cs)"
  have step: "update_loop N env (k # ks) new cs = update_loop N env ks new cs1"
    using Cons.prems by (cases ?u) (simp_all add: cs1_def)
  have keys: "distinct (map fst cs) \<longrightarrow> distinct (map fst cs1)"
    by (cases ?u) (simp_all add: cs1_def AList.distinct_update)
  obtain cs' where cs': "update_loop N env ks new cs1 = Pod_ok cs'" "distinct (map fst cs1) \<longrightarrow> distinct (map fst cs')"
    "\<And>k. map_of cs' k = (if k \<in> set ks then case kubeletUpdateContainer N env k (the (map_of new k)) of
       Pod_ok c \<Rightarrow> Some c | _ \<Rightarrow> map_of cs1 k else map_of cs1 k)"
    using Cons.IH [of cs1] Cons.prems by auto
  have "map_of cs1 j = (if j = k then case ?u of Pod_ok c \<Rightarrow> Some c | _ \<Rightarrow> map_of cs k else map_of cs j)" for j
    by (cases ?u) (simp_all add: cs1_def AList.update_conv')
  then show ?case using cs' keys step by (auto split: pod_result.splits)
qed

lemma listed_not_panic:
  assumes "lists_container ps i a"
  shows "kubeletUpdateContainer N env i a \<noteq> Pod_panic"
proof -
  obtain name s p where a: "a = (name, s, p)" by (cases a)
  from assms have "isRuningPod p" "status_of p name = Some s" by (simp_all add: lists_container_def a)
  moreover have "s \<in> set (pod_Statuses p)" if "status_of p name = Some s"
    using that unfolding status_of_def find_Some_iff by (metis nth_mem set_rev)
  ultimately have "st_Running s \<noteq> None" by (simp add: isRuningPod_def list_all_iff)
  then show ?thesis
    by (auto simp: a kubeletUpdateContainer_def Let_def split: option.splits)
qed

text \<open>Without an answer, or with an identifier that cannot be read, the table stays as it was.\<close>

lemma sync_keeps:
  "kubeletGetPodList N = None \<Longrightarrow> kubeletSyncContainers N st = (st, Pod_ok ())"
  "kubeletSyncContainers N st = (st', Pod_error e) \<Longrightarrow> pm_containers st' = pm_containers st \<and> e = Invalid_container_id"
proof -
  have entries: "add_entries N p names env new = (env', Pod_error e) \<Longrightarrow> e = Invalid_container_id" for p names env new env'
    by (induction names arbitrary: env new)
      (auto simp: parseContainerIDInPodStatus_def Let_def split: option.splits prod.splits pod_result.splits if_splits)
  have pods: "add_pods N ps env new = (env', Pod_error e) \<Longrightarrow> e = Invalid_container_id" for ps env new env'
    by (induction ps arbitrary: env new) (auto dest: entries split: prod.splits pod_result.splits if_splits)
  show "kubeletGetPodList N = None \<Longrightarrow> kubeletSyncContainers N st = (st, Pod_ok ())"
    by (simp add: kubeletSyncContainers_def)
  show "kubeletSyncContainers N st = (st', Pod_error e) \<Longrightarrow> pm_containers st' = pm_containers st \<and> e = Invalid_container_id"
    by (auto simp: kubeletSyncContainers_def dest: pods split: option.splits prod.splits pod_result.splits)
qed

text \<open>A container of a running pod without a status ends the agent.\<close>

lemma sync_panics:
  assumes "kubeletGetPodList N = Some (p # ps)" "isRuningPod p" "ne_range N (remdups (pod_Containers p)) = name # names"
    "status_of p name = None"
  shows "snd (kubeletSyncContainers N st) = Pod_panic"
  using assms by (simp add: kubeletSyncContainers_def)

lemma sync_lookup:
  assumes "ranges N" "podlist_ok N (pm_env st) ps" "ids_unique ps" "distinct (map fst (pm_containers st))"
    and "kubeletGetPodList N = Some ps"
  shows "\<exists>st'. kubeletSyncContainers N st = (st', Pod_ok ()) \<and> distinct (map fst (pm_containers st')) \<and>
    (\<forall>i. (\<nexists>a. lists_container ps i a) \<longrightarrow> map_of (pm_containers st') i = None) \<and>
    (\<forall>i a. lists_container ps i a \<longrightarrow> map_of (pm_containers st') i =
      (case map_of (pm_containers st) i of
         Some c \<Rightarrow> Some c
       | None \<Rightarrow> (case kubeletUpdateContainer N (pm_env st') i a of Pod_ok c \<Rightarrow> Some c | _ \<Rightarrow> None)))"
proof -
  let ?cs = "pm_containers st" and ?new = "put_all (all_entries N ps) []"
  obtain env where pods: "add_pods N ps (pm_env st) [] = (env, Pod_ok ?new)"
    using add_pods_ok [OF assms(1,2)] by blast
  note new = new_lookup [OF assms(1-3)]
  obtain cs1 new1 where clear: "clear_old (ne_range N (map fst ?cs)) ?cs ?new = (cs1, new1)" by fastforce
  note clear_l = clear_old_lookup [OF _ clear, unfolded ranges_set [OF assms(1)], OF assms(4)]
  have new1: "map_of new1 i = (if map_of ?cs i = None then map_of ?new i else None)" for i
    using clear_l(2) [of i] by (simp add: map_of_eq_None_iff)
  have ok: "\<forall>k\<in>set (ne_range N (map fst new1)). kubeletUpdateContainer N env k (the (map_of new1 k)) \<noteq> Pod_panic"
  proof
    fix k assume "k \<in> set (ne_range N (map fst new1))"
    then have "map_of new1 k \<noteq> None" by (simp add: ranges_set [OF assms(1)] map_of_eq_None_iff)
    then obtain a where "map_of new1 k = Some a" by blast
    moreover from this have "lists_container ps k a" using new [of k a] by (simp add: new1 split: if_splits)
    ultimately show "kubeletUpdateContainer N env k (the (map_of new1 k)) \<noteq> Pod_panic"
      using listed_not_panic [of ps k a N env] by simp
  qed
  obtain cs2 where upd: "update_loop N env (ne_range N (map fst new1)) new1 cs1 = Pod_ok cs2"
      "distinct (map fst cs2)"
    and cs2: "\<And>k. map_of cs2 k = (if map_of new1 k \<noteq> None then case kubeletUpdateContainer N env k (the (map_of new1 k)) of
       Pod_ok c \<Rightarrow> Some c | _ \<Rightarrow> map_of cs1 k else map_of cs1 k)"
    using update_loop_lookup [OF ok, of cs1] clear_old_keys(2) [OF clear assms(4)]
    by (auto simp: ranges_set [OF assms(1)] map_of_eq_None_iff)
  define st' where "st' = st\<lparr>pm_env := env, pm_containers := cs2\<rparr>"
  have run: "kubeletSyncContainers N st = (st', Pod_ok ())"
    using pods clear upd by (simp add: kubeletSyncContainers_def assms(5) st'_def)
  have cs1: "map_of cs1 i = (if map_of ?new i = None then None else map_of ?cs i)" for i
    using clear_l(1) [of i] map_of_eq_None_iff [of ?cs i] by auto
  have "map_of cs2 i = None" if "\<nexists>a. lists_container ps i a" for i
    using that new [of i] by (simp add: cs2 new1 cs1)
  moreover have "map_of cs2 i = (case map_of ?cs i of Some c \<Rightarrow> Some c
      | None \<Rightarrow> (case kubeletUpdateContainer N env i a of Pod_ok c \<Rightarrow> Some c | _ \<Rightarrow> None))" if "lists_container ps i a" for i a
    using that new [of i a] by (cases "map_of ?cs i") (simp_all add: cs2 new1 cs1 split: pod_result.split)
  moreover have "pm_containers st' = cs2" "pm_env st' = env" by (simp_all add: st'_def)
  ultimately show ?thesis using run upd(2) by (intro exI [of _ st']) (simp only: simp_thms, blast)
qed

text \<open>The table: one entry for each identifier, under its own.\<close>

definition table_ok :: "(string \<times> Container) list \<Rightarrow> bool" where
  "table_ok cs \<longleftrightarrow> distinct (map fst cs) \<and> (\<forall>k c. map_of cs k = Some c \<longrightarrow> ct_ID c = k)"

lemma update_id: "kubeletUpdateContainer N env i a = Pod_ok c \<Longrightarrow> ct_ID c = i"
  by (auto simp: kubeletUpdateContainer_def Let_def split: option.splits prod.splits)

text \<open>
  C22. Synchronisation of the containers: when every container of a running pod has a status with an
  identifier, and no two share one, the synchronisation succeeds for every order of the loops over maps. After
  it the table has no container that the kubelet does not list, the containers that were known before as they
  were, and of the new ones those whose process, namespace and start time could be read, each as read now;
  every container is under its own identifier.
\<close>

theorem containers_synced:
  assumes "ranges N" "podlist_ok N (pm_env st) ps" "ids_unique ps" "table_ok (pm_containers st)"
    and "kubeletGetPodList N = Some ps"
  shows "\<exists>st'. kubeletSyncContainers N st = (st', Pod_ok ()) \<and> table_ok (pm_containers st') \<and>
    (\<forall>i. (\<nexists>a. lists_container ps i a) \<longrightarrow> map_of (pm_containers st') i = None) \<and>
    (\<forall>i a. lists_container ps i a \<longrightarrow> map_of (pm_containers st') i =
      (case map_of (pm_containers st) i of
         Some c \<Rightarrow> Some c
       | None \<Rightarrow> (case kubeletUpdateContainer N (pm_env st') i a of Pod_ok c \<Rightarrow> Some c | _ \<Rightarrow> None)))"
proof -
  have "distinct (map fst (pm_containers st))" using assms(4) by (simp add: table_ok_def)
  from sync_lookup [OF assms(1-3) this assms(5)] obtain st' where
    st': "kubeletSyncContainers N st = (st', Pod_ok ())" "distinct (map fst (pm_containers st'))"
      "\<And>i. (\<nexists>a. lists_container ps i a) \<Longrightarrow> map_of (pm_containers st') i = None"
      "\<And>i a. lists_container ps i a \<Longrightarrow> map_of (pm_containers st') i = (case map_of (pm_containers st) i of Some c \<Rightarrow> Some c
       | None \<Rightarrow> (case kubeletUpdateContainer N (pm_env st') i a of Pod_ok c \<Rightarrow> Some c | _ \<Rightarrow> None))"
    by blast
  have "ct_ID c = k" if look: "map_of (pm_containers st') k = Some c" for k c
  proof -
    obtain a where a: "lists_container ps k a" using look st'(3) [of k] by (metis option.distinct(1))
    show ?thesis
    proof (cases "map_of (pm_containers st) k")
      case None
      then show ?thesis using look st'(4) [OF a] by (cases "kubeletUpdateContainer N (pm_env st') k a") (auto dest: update_id)
    next
      case (Some d)
      then show ?thesis using look st'(4) [OF a] assms(4) by (simp add: table_ok_def)
    qed
  qed
  then show ?thesis using st' by (auto simp: table_ok_def)
qed

section \<open>What the lookups return\<close>

lemma range_of_set:
  assumes "ranges N" "distinct (map fst m)"
  shows "set (range_of N m) = snd ` set m"
proof -
  have "set (range_of N m) = (\<lambda>k. the (map_of m k)) ` fst ` set m" by (simp add: range_of_def ranges_set [OF assms(1)])
  also have "\<dots> = snd ` set m" using assms(2) by (force simp: image_image)
  finally show ?thesis .
qed

lemma select_put: "select_containers t l cs res =
    put_all (map (\<lambda>c. (ct_ID c, c)) (filter (\<lambda>c. ct_Type c AND t \<noteq> 0 \<and> \<not> ct_Qos c < l) cs)) res"
  by (induction cs arbitrary: res) simp_all

lemma select_lookup:
  assumes "ranges N" "table_ok cs" "select_containers t l (range_of N cs) [] = res"
  shows "table_ok res"
    "map_of res i = Some c \<longleftrightarrow> map_of cs i = Some c \<and> ct_Type c AND t \<noteq> 0 \<and> l \<le> ct_Qos c"
proof -
  let ?es = "map (\<lambda>c. (ct_ID c, c)) (filter (\<lambda>c. ct_Type c AND t \<noteq> 0 \<and> \<not> ct_Qos c < l) (range_of N cs))"
  have dist: "distinct (map fst cs)" using assms(2) by (simp add: table_ok_def)
  have mem: "c \<in> set (range_of N cs) \<longleftrightarrow> (\<exists>k. map_of cs k = Some c)" for c
    using dist by (force simp: range_of_set [OF assms(1) dist])
  have res: "res = put_all ?es []" using assms(3) by (simp add: select_put)
  have "\<forall>k v w. (k, v) \<in> set ?es \<longrightarrow> (k, w) \<in> set ?es \<longrightarrow> v = w"
    using assms(2) unfolding table_ok_def by (auto simp: mem simp del: map_of_eq_Some_iff)
  from put_all_lookup [OF this]
  have a: "map_of res i = Some c \<longleftrightarrow> (i, c) \<in> set ?es" for i c by (simp add: res)
  have b: "(i, c) \<in> set ?es \<longleftrightarrow> ct_ID c = i \<and> (\<exists>k. map_of cs k = Some c) \<and> ct_Type c AND t \<noteq> 0 \<and> l \<le> ct_Qos c" for i c
    using mem [of c] by auto
  have d: "ct_ID c = i \<and> (\<exists>k. map_of cs k = Some c) \<longleftrightarrow> map_of cs i = Some c" for i c
    using assms(2) unfolding table_ok_def by blast
  have look: "map_of res i = Some c \<longleftrightarrow> map_of cs i = Some c \<and> ct_Type c AND t \<noteq> 0 \<and> l \<le> ct_Qos c" for i c
    using a [of i c] b [of i c] d [of c i] by argo
  show "map_of res i = Some c \<longleftrightarrow> map_of cs i = Some c \<and> ct_Type c AND t \<noteq> 0 \<and> l \<le> ct_Qos c" by (rule look)
  show "table_ok res"
    using put_all_keys [of "[]" ?es] assms(2) look unfolding table_ok_def by (simp add: res)
qed

text \<open>The containers of a result under their control group of a subsystem.\<close>

lemma css_to_id_lookup:
  "css_to_id subsys cs m = m ++ map_of (rev (List.map_filter (\<lambda>c. map_option (\<lambda>a. (a, ct_ID c)) (ct_CSS c subsys)) cs))"
  by (induction cs arbitrary: m)
    (auto simp: map_filter_simps map_add_def fun_eq_iff split: option.splits)

lemma in_map_filter: "x \<in> set (List.map_filter f xs) \<longleftrightarrow> (\<exists>y\<in>set xs. f y = Some x)"
  by (induction xs) (auto simp: map_filter_simps split: option.splits)

lemma css_to_id_iff:
  assumes "ranges N" "table_ok res"
    and "\<And>i j c d. map_of res i = Some c \<Longrightarrow> map_of res j = Some d \<Longrightarrow> ct_CSS c subsys = Some css \<Longrightarrow>
      ct_CSS d subsys = Some css \<Longrightarrow> i = j"
  shows "css_to_id subsys (range_of N res) Map.empty css = Some i \<longleftrightarrow>
    (\<exists>c. map_of res i = Some c \<and> ct_CSS c subsys = Some css)"
proof -
  let ?es = "List.map_filter (\<lambda>c. map_option (\<lambda>a. (a, ct_ID c)) (ct_CSS c subsys)) (range_of N res)"
  have dist: "distinct (map fst res)" and ids: "map_of res k = Some c \<Longrightarrow> ct_ID c = k" for k c
    using assms(2) by (simp_all add: table_ok_def)
  have "c \<in> set (range_of N res) \<longleftrightarrow> (\<exists>k. map_of res k = Some c)" for c
    unfolding range_of_set [OF assms(1) dist] map_of_eq_Some_iff [OF dist] by force
  then have pre: "(css, j) \<in> set ?es \<longleftrightarrow> (\<exists>c k. map_of res k = Some c \<and> ct_CSS c subsys = Some css \<and> ct_ID c = j)" for j
    unfolding in_map_filter by auto
  have mem: "(css, j) \<in> set ?es \<longleftrightarrow> (\<exists>c. map_of res j = Some c \<and> ct_CSS c subsys = Some css)" for j
  proof
    assume "(css, j) \<in> set ?es"
    then obtain c k where c: "map_of res k = Some c" "ct_CSS c subsys = Some css" "ct_ID c = j" unfolding pre by blast
    with ids [OF c(1)] show "\<exists>c. map_of res j = Some c \<and> ct_CSS c subsys = Some css" by blast
  next
    assume "\<exists>c. map_of res j = Some c \<and> ct_CSS c subsys = Some css"
    then show "(css, j) \<in> set ?es" unfolding pre using ids by blast
  qed
  have "css_to_id subsys (range_of N res) Map.empty css = map_of (rev ?es) css" by (simp add: css_to_id_lookup)
  also have "map_of (rev ?es) css = Some i \<longleftrightarrow> (css, i) \<in> set (rev ?es)"
  proof (rule map_of_unique)
    fix v w assume "(css, v) \<in> set (rev ?es)" "(css, w) \<in> set (rev ?es)"
    then show "v = w" unfolding set_rev mem using assms(3) by blast
  qed
  finally show ?thesis by (simp only: set_rev mem)
qed

section \<open>An example\<close>

definition pod_example :: pod where
  "pod_example = \<lparr>pod_Name = ''web-0'', pod_Namespace = ''shop'', pod_UID = ''u-1'', pod_Hostname = [], pod_IP = ''10.0.0.1'',
     pod_Phase = ''Running'', pod_QOSClass = ''Burstable'', pod_Owners = [''ReplicaSet''], pod_Containers = [''app''],
     pod_Statuses = [\<lparr>st_Name = ''app'', st_ContainerID = ''docker://c1'', st_Running = Some ''noon''\<rparr>]\<rparr>"

definition node_example :: node_env where
  "node_example = \<lparr>ne_enabled = True, ne_request = Some [pod_example], ne_hostname = None, ne_provider = (\<lambda>_. True),
     ne_docker_pid = (\<lambda>_. Some 42), ne_containerd_pid = (\<lambda>_. None), ne_netns = (\<lambda>_. Some 7), ne_time = Some, ne_now = 0,
     ne_css_order = [99], ne_css_table = [99 \<mapsto> \<lparr>cm_css = 99, cm_subsys = ''memory'', cm_cgroup = 0, cm_root = 0, cm_level = 0,
       cm_container = string_bytes ''c1''\<rparr>], ne_systemd = True, ne_range = rev\<rparr>"

definition old_example :: Container where
  "old_example = \<lparr>ct_ID = ''c0'', ct_Name = ''app'', ct_Hostname = ''web-1'', ct_Type = 16, ct_Qos = 2, ct_IPAddress = [],
     ct_NetNamespaceInode = 6, ct_InitPid = 41, ct_CgroupSuffix = [], ct_CSS = Map.empty, ct_StartedAt = [], ct_SyncedAt = 0,
     ct_Labels = []\<rparr>"

lemma example_id: "id_parts ''docker://c1'' = [''docker'', ''c1'']"
  by (simp add: id_parts_def strings_TrimRight_def HasPrefix_def)

lemma example_status: "status_of pod_example ''app'' = Some \<lparr>st_Name = ''app'', st_ContainerID = ''docker://c1'', st_Running = Some ''noon''\<rparr>"
  by (simp add: status_of_def pod_example_def)

lemma example_sync:
  "ranges node_example" "podlist_ok node_example None [pod_example]" "ids_unique [pod_example]"
  "table_ok [(''c0'', old_example)]" "kubeletGetPodList node_example = Some [pod_example]"
proof -
  have c: "pod_Containers pod_example = [''app'']" by (simp add: pod_example_def)
  show "ranges node_example" by (simp add: ranges_def node_example_def)
  show "podlist_ok node_example None [pod_example]"
    by (simp add: podlist_ok_def name_ok_def c example_status example_id initContainerProviderEnv_def)
      (simp add: node_example_def)
  show "ids_unique [pod_example]" by (auto simp: ids_unique_def lists_container_def c)
  show "table_ok [(''c0'', old_example)]" by (simp add: table_ok_def old_example_def)
  show "kubeletGetPodList node_example = Some [pod_example]" by (simp add: kubeletGetPodList_def node_example_def)
qed

lemma add_example: "add_pods node_example [pod_example] None [] = (Some Env_docker, Pod_ok [(''c1'', ''app'',
    \<lparr>st_Name = ''app'', st_ContainerID = ''docker://c1'', st_Running = Some ''noon''\<rparr>, pod_example)])"
proof -
  have "ne_range node_example = rev" "ne_provider node_example = (\<lambda>_. True)" "pod_Containers pod_example = [''app'']"
    "isRuningPod pod_example" by (simp_all add: node_example_def pod_example_def isRuningPod_def)
  then show ?thesis
    by (simp add: example_status example_id parseContainerIDInPodStatus_def initContainerProviderEnv_def)
qed

lemma example_update:
  "\<exists>c. kubeletUpdateContainer node_example (Some Env_docker) ''c1'' (''app'',
      \<lparr>st_Name = ''app'', st_ContainerID = ''docker://c1'', st_Running = Some ''noon''\<rparr>, pod_example) = Pod_ok c \<and>
     ct_Hostname c = ''web-0'' \<and> ct_CSS c ''memory'' = Some 99"
proof -
  have "parseContainerType ''app'' pod_example = ContainerTypeNormal"
    by (simp add: parseContainerType_def pod_example_def sidecarModules_def HasPrefix_def)
  then have "parseContainerHostname (ne_hostname node_example) (parseContainerType ''app'' pod_example) pod_example = Some ''web-0''"
    by (simp add: parseContainerHostname_def type_defs) (simp add: pod_example_def)
  moreover have "containerInitPid node_example (Some Env_docker) ''c1'' = Some 42" "ne_netns node_example 42 = Some 7"
    "ne_time node_example = Some" by (simp_all add: containerInitPid_def node_example_def)
  moreover have "parseContainerCSS (ne_css_order node_example) (ne_css_table node_example) (string_bytes ''c1'') ''memory'' = Some 99"
    by (simp add: node_example_def parseContainerCSS_def cgroupListCssDataByKnode_def map_filter_simps)
  ultimately show ?thesis by (simp add: kubeletUpdateContainer_def Let_def)
qed

theorem containers_synced_witness:
  "\<exists>st' c. kubeletSyncContainers node_example \<lparr>pm_containers = [(''c0'', old_example)], pm_env = None, pm_lastUpdatedAt = 0\<rparr> =
     (st', Pod_ok ()) \<and> map_of (pm_containers st') ''c0'' = None \<and>
     map_of (pm_containers st') ''c1'' = Some c \<and> ct_Hostname c = ''web-0'' \<and> ct_CSS c ''memory'' = Some 99"
proof -
  let ?st = "\<lparr>pm_containers = [(''c0'', old_example)], pm_env = None, pm_lastUpdatedAt = 0\<rparr>"
  have l: "lists_container [pod_example] i a \<longleftrightarrow> i = ''c1'' \<and> a = (''app'',
      \<lparr>st_Name = ''app'', st_ContainerID = ''docker://c1'', st_Running = Some ''noon''\<rparr>, pod_example)" for i a
  proof -
    have "pod_Containers pod_example = [''app'']" "isRuningPod pod_example" by (simp_all add: pod_example_def isRuningPod_def)
    then show ?thesis by (cases a) (auto simp: lists_container_def example_status example_id)
  qed
  have "podlist_ok node_example (pm_env ?st) [pod_example]" "table_ok (pm_containers ?st)" using example_sync by simp_all
  from containers_synced [OF example_sync(1) this(1) example_sync(3) this(2) example_sync(5)]
  obtain st' where st': "kubeletSyncContainers node_example ?st = (st', Pod_ok ())"
    "map_of (pm_containers st') ''c0'' = None"
    "map_of (pm_containers st') ''c1'' = (case kubeletUpdateContainer node_example (pm_env st') ''c1'' (''app'',
        \<lparr>st_Name = ''app'', st_ContainerID = ''docker://c1'', st_Running = Some ''noon''\<rparr>, pod_example) of
       Pod_ok c \<Rightarrow> Some c | _ \<Rightarrow> None)" unfolding l by (auto simp: old_example_def)
  have "pm_env (fst (kubeletSyncContainers node_example ?st)) = Some Env_docker"
    by (simp add: kubeletSyncContainers_def example_sync(5) add_example del: add_pods.simps split: prod.split pod_result.split)
  then have env: "pm_env st' = Some Env_docker" by (simp add: st'(1))
  obtain c where "kubeletUpdateContainer node_example (Some Env_docker) ''c1'' (''app'',
      \<lparr>st_Name = ''app'', st_ContainerID = ''docker://c1'', st_Running = Some ''noon''\<rparr>, pod_example) = Pod_ok c"
    "ct_Hostname c = ''web-0''" "ct_CSS c ''memory'' = Some 99" using example_update by blast
  then show ?thesis using st' unfolding env by auto
qed

end
