(* ===== verification/Oom_Reader.thy ===== *)
theory Oom_Reader
  imports Containers Host_Events
begin

text \<open>
  The collector of OOM kills, \<^verbatim>\<open>core/events/oom.go\<close>: the reader of the events of \<^verbatim>\<open>bpf/oom.c\<close> and the
  metrics it counts. The reader and the collection of the metrics are two goroutines; both change the counters
  under one lock, so a run is a sequence of their rounds.
\<close>

section \<open>core/events/oom.go\<close>

record perfEventData =
  pd_TriggerProcessName :: "byte list"
  pd_VictimProcessName :: "byte list"
  pd_TriggerPid :: s32
  pd_VictimPid :: s32
  pd_TriggerMemcgCSS :: u64
  pd_VictimMemcgCSS :: u64

definition read_perfEventData :: "byte list \<Rightarrow> perfEventData option" where
  "read_perfEventData bs =
     (case binary_read go_perfEventData bs of
        None \<Rightarrow> None
      | Some fs \<Rightarrow>
          let f = (\<lambda>i. snd (fs ! i)) in
          Some \<lparr>pd_TriggerProcessName = f 0, pd_VictimProcessName = f 1, pd_TriggerPid = dec (f 2),
            pd_VictimPid = dec (f 3), pd_TriggerMemcgCSS = dec (f 4), pd_VictimMemcgCSS = dec (f 5)\<rparr>)"

record OOMTracingData =
  od_TriggerMemcgCSS :: string
  od_TriggerContainerID :: string
  od_TriggerContainerHostname :: string
  od_TriggerPid :: s32
  od_TriggerProcessName :: string
  od_VictimMemcgCSS :: string
  od_VictimContainerID :: string
  od_VictimContainerHostname :: string
  od_VictimPid :: s32
  od_VictimProcessName :: string

record oomMetric =
  om_count :: nat
  om_victimProcessName :: string

text \<open>The counter of the host is a \<open>float64\<close>: from \<open>2 ^ 53\<close> on, adding one changes nothing.\<close>

record oom_counters =
  hostOOMCounter :: nat
  containerOOMCounter :: "string \<rightharpoonup> oomMetric"
  oom_saved :: "OOMTracingData list"

definition float64_inc :: "nat \<Rightarrow> nat" where
  "float64_inc n = (if n < 2 ^ 53 then n + 1 else n)"

definition css_id :: "(u64 \<rightharpoonup> string) \<Rightarrow> u64 \<Rightarrow> string" where
  "css_id m css = (case m css of None \<Rightarrow> [] | Some i \<Rightarrow> i)"

text \<open>Identifier and host name in the document; \<open>None\<close> is a panic, for a container that is not in the table.\<close>

definition oom_container :: "(string \<times> Container) list \<Rightarrow> string \<Rightarrow> (string \<times> string) option" where
  "oom_container cts i =
     (if i = [] then Some (''None'', ''Non-Container Cgroup'')
      else map_option (\<lambda>c. (i, if ct_Hostname c = [] then ''unknown'' else ct_Hostname c)) (map_of cts i))"

definition oom_count :: "(string \<times> Container) list \<Rightarrow> string \<Rightarrow> string \<Rightarrow> oom_counters \<Rightarrow> oom_counters option" where
  "oom_count cts i name s =
     (if i = [] then Some (s\<lparr>hostOOMCounter := float64_inc (hostOOMCounter s)\<rparr>)
      else case map_of cts i of
        None \<Rightarrow> None
      | Some c \<Rightarrow>
          Some (s\<lparr>containerOOMCounter := (containerOOMCounter s)(ct_ID c \<mapsto>
            (case containerOOMCounter s (ct_ID c) of
               Some val \<Rightarrow> \<lparr>om_count = om_count val + 1, om_victimProcessName = om_victimProcessName val @ '','' @ name\<rparr>
             | None \<Rightarrow> \<lparr>om_count = 1, om_victimProcessName = name\<rparr>))\<rparr>))"

definition oom_document :: "perfEventData \<Rightarrow> string \<times> string \<Rightarrow> string \<times> string \<Rightarrow> OOMTracingData" where
  "oom_document data trigger victim =
     \<lparr>od_TriggerMemcgCSS = ''0x'' @ hex_string (unat (pd_TriggerMemcgCSS data)),
      od_TriggerContainerID = fst trigger, od_TriggerContainerHostname = snd trigger, od_TriggerPid = pd_TriggerPid data,
      od_TriggerProcessName = bytes_string (pd_TriggerProcessName data),
      od_VictimMemcgCSS = ''0x'' @ hex_string (unat (pd_VictimMemcgCSS data)),
      od_VictimContainerID = fst victim, od_VictimContainerHostname = snd victim, od_VictimPid = pd_VictimPid data,
      od_VictimProcessName = bytes_string (pd_VictimProcessName data)\<rparr>"

text \<open>
  One round of the reader, with what the two lookups of the containers return, which are two calls that may
  synchronise in between.
\<close>

definition oom_event :: "(u64 \<rightharpoonup> string) pod_result \<Rightarrow> (string \<times> Container) list pod_result \<Rightarrow> perfEventData \<Rightarrow>
    oom_counters \<Rightarrow> reader_end \<times> oom_counters + oom_counters" where
  "oom_event cssToCtMap cts data s =
     (case cssToCtMap of
        Pod_panic \<Rightarrow> Inl (Panicked, s)
      | Pod_error _ \<Rightarrow> Inr s
      | Pod_ok m \<Rightarrow>
      case cts of
        Pod_panic \<Rightarrow> Inl (Panicked, s)
      | Pod_error _ \<Rightarrow> Inl (Handler_failed, s)
      | Pod_ok cts \<Rightarrow>
      case oom_container cts (css_id m (pd_TriggerMemcgCSS data)) of
        None \<Rightarrow> Inl (Panicked, s)
      | Some trigger \<Rightarrow>
      case oom_count cts (css_id m (pd_VictimMemcgCSS data)) (bytes_string (pd_VictimProcessName data)) s of
        None \<Rightarrow> Inl (Panicked, s)
      | Some s \<Rightarrow>
      case oom_container cts (css_id m (pd_VictimMemcgCSS data)) of
        None \<Rightarrow> Inl (Panicked, s)
      | Some victim \<Rightarrow> Inr (s\<lparr>oom_saved := oom_saved s @ [oom_document data trigger victim]\<rparr>))"

text \<open>A gauge: the container it is of, none for the host, its value, and the names of the processes.\<close>

type_synonym oom_gauge = "string option \<times> nat \<times> string"

definition oomCollector_Update :: "node_env \<Rightarrow> (string \<times> Container) list pod_result \<Rightarrow> oom_counters \<Rightarrow>
    oom_gauge list option \<times> oom_counters" where
  "oomCollector_Update N containers s =
     (case containers of
        Pod_ok cs \<Rightarrow>
          (Some ((None, hostOOMCounter s, []) #
             concat (map (\<lambda>c. case containerOOMCounter s (ct_ID c) of
                 Some val \<Rightarrow> [(Some (ct_ID c), om_count val, om_victimProcessName val)]
               | None \<Rightarrow> []) (range_of N cs))),
           s\<lparr>containerOOMCounter := Map.empty\<rparr>)
      | _ \<Rightarrow> (None, s))"

section \<open>Both goroutines\<close>

type_synonym pod_call = "node_env \<times> pod_mgr"

datatype oom_action = Oom_record "byte list" pod_call pod_call | Oom_update pod_call

record oom_system =
  os_counters :: oom_counters
  os_reader :: "reader_end option"
  os_gauges :: "oom_gauge list option list"

text \<open>A panic ends the process; after another end of the reader the metrics are still collected.\<close>

fun oom_act :: "oom_system \<Rightarrow> oom_action \<Rightarrow> oom_system" where
  "oom_act s (Oom_record bs a b) =
     (if os_reader s \<noteq> None then s
      else case read_perfEventData bs of
        None \<Rightarrow> s\<lparr>os_reader := Some Read_failed\<rparr>
      | Some data \<Rightarrow>
          case oom_event (snd (case_prod (GetCSSToContainerID ''memory'') a)) (snd (case_prod GetAllContainers b)) data (os_counters s) of
            Inl (r, c) \<Rightarrow> s\<lparr>os_reader := Some r, os_counters := c\<rparr>
          | Inr c \<Rightarrow> s\<lparr>os_counters := c\<rparr>)"
| "oom_act s (Oom_update a) =
     (if os_reader s = Some Panicked then s
      else case oomCollector_Update (fst a) (snd (case_prod GetNormalContainers a)) (os_counters s) of
        (g, c) \<Rightarrow> s\<lparr>os_counters := c, os_gauges := os_gauges s @ [g]\<rparr>)"

definition oom_system_init :: oom_system where
  "oom_system_init = \<lparr>os_counters = \<lparr>hostOOMCounter = 0, containerOOMCounter = Map.empty, oom_saved = []\<rparr>,
     os_reader = None, os_gauges = []\<rparr>"

section \<open>What is counted\<close>

text \<open>A run: OOM kills, each with the two lookups of its round, and collections of the metrics.\<close>

datatype oom_item = Kill oom_info pod_call pod_call | Scrape pod_call

definition oom_bytes :: "oom_info \<Rightarrow> byte list" where
  "oom_bytes v = trigger_comm v @ victim_comm v @ enc 4 (trigger_pid v) @ enc 4 (victim_pid v) @
     enc 8 (trigger_memcg_css v) @ enc 8 (victim_memcg_css v)"

fun oom_action_of :: "oom_item \<Rightarrow> oom_action" where
  "oom_action_of (Kill v a b) = Oom_record (oom_bytes v) a b"
| "oom_action_of (Scrape a) = Oom_update a"

definition oom_run :: "oom_item list \<Rightarrow> oom_system" where
  "oom_run xs = foldl oom_act oom_system_init (map oom_action_of xs)"

definition oom_data :: "oom_info \<Rightarrow> perfEventData" where
  "oom_data v = \<lparr>pd_TriggerProcessName = trigger_comm v, pd_VictimProcessName = victim_comm v,
     pd_TriggerPid = trigger_pid v, pd_VictimPid = victim_pid v, pd_TriggerMemcgCSS = trigger_memcg_css v,
     pd_VictimMemcgCSS = victim_memcg_css v\<rparr>"

lemma read_oom_bytes:
  assumes "length (trigger_comm v) = 16" "length (victim_comm v) = 16"
  shows "read_perfEventData (oom_bytes v) = Some (oom_data v)"
  using assms by (simp add: read_perfEventData_def oom_bytes_def oom_data_def go_perfEventData_def Let_def)

text \<open>The container of a kill's victim or trigger by the first lookup; none is the empty string.\<close>

definition container_at :: "pod_call \<Rightarrow> u64 \<Rightarrow> string" where
  "container_at a css =
     (case snd (GetCSSToContainerID ''memory'' (fst a) (snd a)) of Pod_ok m \<Rightarrow> css_id m css | _ \<Rightarrow> [])"

definition all_containers :: "pod_call \<Rightarrow> (string \<times> Container) list" where
  "all_containers a = (case snd (GetAllContainers (fst a) (snd a)) of Pod_ok cts \<Rightarrow> cts | _ \<Rightarrow> [])"

text \<open>Both lookups succeed, and a container that the first one returns is still there for the second.\<close>

fun item_ok :: "oom_item \<Rightarrow> bool" where
  "item_ok (Kill v a b) \<longleftrightarrow> length (trigger_comm v) = 16 \<and> length (victim_comm v) = 16 \<and>
     (\<exists>m. snd (GetCSSToContainerID ''memory'' (fst a) (snd a)) = Pod_ok m) \<and>
     (\<exists>cts. snd (GetAllContainers (fst b) (snd b)) = Pod_ok cts) \<and> table_ok (all_containers b) \<and>
     (\<forall>css\<in>{trigger_memcg_css v, victim_memcg_css v}. container_at a css = [] \<or> map_of (all_containers b) (container_at a css) \<noteq> None)"
| "item_ok (Scrape a) \<longleftrightarrow> (\<exists>cs. snd (GetNormalContainers (fst a) (snd a)) = Pod_ok cs)"

type_synonym oom_kill = "oom_info \<times> pod_call \<times> pod_call"

fun kills :: "oom_item list \<Rightarrow> oom_kill list" where
  "kills [] = []"
| "kills (Kill v a b # xs) = (v, a, b) # kills xs"
| "kills (Scrape _ # xs) = kills xs"

text \<open>The kills since the last collection.\<close>

definition recent :: "oom_item list \<Rightarrow> oom_kill list" where
  "recent xs = kills (rev (takeWhile (\<lambda>x. case x of Kill _ _ _ \<Rightarrow> True | Scrape _ \<Rightarrow> False) (rev xs)))"

definition victim_container :: "oom_kill \<Rightarrow> string" where
  "victim_container = (\<lambda>(v, a, b). container_at a (victim_memcg_css v))"

definition victim_names :: "string \<Rightarrow> oom_kill list \<Rightarrow> string list" where
  "victim_names i ks = map (\<lambda>(v, _). bytes_string (victim_comm v)) (filter (\<lambda>k. victim_container k = i \<and> i \<noteq> []) ks)"

definition kill_document :: "oom_kill \<Rightarrow> OOMTracingData" where
  "kill_document = (\<lambda>(v, a, b). oom_document (oom_data v)
     (the (oom_container (all_containers b) (container_at a (trigger_memcg_css v))))
     (the (oom_container (all_containers b) (container_at a (victim_memcg_css v)))))"

definition metric_of :: "string list \<Rightarrow> oomMetric option" where
  "metric_of ns = (if ns = [] then None else Some \<lparr>om_count = length ns, om_victimProcessName = strings_Join '','' ns\<rparr>)"

lemma kills_append [simp]: "kills (xs @ ys) = kills xs @ kills ys"
  by (induction xs rule: kills.induct) simp_all

lemma recent_snoc [simp]: "recent [] = []" "recent (xs @ [Kill v a b]) = recent xs @ [(v, a, b)]" "recent (xs @ [Scrape a]) = []"
  by (simp_all add: recent_def)

lemma Join_snoc: "ns \<noteq> [] \<Longrightarrow> strings_Join sep (ns @ [n]) = strings_Join sep ns @ sep @ n"
  by (induction sep ns rule: strings_Join.induct) (auto split: list.splits simp: neq_Nil_conv)

lemma victim_names_snoc:
  "victim_names i (ks @ [(v, a, b)]) =
     victim_names i ks @ (if container_at a (victim_memcg_css v) = i \<and> i \<noteq> [] then [bytes_string (victim_comm v)] else [])"
  by (simp add: victim_names_def victim_container_def)

text \<open>One round of the reader.\<close>

lemma oom_round:
  assumes "item_ok (Kill v a b)"
  defines "i \<equiv> container_at a (victim_memcg_css v)" and "n \<equiv> bytes_string (victim_comm v)"
  shows "\<exists>c. oom_event (snd (GetCSSToContainerID ''memory'' (fst a) (snd a))) (snd (GetAllContainers (fst b) (snd b))) (oom_data v) s = Inr c \<and>
    oom_saved c = oom_saved s @ [kill_document (v, a, b)] \<and>
    hostOOMCounter c = (if i = [] then float64_inc (hostOOMCounter s) else hostOOMCounter s) \<and>
    containerOOMCounter c = (if i = [] then containerOOMCounter s
      else (containerOOMCounter s)(i \<mapsto> (case containerOOMCounter s i of
        Some val \<Rightarrow> \<lparr>om_count = om_count val + 1, om_victimProcessName = om_victimProcessName val @ '','' @ n\<rparr>
      | None \<Rightarrow> \<lparr>om_count = 1, om_victimProcessName = n\<rparr>)))"
proof -
  obtain m cts where r: "snd (GetCSSToContainerID ''memory'' (fst a) (snd a)) = Pod_ok m" "snd (GetAllContainers (fst b) (snd b)) = Pod_ok cts"
    using assms(1) by auto
  have at: "container_at a css = css_id m css" "all_containers b = cts" for css
    by (simp_all add: container_at_def all_containers_def r)
  have ok: "table_ok cts" "css = trigger_memcg_css v \<or> css = victim_memcg_css v \<Longrightarrow> css_id m css = [] \<or> map_of cts (css_id m css) \<noteq> None" for css
    using assms(1) by (auto simp: at)
  have con: "css = trigger_memcg_css v \<or> css = victim_memcg_css v \<Longrightarrow> oom_container cts (css_id m css) \<noteq> None" for css
    using ok(2) by (auto simp: oom_container_def)
  obtain tr vi where tv: "oom_container cts (css_id m (trigger_memcg_css v)) = Some tr"
    "oom_container cts (css_id m (victim_memcg_css v)) = Some vi" using con by blast
  show ?thesis
  proof (cases "i = []")
    case True
    then show ?thesis using tv
      by (simp add: oom_event_def r oom_data_def oom_count_def kill_document_def at i_def)
  next
    case False
    then obtain c where c: "map_of cts (css_id m (victim_memcg_css v)) = Some c"
      using ok(2) [of "victim_memcg_css v"] by (auto simp: i_def at)
    then have "ct_ID c = i" using ok(1) by (simp add: table_ok_def i_def at)
    with False c tv show ?thesis
      by (simp add: oom_event_def r oom_data_def oom_count_def kill_document_def at i_def n_def split: option.split)
  qed
qed

lemma oom_invariant:
  assumes "\<forall>x\<in>set xs. item_ok x"
  shows "os_reader (oom_run xs) = None \<and>
    hostOOMCounter (os_counters (oom_run xs)) = min (2 ^ 53) (length (filter (\<lambda>k. victim_container k = []) (kills xs))) \<and>
    containerOOMCounter (os_counters (oom_run xs)) = (\<lambda>i. metric_of (victim_names i (recent xs))) \<and>
    oom_saved (os_counters (oom_run xs)) = map kill_document (kills xs)"
  using assms
proof (induction xs rule: rev_induct)
  case Nil
  then show ?case by (simp add: oom_run_def oom_system_init_def victim_names_def metric_of_def)
next
  case (snoc x xs)
  let ?s = "oom_run xs"
  have run: "oom_run (xs @ [x]) = oom_act ?s (oom_action_of x)" by (simp add: oom_run_def)
  from snoc have IH: "os_reader ?s = None"
    "hostOOMCounter (os_counters ?s) = min (2 ^ 53) (length (filter (\<lambda>k. victim_container k = []) (kills xs)))"
    "containerOOMCounter (os_counters ?s) = (\<lambda>i. metric_of (victim_names i (recent xs)))"
    "oom_saved (os_counters ?s) = map kill_document (kills xs)" by simp_all
  show ?case
  proof (cases x)
    case (Kill v a b)
    with snoc.prems have ok: "item_ok (Kill v a b)" by simp
    let ?i = "container_at a (victim_memcg_css v)" and ?n = "bytes_string (victim_comm v)"
    obtain c where c: "oom_event (snd (GetCSSToContainerID ''memory'' (fst a) (snd a))) (snd (GetAllContainers (fst b) (snd b))) (oom_data v) (os_counters ?s) = Inr c"
      "oom_saved c = oom_saved (os_counters ?s) @ [kill_document (v, a, b)]"
      "hostOOMCounter c = (if ?i = [] then float64_inc (hostOOMCounter (os_counters ?s)) else hostOOMCounter (os_counters ?s))"
      "containerOOMCounter c = (if ?i = [] then containerOOMCounter (os_counters ?s)
        else (containerOOMCounter (os_counters ?s))(?i \<mapsto> (case containerOOMCounter (os_counters ?s) ?i of
        Some val \<Rightarrow> \<lparr>om_count = om_count val + 1, om_victimProcessName = om_victimProcessName val @ '','' @ ?n\<rparr>
      | None \<Rightarrow> \<lparr>om_count = 1, om_victimProcessName = ?n\<rparr>)))"
      using oom_round [OF ok, of "os_counters ?s"] by blast
    have "read_perfEventData (oom_bytes v) = Some (oom_data v)" using ok by (simp add: read_oom_bytes)
    then have act: "oom_run (xs @ [x]) = ?s\<lparr>os_counters := c\<rparr>"
      using c(1) IH(1) unfolding run by (simp add: Kill case_prod_beta)
    have host: "hostOOMCounter c = min (2 ^ 53) (length (filter (\<lambda>k. victim_container k = []) (kills (xs @ [x]))))"
      unfolding c(3) IH(2) by (simp add: Kill victim_container_def float64_inc_def)
    have cont: "containerOOMCounter c = (\<lambda>i. metric_of (victim_names i (recent (xs @ [x]))))"
      unfolding c(4) IH(3) Kill recent_snoc victim_names_snoc
      by (rule ext) (auto simp: metric_of_def Join_snoc)
    show ?thesis using host cont c(2) IH(1,4) by (simp add: act) (simp add: Kill)
  next
    case (Scrape a)
    with snoc.prems obtain cs where "snd (GetNormalContainers (fst a) (snd a)) = Pod_ok cs" by auto
    then show ?thesis using IH unfolding run
      by (simp add: Scrape oomCollector_Update_def case_prod_beta victim_names_def metric_of_def)
  qed
qed

text \<open>
  C8. The OOM metrics: for every interleaving of OOM kills and collections of the metrics in which each
  container that a kill's first lookup returns is still there for its second, the reader keeps running, it has
  stored one document for each kill, in order, and a collection reports: for the host, the number of all kills so
  far whose victim is in no container (up to \<open>2 ^ 53\<close>, where a \<open>float64\<close> stops counting); for
  each normal container with kills since the last collection, their number and the names of the killed
  processes in order, separated by commas; and nothing for the others.
\<close>

theorem oom_metrics:
  assumes "\<forall>x\<in>set xs. item_ok x" "snd (GetNormalContainers N st) = Pod_ok cs"
  defines "s \<equiv> oom_run (xs @ [Scrape (N, st)])"
  shows "os_reader s = None \<and> oom_saved (os_counters s) = map kill_document (kills xs) \<and>
    last (os_gauges s) = Some (
      (None, min (2 ^ 53) (length (filter (\<lambda>k. victim_container k = []) (kills xs))), []) #
      concat (map (\<lambda>c. let ns = victim_names (ct_ID c) (recent xs)
         in if ns = [] then [] else [(Some (ct_ID c), length ns, strings_Join '','' ns)]) (range_of N cs)))"
proof -
  note inv = oom_invariant [OF assms(1)]
  have "s = oom_act (oom_run xs) (Oom_update (N, st))" by (simp add: s_def oom_run_def)
  then show ?thesis using inv assms(2)
    by (simp add: oomCollector_Update_def)
      (intro arg_cong [where f = concat] map_cong refl, simp add: metric_of_def Let_def)
qed

text \<open>A container that is gone at the second lookup ends the agent, with the lock of the counters held.\<close>

lemma oom_panics:
  assumes "os_reader s = None" "length (trigger_comm v) = 16" "length (victim_comm v) = 16"
    and "snd (GetCSSToContainerID ''memory'' (fst a) (snd a)) = Pod_ok m" "snd (GetAllContainers (fst b) (snd b)) = Pod_ok cts"
    and "m (victim_memcg_css v) = Some i" "i \<noteq> []" "map_of cts i = None"
  shows "os_reader (oom_act s (Oom_record (oom_bytes v) a b)) = Some Panicked"
proof -
  have "oom_event (Pod_ok m) (Pod_ok cts) (oom_data v) (os_counters s) = Inl (Panicked, os_counters s)"
    using assms(6-8) by (auto simp: oom_event_def oom_data_def oom_count_def css_id_def split: option.split)
  then show ?thesis using assms(1-5) by (simp add: read_oom_bytes case_prod_beta)
qed

definition oom_mgr_example :: pod_mgr where
  "oom_mgr_example = \<lparr>pm_containers = [(''c0'', old_example\<lparr>ct_CSS := [''memory'' \<mapsto> 99]\<rparr>)], pm_env = None, pm_lastUpdatedAt = 0\<rparr>"

lemma oom_example_lookups:
  "snd (GetAllContainers node_example oom_mgr_example) = Pod_ok [(''c0'', old_example\<lparr>ct_CSS := [''memory'' \<mapsto> 99]\<rparr>)]"
  "snd (GetNormalContainers node_example oom_mgr_example) = Pod_ok [(''c0'', old_example\<lparr>ct_CSS := [''memory'' \<mapsto> 99]\<rparr>)]"
  "snd (GetCSSToContainerID ''memory'' node_example oom_mgr_example) = Pod_ok [99 \<mapsto> ''c0'']"
proof -
  let ?c = "old_example\<lparr>ct_CSS := [''memory'' \<mapsto> 99]\<rparr>"
  have n: "ne_now node_example = 0" "ne_range node_example = rev" "pm_lastUpdatedAt oom_mgr_example = 0"
    "pm_containers oom_mgr_example = [(''c0'', ?c)]" by (simp_all add: node_example_def oom_mgr_example_def)
  have c: "ct_Type ?c = 16" "ct_Qos ?c = 2" "ct_ID ?c = ''c0''" by (simp_all add: old_example_def)
  have get: "getContainers t ContainerQosLevelMin node_example oom_mgr_example = (oom_mgr_example, Pod_ok [(''c0'', ?c)])"
    if "16 AND t \<noteq> 0" for t
    using that by (simp add: getContainers_def n updatedStep_def range_of_def c ContainerQosLevelMin_def)
  have all: "GetAllContainers node_example oom_mgr_example = (oom_mgr_example, Pod_ok [(''c0'', ?c)])"
    unfolding GetAllContainers_def by (rule get) (simp add: type_defs)
  show "snd (GetAllContainers node_example oom_mgr_example) = Pod_ok [(''c0'', ?c)]" by (simp add: all)
  have "GetNormalContainers node_example oom_mgr_example = (oom_mgr_example, Pod_ok [(''c0'', ?c)])"
    unfolding GetNormalContainers_def GetContainersByType_def by (rule get) (simp add: type_defs)
  then show "snd (GetNormalContainers node_example oom_mgr_example) = Pod_ok [(''c0'', ?c)]" by simp
  show "snd (GetCSSToContainerID ''memory'' node_example oom_mgr_example) = Pod_ok [99 \<mapsto> ''c0'']"
    by (simp add: GetCSSToContainerID_def all range_of_def n c)
qed

definition oom_info_example :: "u64 \<Rightarrow> oom_info" where
  "oom_info_example css = \<lparr>trigger_comm = replicate 16 0, victim_comm = [97, 98] @ replicate 14 0, trigger_pid = 1, victim_pid = 2,
     trigger_memcg_css = 99, victim_memcg_css = css\<rparr>"

theorem oom_metrics_witness:
  "last (os_gauges (oom_run (map (\<lambda>css. Kill (oom_info_example css) (node_example, oom_mgr_example) (node_example, oom_mgr_example))
      [99, 5, 99] @ [Scrape (node_example, oom_mgr_example)]))) =
   Some [(None, 1, []), (Some ''c0'', 2, ''ab,ab'')]"
proof -
  let ?p = "(node_example, oom_mgr_example)"
  let ?xs = "map (\<lambda>css. Kill (oom_info_example css) ?p ?p) [99, 5, 99]"
  have at: "container_at ?p css = (if css = 99 then ''c0'' else [])"
    "all_containers ?p = [(''c0'', old_example\<lparr>ct_CSS := [''memory'' \<mapsto> 99]\<rparr>)]" for css
    by (simp_all add: container_at_def all_containers_def oom_example_lookups css_id_def)
  have id: "ct_ID (old_example\<lparr>ct_CSS := [''memory'' \<mapsto> 99]\<rparr>) = ''c0''" by (simp add: old_example_def)
  have t: "table_ok [(''c0'', old_example\<lparr>ct_CSS := [''memory'' \<mapsto> 99]\<rparr>)]" by (simp add: table_ok_def id)
  have ok: "\<forall>x\<in>set ?xs. item_ok x" by (simp add: at t oom_example_lookups oom_info_example_def)
  have z: "dropWhile (\<lambda>x. x = CHR 0x00) (replicate k (CHR 0x00) @ cs) = dropWhile (\<lambda>x. x = CHR 0x00) cs" for k cs
    by (induction k) simp_all
  have name: "bytes_string (victim_comm (oom_info_example css)) = ''ab''" for css
    by (simp add: bytes_string_def oom_info_example_def strings_TrimRight_def char_of_def bit_0 z)
  have vic: "victim_container (oom_info_example css, ?p, ?p) = (if css = 99 then ''c0'' else [])" for css
    by (simp add: victim_container_def at oom_info_example_def)
  have "recent ?xs = kills ?xs" by (simp add: recent_def)
  moreover have "ne_range node_example = rev" by (simp add: node_example_def)
  ultimately show ?thesis
    using oom_metrics [OF ok oom_example_lookups(2)]
    by (simp add: vic victim_names_def name range_of_def id)
qed

end
