(* ===== verification/Clock_Offset.thy ===== *)
theory Clock_Offset
  imports Netrecvlat "HOL-Library.Signed_Division"
begin

text \<open>
  The offset between the two clocks of \<^verbatim>\<open>core/events/netrecvlat.go\<close>: \<open>bpf_ktime_get_ns\<close> reads the
  monotonic clock, a packet is stamped with the wall clock, and \<open>estMonoWallOffset\<close> estimates their
  difference. The estimate is bounded, and with it the delay that \<open>Netrecvlat\<close> computes.
\<close>

section \<open>estMonoWallOffset\<close>

record timespec =
  ts_Sec :: s64
  ts_Nsec :: s64

definition TimespecToNsec :: "timespec \<Rightarrow> s64" where
  "TimespecToNsec ts = ts_Sec ts * 1000000000 + ts_Nsec ts"

text \<open>The three readings of a round: wall clock, monotonic clock, wall clock. \<open>None\<close> is an error.\<close>

type_synonym clock_round = "timespec option \<times> timespec option \<times> timespec option"

definition round_delta :: "timespec \<Rightarrow> timespec \<Rightarrow> s64" where
  "round_delta t1 t3 = TimespecToNsec t3 - TimespecToNsec t1"

definition round_offset :: "timespec \<Rightarrow> timespec \<Rightarrow> timespec \<Rightarrow> s64" where
  "round_offset t1 t2 t3 =
     word_of_int (sint (TimespecToNsec t3 + TimespecToNsec t1) sdiv 2) - TimespecToNsec t2"

fun est_loop :: "nat \<Rightarrow> clock_round list \<Rightarrow> s64 \<Rightarrow> s64 \<Rightarrow> s64 option" where
  "est_loop i [] bestDelta offset = Some offset"
| "est_loop i ((Some t1, Some t2, Some t3) # rounds) bestDelta offset =
     (let delta = round_delta t1 t3 in
      if i = 0 \<or> delta <s bestDelta then est_loop (Suc i) rounds delta (round_offset t1 t2 t3)
      else est_loop (Suc i) rounds bestDelta offset)"
| "est_loop i (_ # rounds) bestDelta offset = None"

definition estMonoWallOffset :: "(nat \<Rightarrow> clock_round) \<Rightarrow> s64 option" where
  "estMonoWallOffset clock = est_loop 0 (map clock [0 ..< 10]) 0 0"

section \<open>How good the estimate is\<close>

text \<open>
  A round of readings while the wall clock is \<open>o\<close> ahead of the monotonic clock: the monotonic clock is read
  between the two readings of the wall clock.
\<close>

definition wall :: "timespec \<Rightarrow> int" where
  "wall t = sint (TimespecToNsec t)"

fun round_true :: "int \<Rightarrow> clock_round \<Rightarrow> bool" where
  "round_true o' (Some t1, Some t2, Some t3) \<longleftrightarrow>
     0 \<le> wall t1 \<and> wall t1 \<le> wall t2 + o' \<and> wall t2 + o' \<le> wall t3 \<and> wall t3 < 2 ^ 62 \<and> 0 \<le> wall t2"
| "round_true o' _ \<longleftrightarrow> False"

fun round_width :: "clock_round \<Rightarrow> int" where
  "round_width (Some t1, Some t2, Some t3) = wall t3 - wall t1"
| "round_width _ = 0"

fun round_est :: "clock_round \<Rightarrow> s64" where
  "round_est (Some t1, Some t2, Some t3) = round_offset t1 t2 t3"
| "round_est _ = 0"

lemma sint_add_small:
  fixes a b :: s64
  assumes "- (2 ^ 63) \<le> sint a + sint b" "sint a + sint b < 2 ^ 63"
  shows "sint (a + b) = sint a + sint b"
  using assms by (simp add: sint_word_ariths signed_take_bit_int_eq_self)

lemma sint_diff_small:
  fixes a b :: s64
  assumes "- (2 ^ 63) \<le> sint a - sint b" "sint a - sint b < 2 ^ 63"
  shows "sint (a - b) = sint a - sint b"
  using assms by (simp add: sint_word_ariths signed_take_bit_int_eq_self)

lemma round_true_bounds:
  assumes "round_true o' (Some t1, Some t2, Some t3)"
  shows "sint (round_delta t1 t3) = wall t3 - wall t1"
    "sint (round_offset t1 t2 t3) = (wall t1 + wall t3) div 2 - wall t2"
proof -
  have b: "0 \<le> wall t1" "wall t1 < 2 ^ 62" "0 \<le> wall t3" "wall t3 < 2 ^ 62" "wall t1 \<le> wall t3" "0 \<le> wall t2"
    using assms by auto
  show "sint (round_delta t1 t3) = wall t3 - wall t1"
    using b unfolding round_delta_def wall_def by (intro sint_diff_small) auto
  have s: "sint (TimespecToNsec t3 + TimespecToNsec t1) = wall t1 + wall t3"
    using b sint_add_small [of "TimespecToNsec t3" "TimespecToNsec t1"] by (simp add: wall_def add.commute)
  have h: "sint (word_of_int ((wall t1 + wall t3) div 2) :: s64) = (wall t1 + wall t3) div 2"
    using b by (simp add: sint_sbintrunc' signed_take_bit_int_eq_self)
  have "(wall t1 + wall t3) sdiv 2 = (wall t1 + wall t3) div 2"
    using b by (simp add: signed_divide_int_def sgn_if)
  then show "sint (round_offset t1 t2 t3) = (wall t1 + wall t3) div 2 - wall t2"
    unfolding round_offset_def s using b h wall_def [of t2] sint_lt [of "TimespecToNsec t2"] sint_diff_small
    by (subst sint_diff_small) auto
qed

lemma est_loop_best:
  "\<forall>x\<in>set xs. round_true o' x \<Longrightarrow> \<exists>r. est_loop i xs best off = Some r \<and>
     ((xs = [] \<or> i \<noteq> 0) \<and> r = off \<and> (\<forall>x\<in>set xs. sint best \<le> round_width x) \<or>
      (\<exists>x\<in>set xs. r = round_est x \<and> (\<forall>y\<in>set xs. round_width x \<le> round_width y) \<and> (i = 0 \<or> round_width x < sint best)))"
proof (induction xs arbitrary: i best off)
  case Nil
  then show ?case by simp
next
  case (Cons x xs)
  from Cons.prems obtain t1 t2 t3 where x: "x = (Some t1, Some t2, Some t3)" by (cases "(o', x)" rule: round_true.cases) auto
  have d: "sint (round_delta t1 t3) = round_width x" using Cons.prems round_true_bounds(1) [of o' t1 t2 t3] by (simp add: x)
  have true: "\<forall>x\<in>set xs. round_true o' x" using Cons.prems by simp
  show ?case
  proof (cases "i = 0 \<or> round_delta t1 t3 <s best")
    case True
    then have "est_loop i (x # xs) best off = est_loop (Suc i) xs (round_delta t1 t3) (round_offset t1 t2 t3)"
      by (auto simp: x Let_def)
    moreover have "round_est x = round_offset t1 t2 t3" "i = 0 \<or> round_width x < sint best"
      using True d by (simp_all add: x word_sless_alt)
    ultimately show ?thesis
      using Cons.IH [OF true, of "Suc i" "round_delta t1 t3" "round_offset t1 t2 t3"] d by fastforce
  next
    case False
    then have "est_loop i (x # xs) best off = est_loop (Suc i) xs best off" "i \<noteq> 0" "sint best \<le> round_width x"
      using d by (auto simp: x Let_def word_sless_alt)
    then show ?thesis using Cons.IH [OF true, of "Suc i" best off] by fastforce
  qed
qed

lemma est_error:
  assumes "round_true o' x"
  shows "- (round_width x + 1) \<le> 2 * (sint (round_est x) - o')" "2 * (sint (round_est x) - o') \<le> round_width x"
proof -
  from assms obtain t1 t2 t3 where x: "x = (Some t1, Some t2, Some t3)" by (cases "(o', x)" rule: round_true.cases) auto
  have "sint (round_est x) = (wall t1 + wall t3) div 2 - wall t2"
    using assms round_true_bounds(2) by (simp add: x)
  moreover have "wall t1 + wall t3 - 1 \<le> 2 * ((wall t1 + wall t3) div 2)" "2 * ((wall t1 + wall t3) div 2) \<le> wall t1 + wall t3"
    by presburger+
  ultimately show "- (round_width x + 1) \<le> 2 * (sint (round_est x) - o')" "2 * (sint (round_est x) - o') \<le> round_width x"
    using assms by (auto simp: x)
qed

text \<open>The estimate is off by at most half of the shortest round, and one nanosecond.\<close>

lemma estimate_bounds:
  assumes "\<forall>i<10. round_true o' (clock i)"
  shows "\<exists>off. estMonoWallOffset clock = Some off \<and>
    (\<forall>i<10. \<bar>2 * (sint off - o')\<bar> \<le> round_width (clock i) + 1)"
proof -
  let ?xs = "map clock [0 ..< 10]"
  have true: "\<forall>x\<in>set ?xs. round_true o' x" using assms by auto
  obtain x where x: "x \<in> set ?xs" "estMonoWallOffset clock = Some (round_est x)" "\<forall>y\<in>set ?xs. round_width x \<le> round_width y"
    using est_loop_best [OF true, of 0 0 0] unfolding estMonoWallOffset_def by fastforce
  have "\<bar>2 * (sint (round_est x) - o')\<bar> \<le> round_width (clock i) + 1" if "i < 10" for i
  proof -
    have "round_width x \<le> round_width (clock i)" using x(3) that by simp
    then show ?thesis using est_error [of o' x] true x(1) by fastforce
  qed
  with x(2) show ?thesis by blast
qed

section \<open>The delay of a packet\<close>

text \<open>The delay by the wall clock, when that is \<open>o\<close> ahead of the monotonic clock.\<close>

definition true_delay :: "int \<Rightarrow> rcv_hook \<Rightarrow> int" where
  "true_delay o' h = uint (ktime_get_ns (rcv_env h) 0) + o' - uint (rcv_tstamp h)"

lemma delay_by_offset:
  assumes "rcv_tstamp h \<noteq> 0" "\<bar>true_delay o' h\<bar> < 2 ^ 62" "\<bar>sint off - o'\<bar> < 2 ^ 62"
  shows "sint (rcv_delay (c\<lparr>mono_wall_offset := off\<rparr>) h) = true_delay o' h + (sint off - o')"
proof -
  let ?d = "ktime_get_ns (rcv_env h) 0 + off - rcv_tstamp h"
  have "?d = word_of_int (uint (ktime_get_ns (rcv_env h) 0) + sint off - uint (rcv_tstamp h))"
    by simp
  also have "\<dots> = word_of_int (true_delay o' h + (sint off - o'))" by (simp add: true_delay_def algebra_simps)
  finally have "sint ?d = sint (word_of_int (true_delay o' h + (sint off - o')) :: u64)" by (rule arg_cong)
  also have "\<dots> = true_delay o' h + (sint off - o')"
    using assms(2,3) unfolding sint_sbintrunc' by (intro signed_take_bit_int_eq_self) auto
  finally show ?thesis using assms(1) by (simp add: rcv_delay_def)
qed

text \<open>
  C24. From the clocks to the verdict: let the wall clock be a fixed number of nanoseconds ahead of the
  monotonic clock while the agent starts and the packet is received, and let \<open>w\<close> be the width of
  any of the ten rounds of readings, in each of which the monotonic clock is read between the two readings of the wall
  clock. Then the agent hands an offset to the program for which a TCP packet with a receive time counts as
  late if its true delay exceeds the threshold by more than half of \<open>w\<close>, and does not if the true delay
  is less than the threshold, and more than zero, by that much. The latency reported is off by no more either.
\<close>

theorem latency_error_bound:
  assumes "\<forall>i<10. round_true o' (clock i)" "j < 10" "round_width (clock j) = w"
    and "is_tcp4 h" "rcv_tstamp h \<noteq> 0" "\<bar>true_delay o' h\<bar> < 2 ^ 62" "sint (rcv_threshold c (rcv_where h)) = lim" "0 \<le> lim"
  shows "\<exists>off. estMonoWallOffset clock = Some off \<and>
    (let c' = c\<lparr>mono_wall_offset := off\<rparr>; d = true_delay o' h in
      (2 * lim + w + 1 \<le> 2 * d \<longrightarrow> late c' h) \<and>
      (w + 1 \<le> 2 * d \<longrightarrow> 2 * d + w + 1 < 2 * lim \<longrightarrow> \<not> late c' h) \<and>
      (w + 1 \<le> 2 * d \<longrightarrow> \<bar>2 * (uint (nr_latency (rcv_report c' h)) - d)\<bar> \<le> w + 1))"
proof -
  obtain off where off: "estMonoWallOffset clock = Some off" "\<bar>2 * (sint off - o')\<bar> \<le> w + 1"
    using estimate_bounds [OF assms(1)] assms(2,3) by blast
  let ?c = "c\<lparr>mono_wall_offset := off\<rparr>" and ?d = "true_delay o' h"
  have "w < 2 ^ 62" using assms(1-3) by (cases "(o', clock j)" rule: round_true.cases) auto
  then have "\<bar>sint off - o'\<bar> < 2 ^ 62" using off(2) by auto
  from delay_by_offset [OF assms(5,6) this, of c]
  have s: "sint (rcv_delay ?c h) = ?d + (sint off - o')" .
  have th: "rcv_threshold ?c (rcv_where h) = rcv_threshold c (rcv_where h)" by (cases "rcv_where h") simp_all
  have late: "late ?c h \<longleftrightarrow> sint (rcv_delay ?c h) < 0 \<or> lim \<le> sint (rcv_delay ?c h)"
    using unsigned_le_by_sint [of "rcv_threshold c (rcv_where h)" "rcv_delay ?c h"] assms(4,7,8)
    by (simp add: late_def th)
  have lat: "uint (nr_latency (rcv_report ?c h)) = (if sint (rcv_delay ?c h) < 0 then sint (rcv_delay ?c h) + 2 ^ 64 else sint (rcv_delay ?c h))"
    by (simp add: rcv_report_def Let_def uint_by_sint)
  show ?thesis
    using off(1) off(2) by (intro exI [of _ off]) (auto simp: Let_def late lat s)
qed

definition clock_example :: "nat \<Rightarrow> clock_round" where
  "clock_example i = (Some \<lparr>ts_Sec = 3, ts_Nsec = 1000\<rparr>, Some \<lparr>ts_Sec = 2, ts_Nsec = 500\<rparr>, Some \<lparr>ts_Sec = 3, ts_Nsec = 2000\<rparr>)"

definition late_packet :: rcv_hook where
  "late_packet = Rcv TO_TCPV4_RCV (kernel_env (skb_cells 0 6 5001000000) 0 0 4100000000) 4096"

theorem latency_error_bound_witness:
  "\<exists>off. estMonoWallOffset clock_example = Some off \<and> late (netrecv_defaults\<lparr>mono_wall_offset := off\<rparr>) late_packet"
proof -
  have r: "\<forall>i<10. round_true 1000001000 (clock_example i)" "0 < (10 :: nat)" "round_width (clock_example 0) = 1000"
    by (simp_all add: clock_example_def wall_def TimespecToNsec_def)
  have t: "rcv_tstamp late_packet = 5001000000"
    by (simp add: rcv_tstamp_def late_packet_def read64_def core_read_def core_addr_def cells_read_def
        skb_cells_def dec_enc_at)
  have d: "true_delay 1000001000 late_packet = 99001000" unfolding true_delay_def t by (simp add: late_packet_def)
  have h: "is_tcp4 late_packet" "rcv_tstamp late_packet \<noteq> 0" "\<bar>true_delay 1000001000 late_packet\<bar> < 2 ^ 62"
    "sint (rcv_threshold netrecv_defaults (rcv_where late_packet)) = 10000000" "(0 :: int) \<le> 10000000"
    by (simp_all add: t d) (simp_all add: is_tcp4_def late_packet_def netrecv_defaults_def)
  from latency_error_bound [OF r h] show ?thesis unfolding d Let_def by auto
qed

end
