(* ===== verification/Net_Reader.thy ===== *)
theory Net_Reader
  imports Containers Clock_Offset
begin

text \<open>
  The reader of late packets, \<^verbatim>\<open>core/events/netrecvlat.go\<close>, and the search for known issues,
  \<^verbatim>\<open>internal/conf/config.go\<close>. Together with the programs in \<open>Netrecvlat\<close> and the containers in
  \<open>Containers\<close> this gives the documents that are stored for a sequence of received packets.
\<close>

section \<open>KnownIssueSearch\<close>

text \<open>\<open>re\<close> matches a regular expression; \<open>None\<close> is a panic, for one that does not compile.\<close>

definition match_part :: "(string \<Rightarrow> string \<Rightarrow> bool option) \<Rightarrow> string list \<Rightarrow> nat \<Rightarrow> string \<Rightarrow> bool option" where
  "match_part re p i src = (if src \<noteq> [] \<and> i < length p \<and> p ! i \<noteq> [] then re (p ! i) src else Some False)"

fun KnownIssueSearch :: "(string \<Rightarrow> string \<Rightarrow> bool option) \<Rightarrow> string list list \<Rightarrow> string \<Rightarrow> string \<Rightarrow> string \<Rightarrow> (string \<times> u64) option" where
  "KnownIssueSearch re [] src m1 m2 = Some ([], 0)"
| "KnownIssueSearch re (p # ps) src m1 m2 =
     (if length p < 2 then Some ([], 0)
      else case re (p ! 1) src of
        None \<Rightarrow> None
      | Some False \<Rightarrow> KnownIssueSearch re ps src m1 m2
      | Some True \<Rightarrow>
          case match_part re p 2 m1 of
            None \<Rightarrow> None
          | Some True \<Rightarrow> Some (p ! 0, 1)
          | Some False \<Rightarrow>
              case match_part re p 3 m2 of
                None \<Rightarrow> None
              | Some True \<Rightarrow> Some (p ! 0, 1)
              | Some False \<Rightarrow> Some (p ! 0, 0))"

section \<open>core/events/netrecvlat.go\<close>

record NetTracingData =
  nd_Comm :: string
  nd_Pid :: u64
  nd_Where :: string
  nd_Latency :: u64
  nd_State :: string
  nd_Saddr :: string
  nd_Daddr :: string
  nd_Sport :: u16
  nd_Dport :: u16
  nd_Seq :: u32
  nd_AckSeq :: u32
  nd_PktLen :: u64

record netRcvPerfEvent =
  np_Comm :: "byte list"
  np_Latency :: u64
  np_TgidPid :: u64
  np_PktLen :: u64
  np_Sport :: u16
  np_Dport :: u16
  np_Saddr :: u32
  np_Daddr :: u32
  np_Seq :: u32
  np_AckSeq :: u32
  np_State :: u8
  np_Where :: u8

definition read_netRcvPerfEvent :: "byte list \<Rightarrow> netRcvPerfEvent option" where
  "read_netRcvPerfEvent bs =
     (case binary_read go_netRcvPerfEvent bs of
        None \<Rightarrow> None
      | Some fs \<Rightarrow>
          let f = (\<lambda>i. snd (fs ! i)) in
          Some \<lparr>np_Comm = f 0, np_Latency = dec (f 1), np_TgidPid = dec (f 2), np_PktLen = dec (f 3),
            np_Sport = dec (f 4), np_Dport = dec (f 5), np_Saddr = dec (f 6), np_Daddr = dec (f 7), np_Seq = dec (f 8),
            np_AckSeq = dec (f 9), np_State = dec (f 10), np_Where = dec (f 11)\<rparr>)"

definition tcpStateMap :: "string list" where
  "tcpStateMap = [''<nil>'', ''ESTABLISHED'', ''SYN_SENT'', ''SYN_RECV'', ''FIN_WAIT1'', ''FIN_WAIT2'', ''TIME_WAIT'',
     ''CLOSE'', ''CLOSE_WAIT'', ''LAST_ACK'', ''LISTEN'', ''CLOSING'', ''NEW_SYN_RECV'']"

definition userCopyCase :: u8 where "userCopyCase = 2"

definition toWhere :: "string list" where
  "toWhere = [''TO_NETIF_RCV'', ''TO_TCPV4_RCV'', ''TO_USER_COPY'']"

text \<open>The configuration, and the network namespace of the host.\<close>

record net_conf =
  nc_IgnoreHost :: bool
  nc_IgnoreContainerLevel :: "int list"
  nc_PatternList :: "string list list"
  nc_re :: "string \<Rightarrow> string \<Rightarrow> bool option"
  nc_hostNetNsInode :: u64

text \<open>What the round of one event sees: the namespace of the process, and the table of containers.\<close>

datatype netns = Netns u64 | Netns_missing | Netns_error

type_synonym net_call = "netns \<times> node_env \<times> pod_mgr"

datatype ignore_result = Ignore_panic | Ignore_error | Ignore_ok string bool

definition net_ignore :: "net_conf \<Rightarrow> net_call \<Rightarrow> ignore_result" where
  "net_ignore C = (\<lambda>(ns, N, st).
     case ns of
       Netns_missing \<Rightarrow> Ignore_ok [] True
     | Netns_error \<Rightarrow> Ignore_error
     | Netns dstInode \<Rightarrow>
         if nc_IgnoreHost C \<and> dstInode = nc_hostNetNsInode C then Ignore_ok [] True
         else case snd (GetContainerByNetNamespaceInode dstInode N st) of
           Pod_panic \<Rightarrow> Ignore_panic
         | Pod_error _ \<Rightarrow> Ignore_ok [] False
         | Pod_ok None \<Rightarrow> Ignore_ok [] False
         | Pod_ok (Some container) \<Rightarrow>
             Ignore_ok (ct_ID container) (list_ex (\<lambda>level. ct_Qos container = level) (nc_IgnoreContainerLevel C)))"

definition net_title :: "NetTracingData \<Rightarrow> string" where
  "net_title d =
     ''comm='' @ nd_Comm d @ '':'' @ decimal (unat (nd_Pid d)) @ '' to='' @ nd_Where d @ '' lat(ms)='' @ decimal (unat (nd_Latency d)) @
     '' state='' @ nd_State d @ '' saddr='' @ nd_Saddr d @ '' sport='' @ decimal (unat (nd_Sport d)) @ '' daddr='' @ nd_Daddr d @
     '' dport='' @ decimal (unat (nd_Dport d)) @ '' seq='' @ decimal (unat (nd_Seq d)) @ '' ackSeq='' @ decimal (unat (nd_AckSeq d)) @
     '' pktLen='' @ decimal (unat (nd_PktLen d))"

definition net_data :: "string \<Rightarrow> u64 \<Rightarrow> netRcvPerfEvent \<Rightarrow> NetTracingData" where
  "net_data comm pid pd =
     \<lparr>nd_Comm = comm, nd_Pid = pid, nd_Where = toWhere ! unat (np_Where pd), nd_Latency = np_Latency pd div 1000 div 1000,
      nd_State = tcpStateMap ! unat (np_State pd), nd_Saddr = IP_String (InetNtop (np_Saddr pd)),
      nd_Daddr = IP_String (InetNtop (np_Daddr pd)), nd_Sport = InetNtohs (np_Sport pd), nd_Dport = InetNtohs (np_Dport pd),
      nd_Seq = InetNtohl (np_Seq pd), nd_AckSeq = InetNtohl (np_AckSeq pd), nd_PktLen = np_PktLen pd\<rparr>"

text \<open>One round; the state is the list of the stored documents, each with the identifier of its container.\<close>

definition net_event :: "net_conf \<Rightarrow> netRcvPerfEvent \<times> net_call \<Rightarrow> (string \<times> NetTracingData) list \<Rightarrow>
    reader_end \<times> (string \<times> NetTracingData) list + (string \<times> NetTracingData) list" where
  "net_event C = (\<lambda>(pd, call) saved.
     let comm = (if np_TgidPid pd \<noteq> 0 then bytes_string (np_Comm pd) else ''<nil>'');
         pid = (if np_TgidPid pd \<noteq> 0 then drop_bit 32 (np_TgidPid pd) else 0) in
     case (if np_TgidPid pd \<noteq> 0 \<and> np_Where pd = userCopyCase then net_ignore C call else Ignore_ok [] False) of
       Ignore_panic \<Rightarrow> Inl (Panicked, saved)
     | Ignore_error \<Rightarrow> Inl (Handler_failed, saved)
     | Ignore_ok containerID skip \<Rightarrow>
         if skip then Inr saved
         else if length toWhere \<le> unat (np_Where pd) \<or> length tcpStateMap \<le> unat (np_State pd) then Inl (Panicked, saved)
         else
           let tracerData = net_data comm pid pd in
           if nd_State tracerData \<noteq> ''ESTABLISHED'' \<and> nd_State tracerData \<noteq> ''<nil>'' then Inr saved
           else case KnownIssueSearch (nc_re C) (nc_PatternList C) (net_title tracerData) [] [] of
             None \<Rightarrow> Inl (Panicked, saved)
           | Some (caseName, _) \<Rightarrow>
               if caseName = ''netrecvlat'' then Inr saved else Inr (saved @ [(containerID, tracerData)]))"

definition netRecvLatTracing_Start :: "net_conf \<Rightarrow> (byte list \<times> net_call) list \<Rightarrow> reader_end \<times> (string \<times> NetTracingData) list" where
  "netRecvLatTracing_Start C records =
     read_loop (\<lambda>(bs, call). map_option (\<lambda>pd. (pd, call)) (read_netRcvPerfEvent bs)) (net_event C) records []"

text \<open>The thresholds of the configuration, in milliseconds; a threshold of zero is an error.\<close>

definition netrecv_args :: "u64 \<Rightarrow> u64 \<Rightarrow> u64 \<Rightarrow> (nat \<Rightarrow> clock_round) \<Rightarrow> netrecv_config option" where
  "netrecv_args toNetIf toTCPV4 toUserCopy clock =
     (if toNetIf = 0 \<or> toTCPV4 = 0 \<or> toUserCopy = 0 then None
      else map_option (\<lambda>off. \<lparr>mono_wall_offset = off, to_netif = toNetIf * 1000 * 1000, to_tcpv4 = toTCPV4 * 1000 * 1000,
        to_user_copy = toUserCopy * 1000 * 1000\<rparr>) (estMonoWallOffset clock))"

section \<open>From the packets to the documents\<close>

text \<open>An event as the bytes of the C structure.\<close>

definition net_bytes :: "netrecv_event \<Rightarrow> byte list" where
  "net_bytes v = nr_comm v @ enc 8 (nr_latency v) @ enc 8 (nr_tgid_pid v) @ enc 8 (nr_pkt_len v) @ enc 2 (nr_sport v) @
     enc 2 (nr_dport v) @ enc 4 (nr_saddr v) @ enc 4 (nr_daddr v) @ enc 4 (nr_seq v) @ enc 4 (nr_ack_seq v) @
     enc 1 (nr_state v) @ enc 1 (nr_where v) @ replicate 2 0"

definition net_perf :: "netrecv_event \<Rightarrow> netRcvPerfEvent" where
  "net_perf v = \<lparr>np_Comm = nr_comm v, np_Latency = nr_latency v, np_TgidPid = nr_tgid_pid v, np_PktLen = nr_pkt_len v,
     np_Sport = nr_sport v, np_Dport = nr_dport v, np_Saddr = nr_saddr v, np_Daddr = nr_daddr v, np_Seq = nr_seq v,
     np_AckSeq = nr_ack_seq v, np_State = nr_state v, np_Where = nr_where v\<rparr>"

lemma read_net_bytes: "length (nr_comm v) = 16 \<Longrightarrow> read_netRcvPerfEvent (net_bytes v) = Some (net_perf v)"
  by (simp add: read_netRcvPerfEvent_def net_bytes_def net_perf_def go_netRcvPerfEvent_def Let_def)

text \<open>The state that is reported, and whether a process took the packet.\<close>

definition rcv_state :: "rcv_hook \<Rightarrow> u8" where
  "rcv_state h = (if rcv_where h = TO_NETIF_RCV then 0 else get_state (rcv_env h) (rcv_skb h))"

definition to_process :: "rcv_hook \<Rightarrow> bool" where
  "to_process h \<longleftrightarrow> rcv_where h = TO_USER_COPY \<and> current_pid_tgid (rcv_env h) \<noteq> 0"

fun where_name :: "skb_rcv_where \<Rightarrow> string" where
  "where_name TO_NETIF_RCV = ''TO_NETIF_RCV''"
| "where_name TO_TCPV4_RCV = ''TO_TCPV4_RCV''"
| "where_name TO_USER_COPY = ''TO_USER_COPY''"

definition rcv_document :: "netrecv_config \<Rightarrow> rcv_hook \<Rightarrow> NetTracingData" where
  "rcv_document c h =
     (let e = rcv_env h; skb = rcv_skb h; ip = read_iphdr e skb; tcp = read_tcphdr e skb
      in \<lparr>nd_Comm = (if to_process h then bytes_string (current_comm e) else ''<nil>''),
          nd_Pid = (if to_process h then drop_bit 32 (current_pid_tgid e) else 0), nd_Where = where_name (rcv_where h),
          nd_Latency = rcv_delay c h div 1000 div 1000, nd_State = tcpStateMap ! unat (rcv_state h),
          nd_Saddr = IP_String (take 4 (drop 12 ip)), nd_Daddr = IP_String (take 4 (drop 16 ip)),
          nd_Sport = dec (rev (take 2 tcp)), nd_Dport = dec (rev (take 2 (drop 2 tcp))),
          nd_Seq = dec (rev (take 4 (drop 4 tcp))), nd_AckSeq = dec (rev (take 4 (drop 8 tcp))),
          nd_PktLen = ucast (read32 e skb ''sk_buff'' [''len''])\<rparr>)"

text \<open>The container of the process that takes the packet, and whether its packets are left out.\<close>

definition net_owner :: "net_call \<Rightarrow> Container option" where
  "net_owner = (\<lambda>(ns, N, st). case ns of
     Netns inode \<Rightarrow> (case snd (GetContainerByNetNamespaceInode inode N st) of Pod_ok c \<Rightarrow> c | _ \<Rightarrow> None)
   | _ \<Rightarrow> None)"

definition net_left_out :: "net_conf \<Rightarrow> net_call \<Rightarrow> bool" where
  "net_left_out C call \<longleftrightarrow> fst call = Netns_missing \<or> nc_IgnoreHost C \<and> fst call = Netns (nc_hostNetNsInode C) \<or>
     (\<exists>container. net_owner call = Some container \<and> ct_Qos container \<in> set (nc_IgnoreContainerLevel C))"

definition known_issue :: "net_conf \<Rightarrow> NetTracingData \<Rightarrow> string option" where
  "known_issue C d = map_option fst (KnownIssueSearch (nc_re C) (nc_PatternList C) (net_title d) [] [])"

fun rcv_read :: "net_conf \<Rightarrow> netrecv_config \<Rightarrow> rcv_hook \<times> net_call \<Rightarrow> bool" where
  "rcv_read C c (h, call) \<longleftrightarrow> length (read_iphdr (rcv_env h) (rcv_skb h)) = 20 \<and> length (read_tcphdr (rcv_env h) (rcv_skb h)) = 20 \<and>
     unat (rcv_state h) \<le> 12 \<and> length (current_comm (rcv_env h)) = 16 \<and> known_issue C (rcv_document c h) \<noteq> None \<and>
     (to_process h \<longrightarrow> fst call \<noteq> Netns_error \<and>
       (\<forall>inode. fst call = Netns inode \<longrightarrow> snd (GetContainerByNetNamespaceInode inode (fst (snd call)) (snd (snd call))) \<noteq> Pod_panic))"

fun rcv_kept :: "net_conf \<Rightarrow> netrecv_config \<Rightarrow> rcv_hook \<times> net_call \<Rightarrow> bool" where
  "rcv_kept C c (h, call) \<longleftrightarrow> rcv_state h \<in> {0, 1} \<and> \<not> (to_process h \<and> net_left_out C call) \<and>
     known_issue C (rcv_document c h) \<noteq> Some ''netrecvlat''"

fun rcv_stored :: "netrecv_config \<Rightarrow> rcv_hook \<times> net_call \<Rightarrow> string \<times> NetTracingData" where
  "rcv_stored c (h, call) =
     ((case net_owner call of Some container \<Rightarrow> if to_process h then ct_ID container else [] | None \<Rightarrow> []), rcv_document c h)"

lemma net_ignore_eq:
  assumes "fst call \<noteq> Netns_error"
    and "\<forall>inode. fst call = Netns inode \<longrightarrow> snd (GetContainerByNetNamespaceInode inode (fst (snd call)) (snd (snd call))) \<noteq> Pod_panic"
  shows "\<exists>i. net_ignore C call = Ignore_ok i (net_left_out C call) \<and>
    (\<not> net_left_out C call \<longrightarrow> i = (case net_owner call of Some container \<Rightarrow> ct_ID container | None \<Rightarrow> []))"
proof -
  obtain ns N st where call: "call = (ns, N, st)" by (cases call)
  show ?thesis
  proof (cases ns)
    case (Netns inode)
    then show ?thesis using assms
      by (cases "snd (GetContainerByNetNamespaceInode inode N st)")
        (auto simp: call net_ignore_def net_left_out_def net_owner_def list_ex_iff split: option.split)
  qed (use assms in \<open>simp_all add: call net_ignore_def net_left_out_def\<close>)
qed

lemma state_open: "unat s \<le> 12 \<Longrightarrow>
    tcpStateMap ! unat s = ''ESTABLISHED'' \<or> tcpStateMap ! unat s = ''<nil>'' \<longleftrightarrow> s \<in> {0, 1 :: u8}"
proof -
  assume s: "unat s \<le> 12"
  have "distinct tcpStateMap" "tcpStateMap ! 0 = ''<nil>''" "tcpStateMap ! 1 = ''ESTABLISHED''" "length tcpStateMap = 13"
    by (simp_all add: tcpStateMap_def)
  then have "tcpStateMap ! unat s = ''ESTABLISHED'' \<or> tcpStateMap ! unat s = ''<nil>'' \<longleftrightarrow> unat s = 1 \<or> unat s = 0"
    using s nth_eq_iff_index_eq [of tcpStateMap "unat s" 1] nth_eq_iff_index_eq [of tcpStateMap "unat s" 0] by simp
  then show ?thesis by (auto simp: word_unat_eq_iff)
qed

lemma report_perf:
  defines "np c h \<equiv> net_perf (rcv_report c h)"
  shows "np_TgidPid (np c h) \<noteq> 0 \<longleftrightarrow> to_process h" "to_process h \<Longrightarrow> np_TgidPid (np c h) = current_pid_tgid (rcv_env h)"
    "to_process h \<Longrightarrow> np_Comm (np c h) = current_comm (rcv_env h)" "np_State (np c h) = rcv_state h"
    "to_process h \<Longrightarrow> np_Where (np c h) = userCopyCase" "unat (np_Where (np c h)) < length toWhere"
    "toWhere ! unat (np_Where (np c h)) = where_name (rcv_where h)"
  by (cases "rcv_where h"; simp add: np_def net_perf_def rcv_report_def Let_def to_process_def rcv_state_def userCopyCase_def toWhere_def)+

lemma report_data:
  assumes "length (read_iphdr (rcv_env h) (rcv_skb h)) = 20" "length (read_tcphdr (rcv_env h) (rcv_skb h)) = 20"
  shows "net_data (if to_process h then bytes_string (current_comm (rcv_env h)) else ''<nil>'')
    (if to_process h then drop_bit 32 (current_pid_tgid (rcv_env h)) else 0) (net_perf (rcv_report c h)) = rcv_document c h"
proof -
  have "np_Latency (net_perf (rcv_report c h)) = rcv_delay c h" "np_PktLen (net_perf (rcv_report c h)) = ucast (read32 (rcv_env h) (rcv_skb h) ''sk_buff'' [''len''])"
    "InetNtop (np_Saddr (net_perf (rcv_report c h))) = take 4 (drop 12 (read_iphdr (rcv_env h) (rcv_skb h)))"
    "InetNtop (np_Daddr (net_perf (rcv_report c h))) = take 4 (drop 16 (read_iphdr (rcv_env h) (rcv_skb h)))"
    "InetNtohs (np_Sport (net_perf (rcv_report c h))) = dec (rev (take 2 (read_tcphdr (rcv_env h) (rcv_skb h))))"
    "InetNtohs (np_Dport (net_perf (rcv_report c h))) = dec (rev (take 2 (drop 2 (read_tcphdr (rcv_env h) (rcv_skb h)))))"
    "InetNtohl (np_Seq (net_perf (rcv_report c h))) = dec (rev (take 4 (drop 4 (read_tcphdr (rcv_env h) (rcv_skb h)))))"
    "InetNtohl (np_AckSeq (net_perf (rcv_report c h))) = dec (rev (take 4 (drop 8 (read_tcphdr (rcv_env h) (rcv_skb h)))))"
    using assms by (simp_all add: net_perf_def rcv_report_def Let_def ip_tcp_bytes InetNtop_dec InetNtohs_dec InetNtohl_dec)
  then show ?thesis
    by (simp add: net_data_def rcv_document_def Let_def report_perf)
qed

lemma net_event_eq:
  assumes "rcv_read C c (h, call)"
  shows "net_event C (net_perf (rcv_report c h), call) saved =
    Inr (if rcv_kept C c (h, call) then saved @ [rcv_stored c (h, call)] else saved)"
proof -
  let ?pd = "net_perf (rcv_report c h)" and ?d = "rcv_document c h"
  let ?skip = "to_process h \<and> net_left_out C call"
  have len: "length (read_iphdr (rcv_env h) (rcv_skb h)) = 20" "length (read_tcphdr (rcv_env h) (rcv_skb h)) = 20"
    "unat (rcv_state h) \<le> 12" using assms by simp_all
  have "\<exists>i. (if to_process h then net_ignore C call else Ignore_ok [] False) = Ignore_ok i ?skip \<and>
      (\<not> ?skip \<longrightarrow> i = fst (rcv_stored c (h, call)))"
    using assms net_ignore_eq [of call C] by (cases "to_process h") (auto split: option.splits)
  then obtain i where i: "(if to_process h then net_ignore C call else Ignore_ok [] False) = Ignore_ok i ?skip"
    "\<not> ?skip \<Longrightarrow> i = fst (rcv_stored c (h, call))" by blast
  obtain n k where k: "KnownIssueSearch (nc_re C) (nc_PatternList C) (net_title ?d) [] [] = Some (n, k)"
    using assms by (auto simp: known_issue_def)
  then have n: "known_issue C ?d = Some n" by (simp add: known_issue_def)
  have tgt: "(np_TgidPid ?pd \<noteq> 0 \<and> np_Where ?pd = userCopyCase) \<longleftrightarrow> to_process h" using report_perf(1,5) by blast
  have comm: "(if np_TgidPid ?pd \<noteq> 0 then bytes_string (np_Comm ?pd) else ''<nil>'') =
      (if to_process h then bytes_string (current_comm (rcv_env h)) else ''<nil>'')"
    "(if np_TgidPid ?pd \<noteq> 0 then drop_bit 32 (np_TgidPid ?pd) else 0) =
      (if to_process h then drop_bit 32 (current_pid_tgid (rcv_env h)) else 0)"
    by (simp_all add: report_perf)
  have bounds: "\<not> length toWhere \<le> unat (np_Where ?pd)" "\<not> length tcpStateMap \<le> unat (np_State ?pd)"
    using report_perf(6) [of c h] len(3) by (simp_all add: report_perf(4) tcpStateMap_def not_le)
  have st: "nd_State ?d \<noteq> ''ESTABLISHED'' \<and> nd_State ?d \<noteq> ''<nil>'' \<longleftrightarrow> rcv_state h \<notin> {0, 1}"
    using state_open [OF len(3)] unfolding rcv_document_def Let_def by auto
  have stored: "rcv_stored c (h, call) = (fst (rcv_stored c (h, call)), ?d)" by simp
  show ?thesis
    unfolding net_event_def Let_def prod.case tgt comm report_data [OF len(1,2)] i(1)
    using bounds i(2) stored by (simp add: st k n del: rcv_stored.simps)
qed

text \<open>
  C20. From the received packets to the stored documents: for every sequence of packets at the three places,
  each with what the agent finds out about the process that takes it, the reader stores, in order, one document
  for each late TCP packet that the limiter lets through, whose socket is established or has no state yet,
  which is not a known issue, and whose process is not gone, in the host's namespace (when that is ignored) or in a
  container of an ignored level. The document has the latency in milliseconds, the addresses as dotted decimals,
  the ports and sequence numbers as in the headers, and the process and its container.
\<close>

theorem netrecvlat_documents:
  fixes xs :: "(rcv_hook \<times> net_call) list"
  assumes "\<forall>x\<in>set xs. late c (fst x) \<longrightarrow> rcv_read C c x"
  defines "through \<equiv> let_through (rcv_clock \<circ> fst) netrecv_rate (filter (late c \<circ> fst) xs)"
  defines "events \<equiv> net_recv_lat_event_map (foldl (rcv_step c)
      \<lparr>netrecv_limiter = netrecv_rate, net_recv_lat_event_map = []\<rparr> (map fst xs))"
  shows "netRecvLatTracing_Start C (zip (map net_bytes events) (map snd through)) =
    (Context_done, map (rcv_stored c) (filter (rcv_kept C c) through))"
proof -
  have "events = map (rcv_report c) (let_through rcv_clock netrecv_rate (map fst (filter (late c \<circ> fst) xs)))"
    by (simp add: events_def rcv_run filter_map)
  also have "\<dots> = map (\<lambda>x. rcv_report c (fst x)) through"
    by (simp add: through_def flip: let_through_map)
  finally have zip: "zip (map net_bytes events) (map snd through) = map (\<lambda>x. (net_bytes (rcv_report c (fst x)), snd x)) through"
    by (simp add: zip_map_map zip_same_conv_map)
  have "set through \<subseteq> set (filter (late c \<circ> fst) xs)" unfolding through_def by (rule set_let_through)
  then have ok: "x \<in> set through \<Longrightarrow> rcv_read C c x" for x using assms(1) by auto
  show ?thesis unfolding netRecvLatTracing_Start_def zip
  proof (rule read_loop_filter [where ev = "\<lambda>x. (net_perf (rcv_report c (fst x)), snd x)"])
    fix x docs assume x: "x \<in> set through"
    obtain h call where hc: "x = (h, call)" by (cases x)
    have r: "rcv_read C c (h, call)" using ok [OF x] by (simp only: hc)
    then have "length (nr_comm (rcv_report c h)) = 16" by (simp add: rcv_report_def Let_def)
    then show "(\<lambda>(bs, call). map_option (\<lambda>pd. (pd, call)) (read_netRcvPerfEvent bs)) (net_bytes (rcv_report c (fst x)), snd x) =
        Some (net_perf (rcv_report c (fst x)), snd x)" by (simp add: hc read_net_bytes)
    show "net_event C (net_perf (rcv_report c (fst x)), snd x) docs = Inr (if rcv_kept C c x then docs @ [rcv_stored c x] else docs)"
      using net_event_eq [OF r, of docs] by (simp only: hc fst_conv snd_conv)
  qed
qed

definition net_conf_example :: net_conf where
  "net_conf_example = \<lparr>nc_IgnoreHost = True, nc_IgnoreContainerLevel = [3], nc_PatternList = [[''known'', ''x'']],
     nc_re = (\<lambda>_ _. Some False), nc_hostNetNsInode = 1\<rparr>"

definition net_call_example :: net_call where
  "net_call_example = (Netns 6, node_example, \<lparr>pm_containers = [(''c0'', old_example)], pm_env = None, pm_lastUpdatedAt = 0\<rparr>)"

definition user_packet :: rcv_hook where
  "user_packet = Rcv TO_USER_COPY (kernel_env (skb_cells 0 6 5001000000) 0 30064771079 5201000000) 4096"

lemma user_packet_facts:
  "read_iphdr (rcv_env user_packet) (rcv_skb user_packet) = ip_bytes 6"
  "read_tcphdr (rcv_env user_packet) (rcv_skb user_packet) = tcp_bytes"
  "rcv_tstamp user_packet = 5001000000" "rcv_state user_packet = 0"
  "read16 (rcv_env user_packet) (rcv_skb user_packet) ''sk_buff'' [''protocol''] = 8"
  "current_comm (rcv_env user_packet) = replicate 16 0" "to_process user_packet"
proof -
  have n: "sizeof k_iphdr = 20" "sizeof k_tcphdr = 20" by (simp_all add: layout_simps)
  note reads = user_packet_def read_iphdr_def read_tcphdr_def n skb_network_header_def skb_transport_header_def
    read64_def read16_def read8_def core_read_def core_addr_def cells_read_def skb_cells_def ip_bytes_def tcp_bytes_def
    dec_enc_at rcv_tstamp_def rcv_state_def get_state_def to_process_def
  show "read_iphdr (rcv_env user_packet) (rcv_skb user_packet) = ip_bytes 6"
    "read_tcphdr (rcv_env user_packet) (rcv_skb user_packet) = tcp_bytes"
    "rcv_tstamp user_packet = 5001000000" "rcv_state user_packet = 0"
    "read16 (rcv_env user_packet) (rcv_skb user_packet) ''sk_buff'' [''protocol''] = 8"
    "current_comm (rcv_env user_packet) = replicate 16 0" "to_process user_packet"
    by (simp_all add: reads dec_byte) (simp_all add: kernel_env_def)?
qed

lemma net_owner_example: "net_owner net_call_example = Some old_example"
proof -
  have r: "ne_now node_example = 0" "ne_range node_example = rev" by (simp_all add: node_example_def)
  have c: "ct_Type old_example AND ContainerTypeNormal \<noteq> 0" "\<not> ct_Qos old_example < ContainerQosLevelMin" "ct_ID old_example = ''c0''"
    "ct_NetNamespaceInode old_example = 6"
    by (simp_all add: old_example_def type_defs ContainerQosLevelMin_def)
  show ?thesis
    by (simp add: net_owner_def net_call_example_def GetContainerByNetNamespaceInode_def GetNormalContainers_def
        GetContainersByType_def getContainers_def Let_def r updatedStep_def range_of_def c)
qed

theorem netrecvlat_documents_witness:
  "map (\<lambda>(i, d). (i, nd_Latency d, nd_Saddr d)) (snd (netRecvLatTracing_Start net_conf_example
     (zip (map net_bytes (net_recv_lat_event_map (foldl (rcv_step netrecv_defaults)
        \<lparr>netrecv_limiter = netrecv_rate, net_recv_lat_event_map = []\<rparr> (map fst [(user_packet, net_call_example)]))))
       (map snd [(user_packet, net_call_example)])))) =
   [(''c0'', 200, ''10.0.0.1'')]"
proof -
  let ?x = "(user_packet, net_call_example)" and ?c = netrecv_defaults and ?C = net_conf_example
  have w: "rcv_where user_packet = TO_USER_COPY" "ktime_get_ns (rcv_env user_packet) i = 5201000000" for i
    by (simp_all add: user_packet_def)
  have d: "rcv_delay ?c user_packet = 200000000"
    unfolding rcv_delay_def user_packet_facts(3) w(2) by (simp add: netrecv_defaults_def)
  have late: "late ?c user_packet"
    by (simp add: late_def is_tcp4_def w user_packet_facts d ip_tcp_bytes) (simp add: netrecv_defaults_def ip_bytes_def dec_byte)
  have k: "known_issue ?C (rcv_document ?c user_packet) = Some []"
    by (simp add: known_issue_def net_conf_example_def)
  have pod: "snd (GetContainerByNetNamespaceInode 6 (fst (snd net_call_example)) (snd (snd net_call_example))) \<noteq> Pod_panic"
    using net_owner_example by (auto simp: net_owner_def net_call_example_def)
  have read: "rcv_read ?C ?c ?x"
    using pod by (simp add: user_packet_facts k) (simp add: ip_bytes_def tcp_bytes_def net_call_example_def)
  have kept: "rcv_kept ?C ?c ?x"
    by (simp add: user_packet_facts k net_left_out_def net_owner_example)
      (simp add: net_call_example_def net_conf_example_def old_example_def)
  have thr: "let_through (rcv_clock \<circ> fst) netrecv_rate (filter (late ?c \<circ> fst) [?x]) = [?x]"
    using late by (simp add: rcv_clock_def w netrecv_rate_def BPF_RATELIMIT_def ratelimited_simp ratelimit_window_def ratelimit_take_def)
  have stored: "rcv_stored ?c ?x = (''c0'', rcv_document ?c user_packet)"
    using user_packet_facts(7) by (simp add: net_owner_example) (simp add: old_example_def)
  have doc: "nd_Latency (rcv_document ?c user_packet) = 200" "nd_Saddr (rcv_document ?c user_packet) = ''10.0.0.1''"
    by (simp_all add: rcv_document_def Let_def user_packet_facts d ip_bytes_def)
      (simp_all add: IP_String_def decimal.simps char_of_def bit_0)
  have "\<forall>x\<in>set [?x]. late ?c (fst x) \<longrightarrow> rcv_read ?C ?c x" using read by simp
  from netrecvlat_documents [OF this] show ?thesis
    unfolding thr using kept stored doc by simp
qed

end
