(* ===== verification/Event_Readers.thy ===== *)
theory Event_Readers
  imports Containers Softirq Memory Host_Events
begin

text \<open>
  The remaining readers of \<^verbatim>\<open>core/events\<close>: stalled ticks (\<^verbatim>\<open>softirq_tracing.go\<close>), long reclaims
  (\<^verbatim>\<open>memory_reclaim_events.go\<close>), soft lockups (\<^verbatim>\<open>softlockup.go\<close>), hung tasks (\<^verbatim>\<open>hungtask.go\<close>) and
  disabled links of a bond (\<^verbatim>\<open>lacp.go\<close>).
\<close>

section \<open>softirq\_tracing.go\<close>

record softirqPerfEvent =
  si_Stack :: "u64 list"
  si_StackSize :: s64
  si_Now :: u64
  si_StallTime :: u64
  si_Comm :: "byte list"
  si_Pid :: u32
  si_CPU :: u32

definition read_softirqPerfEvent :: "byte list \<Rightarrow> softirqPerfEvent option" where
  "read_softirqPerfEvent bs =
     (case binary_read go_softirqPerfEvent bs of
        None \<Rightarrow> None
      | Some fs \<Rightarrow>
          let f = (\<lambda>i. snd (fs ! i)) in
          Some \<lparr>si_Stack = read_u64s 127 (f 0), si_StackSize = dec (f 1), si_Now = dec (f 2), si_StallTime = dec (f 3),
            si_Comm = f 4, si_Pid = dec (f 5), si_CPU = dec (f 6)\<rparr>)"

record SoftirqTracingData =
  sd_OffTime :: u64
  sd_Threshold :: u64
  sd_Comm :: string
  sd_Pid :: u32
  sd_CPU :: u32
  sd_Now :: u64
  sd_Stack :: string

definition softirqDumpTrace :: "ksymbol_cache \<Rightarrow> u64 list \<Rightarrow> string option" where
  "softirqDumpTrace cache addrs = map_option (strings_Join [CHR 0x0A]) (DumpKernelBackTrace cache addrs 127)"

definition raw_string :: "byte list \<Rightarrow> string" where
  "raw_string bs = map (char_of \<circ> unat) bs"

definition softirq_event :: "ksymbol_cache \<Rightarrow> u64 \<Rightarrow> softirqPerfEvent \<Rightarrow> SoftirqTracingData list \<Rightarrow>
    reader_end \<times> SoftirqTracingData list + SoftirqTracingData list" where
  "softirq_event cache softirqThresh data saved =
     (let comm = raw_string (si_Comm data) in
      if HasPrefix comm ''ksoftirqd'' then Inr saved
      else if HasPrefix comm ''swapper'' then Inr saved
      else case (if sint (si_StackSize data) > 0 then softirqDumpTrace cache (si_Stack data) else Some []) of
        None \<Rightarrow> Inl (Panicked, saved)
      | Some stack \<Rightarrow>
          Inr (saved @ [\<lparr>sd_OffTime = si_StallTime data, sd_Threshold = softirqThresh, sd_Comm = bytes_string (si_Comm data),
            sd_Pid = si_Pid data, sd_CPU = si_CPU data, sd_Now = si_Now data, sd_Stack = ''stack:'' @ [CHR 0x0A] @ stack\<rparr>]))"

definition softirqTracing_Start :: "ksymbol_cache \<Rightarrow> u64 \<Rightarrow> byte list list \<Rightarrow> reader_end \<times> SoftirqTracingData list" where
  "softirqTracing_Start cache softirqThresh records = read_loop read_softirqPerfEvent (softirq_event cache softirqThresh) records []"

section \<open>memory\_reclaim\_events.go\<close>

record memoryReclaimPerfEvent =
  mr_Comm :: "byte list"
  mr_Deltatime :: u64
  mr_CSS :: u64
  mr_Pid :: u64

definition read_memoryReclaimPerfEvent :: "byte list \<Rightarrow> memoryReclaimPerfEvent option" where
  "read_memoryReclaimPerfEvent bs =
     (case binary_read go_memoryReclaimPerfEvent bs of
        None \<Rightarrow> None
      | Some fs \<Rightarrow>
          let f = (\<lambda>i. snd (fs ! i)) in
          Some \<lparr>mr_Comm = f 0, mr_Deltatime = dec (f 1), mr_CSS = dec (f 2), mr_Pid = dec (f 3)\<rparr>)"

record MemoryReclaimTracingData =
  md_Pid :: u64
  md_Comm :: string
  md_Deltatime :: u64

type_synonym reclaim_docs = "(string \<times> MemoryReclaimTracingData) list"

definition trim_zero :: "byte list \<Rightarrow> string" where
  "trim_zero bs = strings_TrimRight (CHR 0x00) (dropWhile (\<lambda>c. c = CHR 0x00) (raw_string bs))"

definition reclaim_event :: "memoryReclaimPerfEvent \<times> node_env \<times> pod_mgr \<Rightarrow> reclaim_docs \<Rightarrow> reader_end \<times> reclaim_docs + reclaim_docs" where
  "reclaim_event = (\<lambda>(data, N, st) saved.
     case snd (GetContainerByCSS_in (mr_CSS data) ''cpu'' N st) of
       Pod_panic \<Rightarrow> Inl (Panicked, saved)
     | Pod_error _ \<Rightarrow> Inl (Handler_failed, saved)
     | Pod_ok None \<Rightarrow> Inr saved
     | Pod_ok (Some container) \<Rightarrow>
         Inr (saved @ [(ct_ID container, \<lparr>md_Pid = mr_Pid data, md_Comm = trim_zero (mr_Comm data), md_Deltatime = mr_Deltatime data\<rparr>)]))"

definition memoryReclaimTracing_Start :: "(byte list \<times> node_env \<times> pod_mgr) list \<Rightarrow> reader_end \<times> reclaim_docs" where
  "memoryReclaimTracing_Start records =
     read_loop (\<lambda>(bs, call). map_option (\<lambda>data. (data, call)) (read_memoryReclaimPerfEvent bs)) reclaim_event records []"

section \<open>softlockup.go\<close>

record softLockupPerfEventData =
  sk_CPU :: s32
  sk_Pid :: s32
  sk_Comm :: "byte list"

definition read_softLockupPerfEventData :: "byte list \<Rightarrow> softLockupPerfEventData option" where
  "read_softLockupPerfEventData bs =
     (case binary_read go_softLockupPerfEventData bs of
        None \<Rightarrow> None
      | Some fs \<Rightarrow>
          let f = (\<lambda>i. snd (fs ! i)) in Some \<lparr>sk_CPU = dec (f 0), sk_Pid = dec (f 1), sk_Comm = f 2\<rparr>)"

record SoftLockupTracerData =
  sld_CPU :: s32
  sld_Pid :: s32
  sld_Comm :: string
  sld_CPUsStack :: string

text \<open>The counter, and what is stored. The text comes with the event: backtraces or an error (left).\<close>

definition softlockup_event :: "softLockupPerfEventData \<times> (string + string) \<Rightarrow> u64 \<times> SoftLockupTracerData list \<Rightarrow>
    reader_end \<times> u64 \<times> SoftLockupTracerData list + u64 \<times> SoftLockupTracerData list" where
  "softlockup_event = (\<lambda>(data, bt) (softlockupCounter, saved).
     Inr (softlockupCounter + 1, saved @ [\<lparr>sld_CPU = sk_CPU data, sld_Pid = sk_Pid data, sld_Comm = bytes_string (sk_Comm data),
       sld_CPUsStack = (case bt of Inl err \<Rightarrow> err | Inr bt \<Rightarrow> bt)\<rparr>]))"

definition softLockupTracing_Start :: "(byte list \<times> (string + string)) list \<Rightarrow> u64 \<Rightarrow> reader_end \<times> u64 \<times> SoftLockupTracerData list" where
  "softLockupTracing_Start records softlockupCounter =
     read_loop (\<lambda>(bs, bt). map_option (\<lambda>data. (data, bt)) (read_softLockupPerfEventData bs)) softlockup_event records (softlockupCounter, [])"

section \<open>hungtask.go\<close>

record hungTaskPerfEventData =
  ht_Pid :: s32
  ht_Comm :: "byte list"

definition read_hungTaskPerfEventData :: "byte list \<Rightarrow> hungTaskPerfEventData option" where
  "read_hungTaskPerfEventData bs =
     (case binary_read go_hungTaskPerfEventData bs of
        None \<Rightarrow> None
      | Some fs \<Rightarrow> let f = (\<lambda>i. snd (fs ! i)) in Some \<lparr>ht_Pid = dec (f 0), ht_Comm = f 1\<rparr>)"

record HungTaskTracerData =
  htd_Pid :: s32
  htd_Comm :: string
  htd_CPUsStack :: string
  htd_BlockedProcessesStack :: string

text \<open>
  The back-off is of another package: \<open>Duration\<close> returns a duration and the new state. Times are in
  nanoseconds; a stored document is kept with its time.
\<close>

record 'b hungTaskTracing =
  hungtaskCounter :: u64
  bo :: 'b
  nextAllowedTime :: int
  hung_saved :: "(int \<times> HungTaskTracerData) list"

record hung_call =
  hc_now :: int
  hc_cpus :: "string + string"
  hc_blocked :: "string + string"

definition text_of :: "string + string \<Rightarrow> string" where
  "text_of r = (case r of Inl err \<Rightarrow> err | Inr s \<Rightarrow> s)"

definition hungtask_event :: "('b \<Rightarrow> int \<times> 'b) \<Rightarrow> hungTaskPerfEventData \<times> hung_call \<Rightarrow> 'b hungTaskTracing \<Rightarrow>
    reader_end \<times> 'b hungTaskTracing + 'b hungTaskTracing" where
  "hungtask_event Duration = (\<lambda>(data, call) c.
     let c = c\<lparr>hungtaskCounter := hungtaskCounter c + 1\<rparr> in
     if hc_now call < nextAllowedTime c then Inr c
     else
       let (d, b) = Duration (bo c) in
       Inr (c\<lparr>nextAllowedTime := hc_now call + d, bo := b,
         hung_saved := hung_saved c @ [(hc_now call, \<lparr>htd_Pid = ht_Pid data, htd_Comm = bytes_string (ht_Comm data),
           htd_CPUsStack = text_of (hc_cpus call), htd_BlockedProcessesStack = text_of (hc_blocked call)\<rparr>)]\<rparr>))"

definition hungTaskTracing_Start :: "('b \<Rightarrow> int \<times> 'b) \<Rightarrow> (byte list \<times> hung_call) list \<Rightarrow> 'b hungTaskTracing \<Rightarrow>
    reader_end \<times> 'b hungTaskTracing" where
  "hungTaskTracing_Start Duration records c =
     read_loop (\<lambda>(bs, call). map_option (\<lambda>data. (data, call)) (read_hungTaskPerfEventData bs)) (hungtask_event Duration) records c"

section \<open>lacp.go\<close>

text \<open>The files under \<^verbatim>\<open>/proc/net/bonding\<close> come with the event; \<open>None\<close> is an error.\<close>

definition lacp_event :: "u64 \<times> string option \<Rightarrow> u64 \<times> string list \<Rightarrow> reader_end \<times> u64 \<times> string list + u64 \<times> string list" where
  "lacp_event = (\<lambda>(_, bondInfo) (n, saved).
     case bondInfo of None \<Rightarrow> Inr (n + 1, saved) | Some content \<Rightarrow> Inr (n + 1, saved @ [content]))"

definition lacpTracing_Start :: "(byte list \<times> string option) list \<Rightarrow> u64 \<Rightarrow> reader_end \<times> u64 \<times> string list" where
  "lacpTracing_Start records n =
     read_loop (\<lambda>(bs, info). if length bs < 8 then None else Some (dec (take 8 bs), info)) lacp_event records (n, [])"

section \<open>What they store\<close>

text \<open>Stalled ticks: every event but those of the idle task and of the softirq threads.\<close>

definition report_bytes :: "report_event \<Rightarrow> byte list" where
  "report_bytes v = rep_stack v @ enc 8 (rep_stack_size v) @ enc 8 (rep_now v) @ enc 8 (rep_stall_time v) @ rep_comm v @
     enc 4 (rep_pid v) @ enc 4 (rep_cpu v)"

definition report_sized :: "report_event \<Rightarrow> bool" where
  "report_sized v \<longleftrightarrow> length (rep_stack v) = 1016 \<and> length (rep_comm v) = 16"

definition stall_noise :: "report_event \<Rightarrow> bool" where
  "stall_noise v \<longleftrightarrow> HasPrefix (raw_string (rep_comm v)) ''ksoftirqd'' \<or> HasPrefix (raw_string (rep_comm v)) ''swapper''"

definition stall_document :: "ksymbol_cache \<Rightarrow> u64 \<Rightarrow> report_event \<Rightarrow> SoftirqTracingData" where
  "stall_document cache thr v =
     \<lparr>sd_OffTime = rep_stall_time v, sd_Threshold = thr, sd_Comm = bytes_string (rep_comm v), sd_Pid = rep_pid v,
      sd_CPU = rep_cpu v, sd_Now = rep_now v,
      sd_Stack = ''stack:'' @ [CHR 0x0A] @ (if sint (rep_stack_size v) > 0
        then strings_Join [CHR 0x0A] (the (DumpKernelBackTrace cache (read_u64s 127 (rep_stack v)) 127)) else [])\<rparr>"

lemma stall_documents:
  assumes "kernel_table cache" "\<forall>v\<in>set vs. report_sized v"
  shows "softirqTracing_Start cache thr (map report_bytes vs) =
    (Context_done, map (stall_document cache thr) (filter (\<lambda>v. \<not> stall_noise v) vs))"
  unfolding softirqTracing_Start_def
proof (rule read_loop_filter [where ev = "\<lambda>v. \<lparr>si_Stack = read_u64s 127 (rep_stack v), si_StackSize = rep_stack_size v,
    si_Now = rep_now v, si_StallTime = rep_stall_time v, si_Comm = rep_comm v, si_Pid = rep_pid v, si_CPU = rep_cpu v\<rparr>"])
  fix v docs assume "v \<in> set vs"
  then have "report_sized v" using assms(2) by blast
  then show "read_softirqPerfEvent (report_bytes v) = Some \<lparr>si_Stack = read_u64s 127 (rep_stack v), si_StackSize = rep_stack_size v,
    si_Now = rep_now v, si_StallTime = rep_stall_time v, si_Comm = rep_comm v, si_Pid = rep_pid v, si_CPU = rep_cpu v\<rparr>"
    by (simp add: read_softirqPerfEvent_def report_bytes_def report_sized_def go_softirqPerfEvent_def Let_def)
  obtain fs where "DumpKernelBackTrace cache (read_u64s 127 (rep_stack v)) 127 = Some fs"
    using trace_frames_table [OF assms(1), of "takeWhile (\<lambda>a. a \<noteq> 0) (take 127 (read_u64s 127 (rep_stack v)))"]
    by (auto simp: DumpKernelBackTrace_def)
  then show "softirq_event cache thr \<lparr>si_Stack = read_u64s 127 (rep_stack v), si_StackSize = rep_stack_size v,
    si_Now = rep_now v, si_StallTime = rep_stall_time v, si_Comm = rep_comm v, si_Pid = rep_pid v, si_CPU = rep_cpu v\<rparr> docs =
    Inr (if \<not> stall_noise v then docs @ [stall_document cache thr v] else docs)"
    by (simp add: softirq_event_def Let_def stall_noise_def stall_document_def softirqDumpTrace_def)
qed

text \<open>Long reclaims: every event of a container, with its identifier.\<close>

definition reclaim_bytes :: "reclaim_entry \<Rightarrow> byte list" where
  "reclaim_bytes v = re_comm v @ enc 8 (re_delta_time v) @ enc 8 (re_css v) @ enc 8 (re_pid v)"

fun reclaim_container :: "reclaim_entry \<times> node_env \<times> pod_mgr \<Rightarrow> Container option pod_result" where
  "reclaim_container (v, N, st) = snd (GetContainerByCSS_in (re_css v) ''cpu'' N st)"

lemma reclaim_documents:
  assumes "\<forall>x\<in>set xs. length (re_comm (fst x)) = 16 \<and> (\<exists>c. reclaim_container x = Pod_ok c)"
  shows "memoryReclaimTracing_Start (map (\<lambda>x. (reclaim_bytes (fst x), snd x)) xs) =
    (Context_done, map (\<lambda>x. case reclaim_container x of Pod_ok (Some c) \<Rightarrow> (ct_ID c, \<lparr>md_Pid = re_pid (fst x),
       md_Comm = trim_zero (re_comm (fst x)), md_Deltatime = re_delta_time (fst x)\<rparr>))
     (filter (\<lambda>x. reclaim_container x \<noteq> Pod_ok None) xs))"
  unfolding memoryReclaimTracing_Start_def
proof (rule read_loop_filter [where ev = "\<lambda>x. (\<lparr>mr_Comm = re_comm (fst x), mr_Deltatime = re_delta_time (fst x),
    mr_CSS = re_css (fst x), mr_Pid = re_pid (fst x)\<rparr>, snd x)"])
  fix x docs assume x: "x \<in> set xs"
  obtain v N st where v: "x = (v, N, st)" by (cases x)
  show "(\<lambda>(bs, call). map_option (\<lambda>data. (data, call)) (read_memoryReclaimPerfEvent bs)) (reclaim_bytes (fst x), snd x) =
      Some (\<lparr>mr_Comm = re_comm (fst x), mr_Deltatime = re_delta_time (fst x), mr_CSS = re_css (fst x), mr_Pid = re_pid (fst x)\<rparr>, snd x)"
    using x assms by (simp add: read_memoryReclaimPerfEvent_def reclaim_bytes_def go_memoryReclaimPerfEvent_def Let_def)
  obtain c where c: "reclaim_container x = Pod_ok c" using x assms by blast
  then show "reclaim_event (\<lparr>mr_Comm = re_comm (fst x), mr_Deltatime = re_delta_time (fst x), mr_CSS = re_css (fst x), mr_Pid = re_pid (fst x)\<rparr>, snd x) docs =
      Inr (if reclaim_container x \<noteq> Pod_ok None then docs @ [case reclaim_container x of Pod_ok (Some c) \<Rightarrow> (ct_ID c, \<lparr>md_Pid = re_pid (fst x),
       md_Comm = trim_zero (re_comm (fst x)), md_Deltatime = re_delta_time (fst x)\<rparr>)] else docs)"
    by (cases c) (simp_all add: v reclaim_event_def)
qed

text \<open>Hung tasks: all are counted, and two documents are at least a duration of the back-off apart.\<close>

lemma hungtask_spaced:
  assumes "\<And>b. d \<le> fst (Duration b)" "0 \<le> d" "\<forall>x\<in>set xs. read_hungTaskPerfEventData (fst x) \<noteq> None"
    and "sorted_wrt (\<lambda>s t. s + d \<le> t) (map fst (hung_saved c))" "\<forall>t\<in>fst ` set (hung_saved c). t + d \<le> nextAllowedTime c"
  shows "\<exists>c'. hungTaskTracing_Start Duration xs c = (Context_done, c') \<and>
    hungtaskCounter c' = hungtaskCounter c + of_nat (length xs) \<and> sorted_wrt (\<lambda>s t. s + d \<le> t) (map fst (hung_saved c'))"
  using assms(3-5) unfolding hungTaskTracing_Start_def
proof (induction xs arbitrary: c)
  case Nil
  then show ?case by simp
next
  case (Cons x xs)
  obtain bs call where x: "x = (bs, call)" by (cases x)
  obtain data where data: "read_hungTaskPerfEventData bs = Some data" using Cons.prems by (auto simp: x)
  obtain c1 where c1: "hungtask_event Duration (data, call) c = Inr c1" "hungtaskCounter c1 = hungtaskCounter c + 1"
    "sorted_wrt (\<lambda>s t. s + d \<le> t) (map fst (hung_saved c1))" "\<forall>t\<in>fst ` set (hung_saved c1). t + d \<le> nextAllowedTime c1"
  proof (cases "hc_now call < nextAllowedTime c")
    case True
    with that [of "c\<lparr>hungtaskCounter := hungtaskCounter c + 1\<rparr>"] Cons.prems show ?thesis by (simp add: hungtask_event_def)
  next
    case False
    obtain e b where eb: "Duration (bo c) = (e, b)" by fastforce
    have "d \<le> e" using assms(1) [of "bo c"] by (simp add: eb)
    then have "\<forall>t\<in>fst ` set (hung_saved c). t + d \<le> hc_now call" "\<forall>t\<in>fst ` set (hung_saved c). t + d \<le> hc_now call + e"
      using Cons.prems(3) False assms(2) by fastforce+
    note bounds = this
    have ev: "hungtask_event Duration (data, call) c = Inr (c\<lparr>hungtaskCounter := hungtaskCounter c + 1,
        nextAllowedTime := hc_now call + e, bo := b, hung_saved := hung_saved c @ [(hc_now call,
          \<lparr>htd_Pid = ht_Pid data, htd_Comm = bytes_string (ht_Comm data), htd_CPUsStack = text_of (hc_cpus call),
           htd_BlockedProcessesStack = text_of (hc_blocked call)\<rparr>)]\<rparr>)"
      using False by (simp add: hungtask_event_def Let_def eb)
    show ?thesis using Cons.prems(2) \<open>d \<le> e\<close> bounds by (intro that [OF ev]) (auto simp: sorted_wrt_append)
  qed
  from Cons.IH [OF _ c1(3,4)] Cons.prems(1) show ?case
    by (auto simp: x data c1)
qed

end
