(* ===== verification/Tracing.thy ===== *)
theory Tracing
  imports Bpf_Prelude
begin

unbundle bit_operations_syntax

text \<open>
  The life of the tracers, \<^verbatim>\<open>pkg/tracing/tracing.go\<close>, \<^verbatim>\<open>manager.go\<close> and \<^verbatim>\<open>register_event.go\<close>: each
  registered tracer has a goroutine that runs it again and again until it is told to stop. The
  goroutine goes in steps between two accesses to the fields it shares with the manager,
  and the calls of the manager come at any time between them.
\<close>

section \<open>Register\<close>

definition FlagMetric :: u32 where "FlagMetric = 1"
definition FlagTracing :: u32 where "FlagTracing = 2"

record tracing_attr =
  at_Internal :: int
  at_Flag :: u32

text \<open>\<open>None\<close> is an error, of a factory or for its flag. The factories come in the order of the walk.\<close>

fun register_loop :: "string list \<Rightarrow> (string \<times> tracing_attr option) list \<Rightarrow> (string \<rightharpoonup> tracing_attr) \<Rightarrow>
    (string \<rightharpoonup> tracing_attr) option" where
  "register_loop blackListed [] tracingMap = Some tracingMap"
| "register_loop blackListed ((key, factory) # factories) tracingMap =
     (if key \<in> set blackListed then register_loop blackListed factories tracingMap
      else case factory of
        None \<Rightarrow> None
      | Some attr \<Rightarrow>
          if at_Flag attr AND (FlagTracing OR FlagMetric) = 0 then None
          else register_loop blackListed factories (tracingMap(key \<mapsto> attr)))"

definition NewRegister :: "string list \<Rightarrow> (string \<times> tracing_attr option) list \<Rightarrow> (string \<rightharpoonup> tracing_attr) option" where
  "NewRegister blackListed factories = register_loop blackListed factories Map.empty"

section \<open>One tracer\<close>

text \<open>A cancel function is the number of its context; \<open>None\<close> is \<open>nil\<close>.\<close>

record event_tracing =
  te_interval :: int
  te_hitCount :: s64
  te_cancelCtx :: "nat option"
  te_exit :: bool
  te_isRunning :: bool
  te_flag :: u32

text \<open>Where a goroutine is: \<open>In_tracer c\<close> runs the tracer in the context \<open>c\<close>.\<close>

datatype routine = At_loop | At_doStart | In_tracer nat | At_count | At_check | Sleeping | At_return

text \<open>What the tracer returns: no error, the errors the code tells apart, another error.\<close>

datatype tracing_result = No_error | ErrExitByCancelCtx | ErrDisconnectedHuatuo | ErrNotSupported | Other_error

text \<open>The fields, the goroutines that were started and have not ended, and which contexts are cancelled.\<close>

record tracer = event_tracing +
  tr_routines :: "routine list"
  tr_cancelled :: "bool list"

definition NewTracingEvent :: "tracing_attr \<Rightarrow> tracer" where
  "NewTracingEvent attr = \<lparr>te_interval = at_Internal attr, te_hitCount = 0, te_cancelCtx = None,
     te_exit = False, te_isRunning = False, te_flag = at_Flag attr, tr_routines = [], tr_cancelled = []\<rparr>"

definition EventTracing_Start :: "tracer \<Rightarrow> tracer" where
  "EventTracing_Start c = c\<lparr>te_isRunning := True, te_exit := False, tr_routines := tr_routines c @ [At_loop]\<rparr>"

definition cancel :: "nat \<Rightarrow> tracer \<Rightarrow> tracer" where
  "cancel n c = c\<lparr>tr_cancelled := (tr_cancelled c)[n := True]\<rparr>"

text \<open>One step of the goroutine \<open>i\<close>; \<open>r\<close> is what the tracer returns if the step is its return.\<close>

definition doStart :: "nat \<Rightarrow> tracer \<Rightarrow> tracer" where
  "doStart i c =
     (let ctx = length (tr_cancelled c) in
      c\<lparr>tr_cancelled := tr_cancelled c @ [False], te_cancelCtx := Some ctx,
        tr_routines := (tr_routines c)[i := In_tracer ctx]\<rparr>)"

definition doStart_return :: "nat \<Rightarrow> nat \<Rightarrow> tracing_result \<Rightarrow> tracer \<Rightarrow> tracer" where
  "doStart_return i ctx r c =
     cancel ctx (c\<lparr>te_exit := (te_exit c \<or> r = ErrNotSupported), tr_routines := (tr_routines c)[i := At_count]\<rparr>)"

definition goroutine :: "nat \<Rightarrow> tracing_result \<Rightarrow> tracer \<Rightarrow> tracer" where
  "goroutine i r c =
     (case tr_routines c ! i of
        At_loop \<Rightarrow> c\<lparr>tr_routines := (tr_routines c)[i := if \<not> te_exit c then At_doStart else At_return]\<rparr>
      | At_doStart \<Rightarrow> doStart i c
      | In_tracer ctx \<Rightarrow> doStart_return i ctx r c
      | At_count \<Rightarrow> c\<lparr>te_hitCount := te_hitCount c + 1, tr_routines := (tr_routines c)[i := At_check]\<rparr>
      | At_check \<Rightarrow> c\<lparr>tr_routines := (tr_routines c)[i := if te_exit c then At_return else Sleeping]\<rparr>
      | Sleeping \<Rightarrow> c\<lparr>tr_routines := (tr_routines c)[i := At_loop]\<rparr>
      | At_return \<Rightarrow> c\<lparr>te_isRunning := False, tr_routines := take i (tr_routines c) @ drop (Suc i) (tr_routines c)\<rparr>)"

text \<open>\<open>exit\<close> is set before the cancel function is called; \<open>False\<close> is the panic of calling \<open>nil\<close>.\<close>

definition EventTracing_Stop :: "tracer \<Rightarrow> tracer \<times> bool" where
  "EventTracing_Stop c =
     (let c = c\<lparr>te_exit := True\<rparr> in
      case te_cancelCtx c of None \<Rightarrow> (c, False) | Some n \<Rightarrow> (cancel n c, True))"

section \<open>Manager\<close>

record mgr_tracing =
  tracingEvents :: "string \<rightharpoonup> tracer"
  mgr_blackListed :: "string list"

datatype mgr_result = Done | Not_found | Black_listed | Already_running | Not_running | Panic

text \<open>\<open>None\<close> is the error of the register.\<close>

definition NewMgrTracingEvent :: "string list \<Rightarrow> (string \<times> tracing_attr option) list \<Rightarrow> mgr_tracing option" where
  "NewMgrTracingEvent blackListed factories =
     (case NewRegister blackListed factories of
        None \<Rightarrow> None
      | Some tracings \<Rightarrow>
          Some \<lparr>tracingEvents = (\<lambda>key. case tracings key of
                  None \<Rightarrow> None
                | Some trace \<Rightarrow> if at_Flag trace AND FlagTracing = 0 then None else Some (NewTracingEvent trace)),
                mgr_blackListed = blackListed\<rparr>)"

definition set_event :: "string \<Rightarrow> tracer \<Rightarrow> mgr_tracing \<Rightarrow> mgr_tracing" where
  "set_event name te mgr = mgr\<lparr>tracingEvents := (tracingEvents mgr)(name \<mapsto> te)\<rparr>"

definition MgrTracingEventStart :: "string \<Rightarrow> mgr_tracing \<Rightarrow> mgr_tracing \<times> mgr_result" where
  "MgrTracingEventStart name mgr =
     (case tracingEvents mgr name of
        None \<Rightarrow> (mgr, Not_found)
      | Some te \<Rightarrow>
          if name \<in> set (mgr_blackListed mgr) then (set_event name (te\<lparr>te_isRunning := False\<rparr>) mgr, Black_listed)
          else if te_isRunning te then (mgr, Already_running)
          else (set_event name (EventTracing_Start te) mgr, Done))"

definition MgrTracingEventStop :: "string \<Rightarrow> mgr_tracing \<Rightarrow> mgr_tracing \<times> mgr_result" where
  "MgrTracingEventStop name mgr =
     (case tracingEvents mgr name of
        None \<Rightarrow> (mgr, Not_found)
      | Some te \<Rightarrow>
          if \<not> te_isRunning te then (mgr, Not_running)
          else case EventTracing_Stop te of
            (te, returned) \<Rightarrow> (set_event name te mgr, if returned then Done else Panic))"

text \<open>The calls for all tracers, over the names in the order of the walk.\<close>

fun MgrTracingEventStartAll :: "string list \<Rightarrow> mgr_tracing \<Rightarrow> mgr_tracing \<times> mgr_result" where
  "MgrTracingEventStartAll [] mgr = (mgr, Done)"
| "MgrTracingEventStartAll (name # names) mgr =
     (case MgrTracingEventStart name mgr of
        (mgr, err) \<Rightarrow> if err \<noteq> Done then (mgr, err) else MgrTracingEventStartAll names mgr)"

fun MgrTracingEventStopAll :: "string list \<Rightarrow> mgr_tracing \<Rightarrow> mgr_tracing \<times> mgr_result" where
  "MgrTracingEventStopAll [] mgr = (mgr, Done)"
| "MgrTracingEventStopAll (name # names) mgr =
     (case MgrTracingEventStop name mgr of
        (mgr, err) \<Rightarrow> if err \<noteq> Done then (mgr, err) else MgrTracingEventStopAll names mgr)"

text \<open>\<open>Info\<close> of a tracer: whether it runs, how often it ran, the pause and the flag.\<close>

definition EventTracing_Info :: "tracer \<Rightarrow> bool \<times> s64 \<times> int \<times> u32" where
  "EventTracing_Info c = (te_isRunning c, te_hitCount c, te_interval c, te_flag c)"

definition MgrTracingInfoDump :: "mgr_tracing \<Rightarrow> string \<rightharpoonup> bool \<times> s64 \<times> int \<times> u32" where
  "MgrTracingInfoDump mgr name = map_option EventTracing_Info (tracingEvents mgr name)"

section \<open>Interleavings\<close>

inductive mgr_step :: "mgr_tracing \<Rightarrow> mgr_tracing \<Rightarrow> bool" where
  start: "MgrTracingEventStart name mgr = (mgr', r) \<Longrightarrow> mgr_step mgr mgr'"
| stop: "MgrTracingEventStop name mgr = (mgr', r) \<Longrightarrow> mgr_step mgr mgr'"
| routine: "tracingEvents mgr name = Some te \<Longrightarrow> i < length (tr_routines te) \<Longrightarrow>
     mgr_step mgr (set_event name (goroutine i r te) mgr)"

inductive mgr_reachable :: "string list \<Rightarrow> (string \<times> tracing_attr option) list \<Rightarrow> mgr_tracing \<Rightarrow> bool"
  for blackListed :: "string list" and factories :: "(string \<times> tracing_attr option) list" where
  init: "NewMgrTracingEvent blackListed factories = Some mgr \<Longrightarrow> mgr_reachable blackListed factories mgr"
| step: "mgr_reachable blackListed factories mgr \<Longrightarrow> mgr_step mgr mgr' \<Longrightarrow>
     mgr_reachable blackListed factories mgr'"

text \<open>
  What holds of a tracer at all times: the field \<open>isRunning\<close> says whether it has a goroutine, it
  never has two, and a context that is not cancelled is the one its tracer runs in, which \<open>Stop\<close>
  would cancel.
\<close>

definition tracer_ok :: "tracer \<Rightarrow> bool" where
  "tracer_ok c \<longleftrightarrow>
     (case te_cancelCtx c of None \<Rightarrow> tr_cancelled c = [] | Some n \<Rightarrow> n < length (tr_cancelled c)) \<and>
     (case tr_routines c of
        [] \<Rightarrow> \<not> te_isRunning c \<and> list_all id (tr_cancelled c)
      | [In_tracer n] \<Rightarrow> te_isRunning c \<and> te_cancelCtx c = Some n \<and> list_all id ((tr_cancelled c)[n := True])
      | [pc] \<Rightarrow> te_isRunning c \<and> list_all id (tr_cancelled c)
      | _ \<Rightarrow> False)"

lemma tracer_ok_cases:
  assumes "tracer_ok c"
  obtains (idle) "tr_routines c = []" "\<not> te_isRunning c" "list_all id (tr_cancelled c)"
  | (tracing) n where "tr_routines c = [In_tracer n]" "te_isRunning c" "te_cancelCtx c = Some n"
      "list_all id ((tr_cancelled c)[n := True])"
  | (between) pc where "tr_routines c = [pc]" "\<forall>n. pc \<noteq> In_tracer n" "te_isRunning c" "list_all id (tr_cancelled c)"
  using assms by (auto simp: tracer_ok_def split: list.splits routine.splits)

lemma all_update: "list_all id bs \<Longrightarrow> list_all id (bs[n := True])"
  using set_update_subset_insert [of bs n True] by (auto simp: list_all_iff)

lemma ok_new: "tracer_ok (NewTracingEvent attr)"
  by (simp add: tracer_ok_def NewTracingEvent_def)

lemma ok_start:
  assumes "tracer_ok c" "\<not> te_isRunning c"
  shows "tracer_ok (EventTracing_Start c)"
  using assms(1)
proof (cases rule: tracer_ok_cases)
  case idle
  with assms show ?thesis by (cases "te_cancelCtx c") (simp_all add: tracer_ok_def EventTracing_Start_def)
qed (use assms(2) in simp_all)

lemma ok_stop:
  assumes "tracer_ok c"
  shows "tracer_ok (fst (EventTracing_Stop c))"
  using assms
proof (cases rule: tracer_ok_cases)
  case (between pc)
  with assms show ?thesis
    by (cases pc; cases "te_cancelCtx c") (simp_all add: tracer_ok_def EventTracing_Stop_def cancel_def all_update)
qed (use assms in \<open>cases "te_cancelCtx c"; simp add: tracer_ok_def EventTracing_Stop_def cancel_def all_update\<close>)+

lemma ok_goroutine:
  assumes "tracer_ok c" "i < length (tr_routines c)"
  shows "tracer_ok (goroutine i r c)"
  using assms(1)
proof (cases rule: tracer_ok_cases)
  case (tracing n)
  with assms show ?thesis
    by (simp add: goroutine_def doStart_return_def cancel_def tracer_ok_def)
next
  case (between pc)
  with assms show ?thesis
    by (cases pc; cases "te_cancelCtx c") (simp_all add: goroutine_def doStart_def Let_def tracer_ok_def)
qed (use assms(2) in simp)

definition mgr_ok :: "mgr_tracing \<Rightarrow> bool" where
  "mgr_ok mgr \<longleftrightarrow> (\<forall>name te. tracingEvents mgr name = Some te \<longrightarrow> tracer_ok te \<and> name \<notin> set (mgr_blackListed mgr))"

lemma register_not_blackListed:
  "register_loop blackListed fs m = Some m' \<Longrightarrow> dom m \<inter> set blackListed = {} \<Longrightarrow> dom m' \<inter> set blackListed = {}"
  by (induction blackListed fs m rule: register_loop.induct) (auto split: if_splits option.splits)

lemma mgr_ok_init:
  assumes "NewMgrTracingEvent blackListed factories = Some mgr"
  shows "mgr_ok mgr"
proof -
  obtain tr where tr: "NewRegister blackListed factories = Some tr"
    using assms by (auto simp: NewMgrTracingEvent_def split: option.splits)
  then have "dom tr \<inter> set blackListed = {}"
    using register_not_blackListed [of blackListed factories Map.empty tr] by (simp add: NewRegister_def)
  then have "name \<in> set blackListed \<Longrightarrow> tr name = None" for name by blast
  with assms tr show ?thesis
    by (auto simp: NewMgrTracingEvent_def mgr_ok_def ok_new split: option.splits if_splits)
qed

lemma mgr_ok_set: "mgr_ok mgr \<Longrightarrow> tracingEvents mgr name = Some te \<Longrightarrow> tracer_ok te' \<Longrightarrow> mgr_ok (set_event name te' mgr)"
  by (auto simp: mgr_ok_def set_event_def)

lemma mgr_ok_step: "mgr_step mgr mgr' \<Longrightarrow> mgr_ok mgr \<Longrightarrow> mgr_ok mgr'"
proof (induction rule: mgr_step.induct)
  case (start name mgr mgr' r)
  show ?case
  proof (cases "tracingEvents mgr name")
    case (Some te)
    then have te: "tracer_ok te" "name \<notin> set (mgr_blackListed mgr)" using start.prems by (auto simp: mgr_ok_def)
    with start Some show ?thesis
      by (auto simp: MgrTracingEventStart_def split: if_splits intro: mgr_ok_set ok_start)
  qed (use start in \<open>simp add: MgrTracingEventStart_def\<close>)
next
  case (stop name mgr mgr' r)
  show ?case
  proof (cases "tracingEvents mgr name")
    case (Some te)
    then have "tracer_ok (fst (EventTracing_Stop te))" using stop.prems by (auto simp: mgr_ok_def intro: ok_stop)
    with stop Some show ?thesis
      by (auto simp: MgrTracingEventStop_def split: if_splits prod.splits intro: mgr_ok_set)
  qed (use stop in \<open>simp add: MgrTracingEventStop_def\<close>)
next
  case (routine mgr name te i r)
  then have "tracer_ok te" by (auto simp: mgr_ok_def)
  from mgr_ok_set [OF routine(3,1) ok_goroutine [OF this routine(2)]] show ?case .
qed

lemma mgr_reachable_ok: "mgr_reachable blackListed factories mgr \<Longrightarrow> mgr_ok mgr"
  by (induction rule: mgr_reachable.induct) (auto intro: mgr_ok_init mgr_ok_step)

text \<open>
  C9. One goroutine per tracer: whatever the order of the calls that start and stop tracers and of
  the steps of the goroutines, a tracer never has more than one goroutine, the field \<open>isRunning\<close> says
  whether it has one, at most one context is not cancelled, and that one is the context in which
  the tracer runs at that moment and which the next \<open>Stop\<close> cancels. No black-listed tracer is there.
\<close>

theorem one_goroutine:
  assumes "mgr_reachable blackListed factories mgr" "tracingEvents mgr name = Some te"
  shows "length (tr_routines te) \<le> 1 \<and> (te_isRunning te \<longleftrightarrow> tr_routines te \<noteq> []) \<and> name \<notin> set (mgr_blackListed mgr) \<and>
    (\<forall>n<length (tr_cancelled te). tr_cancelled te ! n \<or> tr_routines te = [In_tracer n] \<and> te_cancelCtx te = Some n)"
proof -
  have "tracer_ok te" "name \<notin> set (mgr_blackListed mgr)"
    using mgr_reachable_ok [OF assms(1)] assms(2) by (auto simp: mgr_ok_def)
  then show ?thesis
    by (cases rule: tracer_ok_cases) (auto simp: list_all_length nth_list_update)
qed

section \<open>Stopping\<close>

text \<open>The steps of the goroutine of a tracer that is left alone, for the results its runs return.\<close>

fun run_alone :: "tracing_result list \<Rightarrow> tracer \<Rightarrow> tracer" where
  "run_alone [] c = c"
| "run_alone (r # rs) c = (if tr_routines c = [] then c else run_alone rs (goroutine 0 r c))"

lemma run_alone_ended: "tr_routines c = [] \<Longrightarrow> run_alone rs c = c"
  by (cases rs) simp_all

lemma exit_ends:
  assumes "tr_routines c = [pc]" "pc \<noteq> At_doStart" "te_exit c" "4 \<le> length rs"
  shows "tr_routines (run_alone rs c) = [] \<and> \<not> te_isRunning (run_alone rs c) \<and>
    length (tr_cancelled (run_alone rs c)) = length (tr_cancelled c)"
proof -
  obtain r1 r2 r3 r4 rs' where "rs = r1 # r2 # r3 # r4 # rs'"
    using assms(4) by (auto simp: numeral_eq_Suc Suc_le_length_iff)
  with assms show ?thesis
    by (cases pc) (simp_all add: goroutine_def doStart_return_def cancel_def run_alone_ended)
qed

lemma stop_result:
  assumes "mgr_reachable blackListed factories mgr" "MgrTracingEventStop name mgr = (mgr', Done)"
  obtains te n where "tracingEvents mgr name = Some te" "te_cancelCtx te = Some n" "tr_routines te \<noteq> []"
    "mgr' = set_event name (cancel n (te\<lparr>te_exit := True\<rparr>)) mgr" "tracer_ok te"
proof -
  obtain te where te: "tracingEvents mgr name = Some te"
    using assms(2) by (auto simp: MgrTracingEventStop_def split: option.splits)
  then have "tracer_ok te" using mgr_reachable_ok [OF assms(1)] by (auto simp: mgr_ok_def)
  moreover from this have "te_isRunning te \<longleftrightarrow> tr_routines te \<noteq> []" by (cases rule: tracer_ok_cases) simp_all
  ultimately show ?thesis
    using assms(2) te that
    by (auto simp: MgrTracingEventStop_def EventTracing_Stop_def Let_def split: if_splits option.splits)
qed


subsection \<open>Two calls that come too early\<close>

text \<open>
  A goroutine between the test of its loop and the creation of its context: the call returns without an
  error, and the tracer is then run in a context that nobody cancels.
\<close>

lemma stop_lost:
  assumes "tracingEvents mgr name = Some te" "te_isRunning te" "tr_routines te = [At_doStart]" "te_cancelCtx te = Some n"
  defines "te' \<equiv> cancel n (te\<lparr>te_exit := True\<rparr>)"
  shows "MgrTracingEventStop name mgr = (set_event name te' mgr, Done)"
    "tr_routines (goroutine 0 r te') = [In_tracer (length (tr_cancelled te))]"
    "\<not> tr_cancelled (goroutine 0 r te') ! length (tr_cancelled te)"
  using assms(1-4)
  by (simp_all add: te'_def MgrTracingEventStop_def EventTracing_Stop_def goroutine_def doStart_def cancel_def Let_def
      nth_append)

text \<open>A tracer that was just started for the first time: the call panics.\<close>

lemma stop_panics:
  assumes "mgr_ok mgr" "tracingEvents mgr name = Some (NewTracingEvent attr)"
  shows "snd (MgrTracingEventStop name (fst (MgrTracingEventStart name mgr))) = Panic"
proof -
  have "name \<notin> set (mgr_blackListed mgr)" using assms by (auto simp: mgr_ok_def)
  with assms(2) show ?thesis
    by (simp add: MgrTracingEventStart_def MgrTracingEventStop_def set_event_def NewTracingEvent_def
        EventTracing_Start_def EventTracing_Stop_def Let_def)
qed

text \<open>A call for all tracers ends at the first one that does not run; the others keep running.\<close>

lemma stop_all_ends_early:
  assumes "tracingEvents mgr name = Some te" "\<not> te_isRunning te"
  shows "MgrTracingEventStopAll (name # names) mgr = (mgr, Not_running)"
  using assms by (simp add: MgrTracingEventStop_def)

section \<open>Examples\<close>

text \<open>Runs as lists of steps.\<close>

datatype mgr_action = Call_start string | Call_stop string | Go string tracing_result

fun mgr_act :: "mgr_action \<Rightarrow> mgr_tracing \<Rightarrow> mgr_tracing" where
  "mgr_act (Call_start name) mgr = fst (MgrTracingEventStart name mgr)"
| "mgr_act (Call_stop name) mgr = fst (MgrTracingEventStop name mgr)"
| "mgr_act (Go name r) mgr =
     (case tracingEvents mgr name of
        None \<Rightarrow> mgr
      | Some te \<Rightarrow> if tr_routines te = [] then mgr else set_event name (goroutine 0 r te) mgr)"

lemma mgr_run_reachable:
  "mgr_reachable b fs mgr \<Longrightarrow> mgr_reachable b fs (foldl (\<lambda>m a. mgr_act a m) mgr as)"
proof (induction "as" arbitrary: mgr)
  case (Cons a as)
  have "mgr_step mgr (mgr_act a mgr) \<or> mgr_act a mgr = mgr"
  proof (cases a)
    case (Go name r)
    then show ?thesis
      by (cases "tracingEvents mgr name") (simp_all add: mgr_step.routine)
  qed (simp_all add: mgr_step.start mgr_step.stop prod_eq_iff)
  with Cons show ?case by (auto intro: mgr_reachable.step)
qed simp

definition factories_example :: "(string \<times> tracing_attr option) list" where
  "factories_example = [(''dropwatch'', Some \<lparr>at_Internal = 1, at_Flag = 2\<rparr>), (''cpu'', Some \<lparr>at_Internal = 1, at_Flag = 1\<rparr>),
     (''oom'', Some \<lparr>at_Internal = 10, at_Flag = 3\<rparr>)]"

definition mgr_example :: "mgr_action list \<Rightarrow> mgr_tracing" where
  "mgr_example as = foldl (\<lambda>m a. mgr_act a m) (the (NewMgrTracingEvent [''cpu''] factories_example)) as"

lemma mgr_example_reachable: "mgr_reachable [''cpu''] factories_example (mgr_example as)"
proof -
  have "NewMgrTracingEvent [''cpu''] factories_example = Some (the (NewMgrTracingEvent [''cpu''] factories_example))"
    by (simp add: NewMgrTracingEvent_def NewRegister_def factories_example_def FlagTracing_def FlagMetric_def)
  from mgr_run_reachable [OF mgr_reachable.init [OF this]] show ?thesis by (simp add: mgr_example_def)
qed

lemmas mgr_eval = mgr_example_def NewMgrTracingEvent_def NewRegister_def factories_example_def FlagTracing_def
  FlagMetric_def MgrTracingEventStart_def MgrTracingEventStop_def set_event_def NewTracingEvent_def goroutine_def
  EventTracing_Start_def EventTracing_Stop_def doStart_def doStart_return_def cancel_def

theorem one_goroutine_witness:
  "length (tr_routines (the (tracingEvents (mgr_example [Call_start ''dropwatch'', Call_start ''dropwatch'']) ''dropwatch''))) \<le> 1"
  using one_goroutine [OF mgr_example_reachable, of "[Call_start ''dropwatch'', Call_start ''dropwatch'']" "''dropwatch''"]
  by (simp add: mgr_eval)


text \<open>The state of the call that is lost comes up: a tracer that ran once and is about to run again.\<close>

lemma stop_lost_reached:
  "\<exists>mgr te. mgr_reachable [''cpu''] factories_example mgr \<and> tracingEvents mgr ''dropwatch'' = Some te \<and>
     te_isRunning te \<and> tr_routines te = [At_doStart] \<and> te_cancelCtx te = Some 0"
proof -
  let ?go = "Go ''dropwatch'' No_error"
  let ?run = "[Call_start ''dropwatch'', ?go, ?go, ?go, ?go, ?go, ?go, ?go]"
  have "tracingEvents (mgr_example ?run) ''dropwatch'' =
      Some \<lparr>te_interval = 1, te_hitCount = 1, te_cancelCtx = Some 0, te_exit = False, te_isRunning = True, te_flag = 2,
        tr_routines = [At_doStart], tr_cancelled = [True]\<rparr>"
    by (simp add: mgr_eval)
  with mgr_example_reachable [of ?run] show ?thesis
    by (intro exI [of _ "mgr_example ?run"]) simp
qed

end
