(* ===== verification/Tasks.thy ===== *)
theory Tasks
  imports Bpf_Prelude
begin

text \<open>
  Tasks on request, \<^verbatim>\<open>pkg/tracing/task.go\<close> and their handlers in \<^verbatim>\<open>internal/services/task.go\<close>: a task runs
  an external program in a goroutine of its own, and its result is kept for those who ask. The tasks
  live at addresses (positions in a list) and the cache maps identifiers to addresses. No lock protects the
  fields of a task, so the goroutine of a task, every request for a result or to stop and the collector of old tasks
  are processes of their own: one step is one access to the cache, to a field of a task, to the clock or to a context.
  Times are in nanoseconds; zero is the time a task without a deadline has.
\<close>

section \<open>State\<close>

datatype status = StatusCompleted | StatusFailed | StatusPending | StatusRunning | StatusNotExist

datatype storage_type = TaskStorageDB | TaskStorageStdout | TaskStorageLocal | Storage_other

datatype task_error = ErrTaskNotFound | ErrTaskTimeout | ErrTaskCanceled | Task_error string string

text \<open>Why a context is done.\<close>

datatype context_err = DeadlineExceeded | Canceled

text \<open>How far \<open>runTask\<close> is, with the values it holds: output and error of the program, the error to store, a time.\<close>

datatype task_pc = At_start | In_command | At_context string string | At_error task_error | At_store string | At_completed
  | At_now | At_deadline nat | Ended

record task =
  tk_id :: string
  tk_execBinary :: string
  tk_execArgs :: "string list"
  tk_stdoutData :: string
  tk_status :: status
  tk_error :: "task_error option"
  tk_storage :: storage_type
  tk_context :: "context_err option"
  tk_expires :: nat
  tk_deadlineTime :: nat
  tk_pc :: task_pc

record task_result =
  TaskStatus :: status
  TaskData :: string
  TaskErr :: "task_error option"

text \<open>
  How far a request is, with its identifier, the address it loaded and the values it read. The steps of
  \<open>Result\<close> begin with \<open>Q\<close>, those of \<open>StopTask\<close> with \<open>S\<close>.
\<close>

datatype request = Q_load string | Q_failed string nat | Q_completed string nat | Q_now string nat | Q_deadline string nat nat
  | Q_data string nat | Q_status string nat string | Q_error string nat string status | Q_answer string task_result
  | S_load string | S_running string nat | S_cancel string nat | S_delete string | S_answer string "task_error option"

text \<open>How far the collector is, with the time its round began at, the key it visits and the address it loaded.\<close>

datatype collector = C_wait | C_round nat | C_completed nat string nat | C_failed nat string nat | C_deadline nat string nat
  | C_delete nat string

text \<open>\<open>ts_saved\<close> is what was handed to the storage: program, identifier and output.\<close>

record tasks =
  ts_tasks :: "task list"
  taskLifeTmpCache :: "string \<rightharpoonup> nat"
  ts_now :: nat
  ts_saved :: "(string \<times> string \<times> string) list"
  ts_requests :: "request list"
  ts_collector :: collector

definition tasks_init :: tasks where
  "tasks_init = \<lparr>ts_tasks = [], taskLifeTmpCache = Map.empty, ts_now = 0, ts_saved = [], ts_requests = [], ts_collector = C_wait\<rparr>"

section \<open>Operations\<close>

definition set_task :: "nat \<Rightarrow> task \<Rightarrow> tasks \<Rightarrow> tasks" where
  "set_task a t w = w\<lparr>ts_tasks := (ts_tasks w)[a := t]\<rparr>"

definition set_request :: "nat \<Rightarrow> request \<Rightarrow> tasks \<Rightarrow> tasks" where
  "set_request r q w = w\<lparr>ts_requests := (ts_requests w)[r := q]\<rparr>"

definition task_life :: nat where
  "task_life = 600000000000"

text \<open>The write of \<open>setDeadlineDefault\<close>; \<open>now\<close> is what its reading of the clock returned.\<close>

definition setDeadlineDefault :: "nat \<Rightarrow> nat \<Rightarrow> tasks \<Rightarrow> tasks" where
  "setDeadlineDefault a now w = set_task a ((ts_tasks w ! a)\<lparr>tk_deadlineTime := now + task_life\<rparr>) w"

text \<open>\<open>taskID\<close> is what \<open>allocTaskID\<close> drew.\<close>

definition NewTask :: "string \<Rightarrow> string \<Rightarrow> nat \<Rightarrow> storage_type \<Rightarrow> string list \<Rightarrow> tasks \<Rightarrow> tasks" where
  "NewTask taskID execBinary timeout storageType execArgs w =
     w\<lparr>ts_tasks := ts_tasks w @ [\<lparr>tk_id = taskID, tk_execBinary = execBinary, tk_execArgs = execArgs,
          tk_stdoutData = [], tk_status = StatusPending, tk_error = None, tk_storage = storageType,
          tk_context = None, tk_expires = ts_now w + timeout, tk_deadlineTime = 0, tk_pc = At_start\<rparr>],
       taskLifeTmpCache := (taskLifeTmpCache w)(taskID \<mapsto> length (ts_tasks w))\<rparr>"

text \<open>What the program of a task does: it ends with output, or with an error and output.\<close>

datatype outcome = Exits string | Fails string string

definition run_error :: "context_err option \<Rightarrow> string \<Rightarrow> string \<Rightarrow> task_error" where
  "run_error contextErr err output =
     (case contextErr of
        Some DeadlineExceeded \<Rightarrow> ErrTaskTimeout
      | Some Canceled \<Rightarrow> ErrTaskCanceled
      | None \<Rightarrow> Task_error err output)"

definition runTask :: "nat \<Rightarrow> outcome \<Rightarrow> tasks \<Rightarrow> tasks" where
  "runTask a out w =
     (let t = ts_tasks w ! a in
      case tk_pc t of
        At_start \<Rightarrow> set_task a (t\<lparr>tk_status := StatusRunning, tk_pc := In_command\<rparr>) w
      | In_command \<Rightarrow>
          (case out of
             Fails err output \<Rightarrow> set_task a (t\<lparr>tk_status := StatusFailed, tk_pc := At_context err output\<rparr>) w
           | Exits output \<Rightarrow> set_task a (t\<lparr>tk_pc := At_store output\<rparr>) w)
      | At_context err output \<Rightarrow> set_task a (t\<lparr>tk_pc := At_error (run_error (tk_context t) err output)\<rparr>) w
      | At_error e \<Rightarrow> set_task a (t\<lparr>tk_error := Some e, tk_pc := At_now\<rparr>) w
      | At_store output \<Rightarrow>
          (case tk_storage t of
             TaskStorageDB \<Rightarrow> set_task a (t\<lparr>tk_pc := At_completed\<rparr>)
               (w\<lparr>ts_saved := ts_saved w @ [(tk_execBinary t, tk_id t, output)]\<rparr>)
           | TaskStorageStdout \<Rightarrow> set_task a (t\<lparr>tk_stdoutData := output, tk_pc := At_completed\<rparr>) w
           | _ \<Rightarrow> set_task a (t\<lparr>tk_pc := At_completed\<rparr>) w)
      | At_completed \<Rightarrow> set_task a (t\<lparr>tk_status := StatusCompleted, tk_pc := At_now\<rparr>) w
      | At_now \<Rightarrow> set_task a (t\<lparr>tk_pc := At_deadline (ts_now w)\<rparr>) w
      | At_deadline now \<Rightarrow> setDeadlineDefault a now (set_task a (t\<lparr>tk_pc := Ended\<rparr>) w)
      | Ended \<Rightarrow> w)"

text \<open>The number of running tasks, read in one go; \<open>keys\<close> are the keys of the cache.\<close>

definition RunningTaskCount :: "string list \<Rightarrow> tasks \<Rightarrow> nat" where
  "RunningTaskCount keys w = length (filter (\<lambda>key. case taskLifeTmpCache w key of
     None \<Rightarrow> False | Some a \<Rightarrow> tk_status (ts_tasks w ! a) = StatusRunning) keys)"

text \<open>
  The next access of the request number \<open>r\<close> for a result. The fields of the answer are read in the order they are written in.
\<close>

definition Result :: "nat \<Rightarrow> tasks \<Rightarrow> tasks" where
  "Result r w =
     (case ts_requests w ! r of
        Q_load taskID \<Rightarrow>
          (case taskLifeTmpCache w taskID of
             None \<Rightarrow> set_request r (Q_answer taskID
               \<lparr>TaskStatus = StatusNotExist, TaskData = [], TaskErr = Some ErrTaskNotFound\<rparr>) w
           | Some a \<Rightarrow> set_request r (Q_failed taskID a) w)
      | Q_failed taskID a \<Rightarrow>
          set_request r (if tk_status (ts_tasks w ! a) = StatusFailed then Q_now taskID a else Q_completed taskID a) w
      | Q_completed taskID a \<Rightarrow>
          set_request r (if tk_status (ts_tasks w ! a) = StatusCompleted then Q_now taskID a else Q_data taskID a) w
      | Q_now taskID a \<Rightarrow> set_request r (Q_deadline taskID a (ts_now w)) w
      | Q_deadline taskID a now \<Rightarrow> set_request r (Q_data taskID a) (setDeadlineDefault a now w)
      | Q_data taskID a \<Rightarrow> set_request r (Q_status taskID a (tk_stdoutData (ts_tasks w ! a))) w
      | Q_status taskID a d \<Rightarrow> set_request r (Q_error taskID a d (tk_status (ts_tasks w ! a))) w
      | Q_error taskID a d s \<Rightarrow>
          set_request r (Q_answer taskID \<lparr>TaskStatus = s, TaskData = d, TaskErr = tk_error (ts_tasks w ! a)\<rparr>) w
      | _ \<Rightarrow> w)"

definition cancel_context :: "context_err \<Rightarrow> task \<Rightarrow> task" where
  "cancel_context e t = (if tk_context t = None then t\<lparr>tk_context := Some e\<rparr> else t)"

text \<open>The next access of the request number \<open>r\<close> to stop a task.\<close>

definition StopTask :: "nat \<Rightarrow> tasks \<Rightarrow> tasks" where
  "StopTask r w =
     (case ts_requests w ! r of
        S_load taskID \<Rightarrow>
          (case taskLifeTmpCache w taskID of
             None \<Rightarrow> set_request r (S_answer taskID (Some ErrTaskNotFound)) w
           | Some a \<Rightarrow> set_request r (S_running taskID a) w)
      | S_running taskID a \<Rightarrow>
          set_request r (if tk_status (ts_tasks w ! a) = StatusRunning then S_cancel taskID a else S_delete taskID) w
      | S_cancel taskID a \<Rightarrow> set_request r (S_delete taskID) (set_task a (cancel_context Canceled (ts_tasks w ! a)) w)
      | S_delete taskID \<Rightarrow>
          set_request r (S_answer taskID None) (w\<lparr>taskLifeTmpCache := (taskLifeTmpCache w)(taskID := None)\<rparr>)
      | _ \<Rightarrow> w)"

text \<open>The next access of the collector; between two keys, \<open>next\<close> is the key it visits next, if any. The ten seconds between two rounds are left out: a round may begin at any time.\<close>

definition tasksGarbageCollect :: "string option \<Rightarrow> tasks \<Rightarrow> tasks" where
  "tasksGarbageCollect next w =
     (case ts_collector w of
        C_wait \<Rightarrow> w\<lparr>ts_collector := C_round (ts_now w)\<rparr>
      | C_round now \<Rightarrow>
          (case next of
             None \<Rightarrow> w\<lparr>ts_collector := C_wait\<rparr>
           | Some key \<Rightarrow> (case taskLifeTmpCache w key of None \<Rightarrow> w | Some a \<Rightarrow> w\<lparr>ts_collector := C_completed now key a\<rparr>))
      | C_completed now key a \<Rightarrow>
          w\<lparr>ts_collector := (if tk_status (ts_tasks w ! a) = StatusCompleted then C_deadline now key a else C_failed now key a)\<rparr>
      | C_failed now key a \<Rightarrow>
          w\<lparr>ts_collector := (if tk_status (ts_tasks w ! a) = StatusFailed then C_deadline now key a else C_round now)\<rparr>
      | C_deadline now key a \<Rightarrow>
          w\<lparr>ts_collector := (if now > tk_deadlineTime (ts_tasks w ! a) then C_delete now key else C_round now)\<rparr>
      | C_delete now key \<Rightarrow> w\<lparr>taskLifeTmpCache := (taskLifeTmpCache w)(key := None), ts_collector := C_round now\<rparr>)"

text \<open>The handler of a request for a result: what is sent, \<open>None\<close> for the panic of a missing error.\<close>

datatype response = Bad_request string | Status_only status | With_data status string | With_error status task_error

definition TaskResult_handler :: "string \<Rightarrow> task_result \<Rightarrow> response option" where
  "TaskResult_handler taskID result =
     (if taskID = [] then Some (Bad_request ''missing task id'')
      else case TaskStatus result of
        StatusCompleted \<Rightarrow> Some (With_data StatusCompleted (TaskData result))
      | StatusNotExist \<Rightarrow> map_option (With_error StatusNotExist) (TaskErr result)
      | StatusFailed \<Rightarrow> map_option (With_error StatusFailed) (TaskErr result)
      | s \<Rightarrow> Some (Status_only s))"

text \<open>The handler of a request for a new task. \<open>None\<close> is the refusal.\<close>

definition NewTask_handler ::
    "nat \<Rightarrow> string list \<Rightarrow> string \<Rightarrow> string \<Rightarrow> nat \<Rightarrow> string \<Rightarrow> string list \<Rightarrow> tasks \<Rightarrow> tasks \<times> string option" where
  "NewTask_handler maxRunningTask keys taskID tracerName timeout dataType tracerArgs w =
     (if RunningTaskCount keys w > maxRunningTask then (w, None)
      else let storageDefault = (if dataType = ''json'' then TaskStorageStdout else TaskStorageDB) in
        (NewTask taskID tracerName (timeout * 1000000000) storageDefault tracerArgs w, Some taskID))"

section \<open>Interleavings\<close>

text \<open>
  A step: a new task, a step of a goroutine, a new request for a result or to stop, a step of a
  request, a step of the collector, the expiry of a context, or the passing of time.
\<close>

datatype task_action = New string string nat storage_type "string list" | Run nat outcome | Ask string | Ask_stop string
  | Serve nat | Collect "string option" | Expire nat | Tick nat

fun is_stop :: "request \<Rightarrow> bool" where
  "is_stop (S_load _) = True"
| "is_stop (S_running _ _) = True"
| "is_stop (S_cancel _ _) = True"
| "is_stop (S_delete _) = True"
| "is_stop (S_answer _ _) = True"
| "is_stop _ = False"

fun task_act :: "task_action \<Rightarrow> tasks \<Rightarrow> tasks" where
  "task_act (New tid bin timeout st args) w = NewTask tid bin timeout st args w"
| "task_act (Run a out) w = (if a < length (ts_tasks w) then runTask a out w else w)"
| "task_act (Ask tid) w = w\<lparr>ts_requests := ts_requests w @ [Q_load tid]\<rparr>"
| "task_act (Ask_stop tid) w = w\<lparr>ts_requests := ts_requests w @ [S_load tid]\<rparr>"
| "task_act (Serve r) w = (if r < length (ts_requests w) then
     if is_stop (ts_requests w ! r) then StopTask r w else Result r w else w)"
| "task_act (Collect next) w = tasksGarbageCollect next w"
| "task_act (Expire a) w = (if a < length (ts_tasks w) \<and> tk_expires (ts_tasks w ! a) \<le> ts_now w
     then set_task a (cancel_context DeadlineExceeded (ts_tasks w ! a)) w else w)"
| "task_act (Tick d) w = w\<lparr>ts_now := ts_now w + d\<rparr>"

definition task_run :: "task_action list \<Rightarrow> tasks \<Rightarrow> tasks" where
  "task_run as w = foldl (\<lambda>w a. task_act a w) w as"

lemma task_run_simps [simp]:
  "task_run [] w = w" "task_run (a # as) w = task_run as (task_act a w)"
  "task_run (as @ [a]) w = task_act a (task_run as w)"
  by (simp_all add: task_run_def)

lemma task_run_append: "task_run (as @ bs) w = task_run bs (task_run as w)"
  by (simp add: task_run_def)

text \<open>What the fields of a task say about the progress of its goroutine.\<close>

definition task_ok :: "task \<Rightarrow> bool" where
  "task_ok t \<longleftrightarrow> (case tk_pc t of
     At_start \<Rightarrow> tk_status t = StatusPending \<and> tk_error t = None
   | In_command \<Rightarrow> tk_status t = StatusRunning \<and> tk_error t = None
   | At_store _ \<Rightarrow> tk_status t = StatusRunning \<and> tk_error t = None
   | At_completed \<Rightarrow> tk_status t = StatusRunning \<and> tk_error t = None
   | At_context _ _ \<Rightarrow> tk_status t = StatusFailed \<and> tk_error t = None
   | At_error _ \<Rightarrow> tk_status t = StatusFailed \<and> tk_error t = None
   | _ \<Rightarrow> tk_status t = StatusCompleted \<and> tk_error t = None \<or> tk_status t = StatusFailed \<and> tk_error t \<noteq> None)"

text \<open>The address a request holds, and what the collector holds.\<close>

fun request_addr :: "request \<Rightarrow> nat option" where
  "request_addr (Q_failed _ a) = Some a"
| "request_addr (Q_completed _ a) = Some a"
| "request_addr (Q_now _ a) = Some a"
| "request_addr (Q_deadline _ a _) = Some a"
| "request_addr (Q_data _ a) = Some a"
| "request_addr (Q_status _ a _) = Some a"
| "request_addr (Q_error _ a _ _) = Some a"
| "request_addr (S_running _ a) = Some a"
| "request_addr (S_cancel _ a) = Some a"
| "request_addr _ = None"

fun collector_at :: "collector \<Rightarrow> (string \<times> nat) option" where
  "collector_at (C_completed _ key a) = Some (key, a)"
| "collector_at (C_failed _ key a) = Some (key, a)"
| "collector_at (C_deadline _ key a) = Some (key, a)"
| "collector_at _ = None"

fun collector_time :: "collector \<Rightarrow> nat" where
  "collector_time C_wait = 0"
| "collector_time (C_round now) = now"
| "collector_time (C_completed now _ _) = now"
| "collector_time (C_failed now _ _) = now"
| "collector_time (C_deadline now _ _) = now"
| "collector_time (C_delete now _) = now"

definition tasks_ok :: "tasks \<Rightarrow> bool" where
  "tasks_ok w \<longleftrightarrow> (\<forall>a<length (ts_tasks w). task_ok (ts_tasks w ! a)) \<and>
     (\<forall>tid a. taskLifeTmpCache w tid = Some a \<longrightarrow> a < length (ts_tasks w) \<and> tk_id (ts_tasks w ! a) = tid) \<and>
     (\<forall>r<length (ts_requests w). \<forall>a. request_addr (ts_requests w ! r) = Some a \<longrightarrow> a < length (ts_tasks w)) \<and>
     (\<forall>key a. collector_at (ts_collector w) = Some (key, a) \<longrightarrow> a < length (ts_tasks w) \<and> tk_id (ts_tasks w ! a) = key) \<and>
     collector_time (ts_collector w) \<le> ts_now w"

text \<open>What one step does to a task that exists: the fields that only its goroutine writes.\<close>

definition moved :: "task \<Rightarrow> task \<Rightarrow> bool" where
  "moved t t' \<longleftrightarrow> tk_status t' = tk_status t \<and> tk_error t' = tk_error t \<and> tk_stdoutData t' = tk_stdoutData t \<and>
     tk_pc t' = tk_pc t \<and> tk_id t' = tk_id t"

lemma set_task_sel [simp]:
  "length (ts_tasks (set_task a t w)) = length (ts_tasks w)"
  "taskLifeTmpCache (set_task a t w) = taskLifeTmpCache w" "ts_now (set_task a t w) = ts_now w"
  "ts_requests (set_task a t w) = ts_requests w" "ts_collector (set_task a t w) = ts_collector w"
  "b < length (ts_tasks w) \<Longrightarrow> ts_tasks (set_task a t w) ! b = (if a = b then t else ts_tasks w ! b)"
  by (simp_all add: set_task_def nth_list_update)

lemma set_request_sel [simp]:
  "ts_tasks (set_request r q w) = ts_tasks w" "taskLifeTmpCache (set_request r q w) = taskLifeTmpCache w"
  "ts_now (set_request r q w) = ts_now w" "ts_collector (set_request r q w) = ts_collector w"
  "ts_requests (set_request r q w) = (ts_requests w)[r := q]"
  by (simp_all add: set_request_def)

lemma setDeadlineDefault_sel [simp]:
  "length (ts_tasks (setDeadlineDefault a n w)) = length (ts_tasks w)"
  "taskLifeTmpCache (setDeadlineDefault a n w) = taskLifeTmpCache w" "ts_now (setDeadlineDefault a n w) = ts_now w"
  "ts_requests (setDeadlineDefault a n w) = ts_requests w" "ts_collector (setDeadlineDefault a n w) = ts_collector w"
  "b < length (ts_tasks w) \<Longrightarrow> ts_tasks (setDeadlineDefault a n w) ! b =
     (if a = b then (ts_tasks w ! a)\<lparr>tk_deadlineTime := n + task_life\<rparr> else ts_tasks w ! b)"
  by (simp_all add: setDeadlineDefault_def)

lemma runTask_frame [simp]:
  "length (ts_tasks (runTask a out w)) = length (ts_tasks w)" "ts_now (runTask a out w) = ts_now w"
  "b < length (ts_tasks w) \<Longrightarrow> b \<noteq> a \<Longrightarrow> ts_tasks (runTask a out w) ! b = ts_tasks w ! b"
  "taskLifeTmpCache (runTask a out w) = taskLifeTmpCache w" "ts_requests (runTask a out w) = ts_requests w"
  "ts_collector (runTask a out w) = ts_collector w"
  by (auto simp: runTask_def Let_def setDeadlineDefault_def set_task_def
      split: task_pc.split outcome.split storage_type.split)

text \<open>What the requests and the collector leave alone.\<close>

lemma Result_frame [simp]:
  "length (ts_tasks (Result r w)) = length (ts_tasks w)" "ts_now (Result r w) = ts_now w"
  "taskLifeTmpCache (Result r w) = taskLifeTmpCache w" "ts_collector (Result r w) = ts_collector w"
  "length (ts_requests (Result r w)) = length (ts_requests w)" "b \<noteq> r \<Longrightarrow> ts_requests (Result r w) ! b = ts_requests w ! b"
  "b < length (ts_tasks w) \<Longrightarrow> moved (ts_tasks w ! b) (ts_tasks (Result r w) ! b)"
  by (auto simp: Result_def moved_def split: request.split option.split)

lemma StopTask_frame [simp]:
  "length (ts_tasks (StopTask r w)) = length (ts_tasks w)" "ts_now (StopTask r w) = ts_now w"
  "ts_collector (StopTask r w) = ts_collector w" "length (ts_requests (StopTask r w)) = length (ts_requests w)"
  "b \<noteq> r \<Longrightarrow> ts_requests (StopTask r w) ! b = ts_requests w ! b"
  "b < length (ts_tasks w) \<Longrightarrow> moved (ts_tasks w ! b) (ts_tasks (StopTask r w) ! b) \<and>
     tk_deadlineTime (ts_tasks (StopTask r w) ! b) = tk_deadlineTime (ts_tasks w ! b)"
  by (auto simp: StopTask_def moved_def cancel_context_def split: request.splits option.splits if_splits)


lemma StopTask_cache: "taskLifeTmpCache (StopTask r w) tid = Some a \<Longrightarrow> taskLifeTmpCache w tid = Some a"
  by (auto simp: StopTask_def split: request.splits option.splits if_splits)

lemma collect_frame [simp]:
  "ts_tasks (tasksGarbageCollect n w) = ts_tasks w" "ts_now (tasksGarbageCollect n w) = ts_now w"
  "ts_requests (tasksGarbageCollect n w) = ts_requests w"
  by (cases "ts_collector w"; simp add: tasksGarbageCollect_def split: option.split)+

lemma collect_cache:
  "taskLifeTmpCache (tasksGarbageCollect n w) tid = Some a \<Longrightarrow> taskLifeTmpCache w tid = Some a"
  by (cases "ts_collector w"; simp add: tasksGarbageCollect_def split: option.splits if_splits)

lemma act_length: "length (ts_tasks w) \<le> length (ts_tasks (task_act act w))"
  by (cases act) (auto simp: NewTask_def)

lemma act_now: "ts_now w \<le> ts_now (task_act act w)"
  by (cases act) (auto simp: NewTask_def)

lemma act_moved:
  assumes "b < length (ts_tasks w)" "\<forall>out. act \<noteq> Run b out"
  shows "moved (ts_tasks w ! b) (ts_tasks (task_act act w) ! b)"
proof (cases act)
  case (Run a out)
  with assms show ?thesis by (auto simp: moved_def)
next
  case (Serve r)
  with assms show ?thesis using StopTask_frame(6) [OF assms(1), of r] Result_frame(7) [OF assms(1), of r] by (auto simp: moved_def)
qed (use assms in \<open>auto simp: moved_def NewTask_def nth_append cancel_context_def\<close>)

text \<open>One step of the goroutine of a task in a consistent state.\<close>

lemma runTask_ok:
  assumes "a < length (ts_tasks w)" "task_ok (ts_tasks w ! a)"
  shows "task_ok (ts_tasks (runTask a out w) ! a)"
  using assms
  by (cases "tk_pc (ts_tasks w ! a)"; cases out; cases "tk_storage (ts_tasks w ! a)")
    (simp_all add: runTask_def Let_def task_ok_def setDeadlineDefault_def set_task_def)

lemma moved_ok: "moved t t' \<Longrightarrow> task_ok t' = task_ok t"
  unfolding moved_def task_ok_def by (cases "tk_pc t") simp_all

lemma act_cache:
  "taskLifeTmpCache (task_act act w) tid = Some a \<Longrightarrow>
   taskLifeTmpCache w tid = Some a \<or> a = length (ts_tasks w) \<and> length (ts_tasks w) < length (ts_tasks (task_act act w))"
  by (cases act) (auto simp: NewTask_def dest: StopTask_cache collect_cache split: if_splits)

lemma act_id:
  assumes "a < length (ts_tasks w)"
  shows "tk_id (ts_tasks (task_act act w) ! a) = tk_id (ts_tasks w ! a)"
proof (cases "\<exists>out. act = Run a out")
  case True
  then obtain out where "act = Run a out" by blast
  with assms show ?thesis
    by (cases "tk_pc (ts_tasks w ! a)"; cases out; cases "tk_storage (ts_tasks w ! a)")
      (simp_all add: runTask_def Let_def setDeadlineDefault_def set_task_def)
next
  case False
  then show ?thesis using act_moved [OF assms] by (simp add: moved_def)
qed

text \<open>An address a request or the collector holds comes from the cache.\<close>

lemma serve_addr:
  assumes "r < length (ts_requests w)"
  shows "request_addr (ts_requests (Result r w) ! r) = Some a \<Longrightarrow>
      request_addr (ts_requests w ! r) = Some a \<or> (\<exists>tid. taskLifeTmpCache w tid = Some a)"
    and "request_addr (ts_requests (StopTask r w) ! r) = Some a \<Longrightarrow>
      request_addr (ts_requests w ! r) = Some a \<or> (\<exists>tid. taskLifeTmpCache w tid = Some a)"
  using assms by (cases "ts_requests w ! r"; auto simp: Result_def StopTask_def split: option.splits if_splits)+

lemma act_addr:
  assumes "tasks_ok w" "i < length (ts_requests (task_act act w))" "request_addr (ts_requests (task_act act w) ! i) = Some a"
  shows "a < length (ts_tasks w)"
proof -
  have old: "a < length (ts_tasks w)" if "i < length (ts_requests w)" "request_addr (ts_requests w ! i) = Some a"
    using assms(1) that by (simp add: tasks_ok_def)
  have cache: "a < length (ts_tasks w)" if "taskLifeTmpCache w tid = Some a" for tid using assms(1) that by (simp add: tasks_ok_def)
  show ?thesis
  proof (cases act)
    case (Serve r)
    show ?thesis
    proof (cases "r < length (ts_requests w) \<and> i = r")
      case True
      then show ?thesis using Serve assms(2,3) old cache serve_addr [of r w a] by (auto split: if_splits)
    qed (use Serve assms(2,3) old in \<open>auto split: if_splits\<close>)
  qed (use assms(2,3) old in \<open>auto simp: NewTask_def nth_append split: if_splits\<close>)
qed

lemma collect_at:
  "collector_at (ts_collector (tasksGarbageCollect n w)) = Some (key, a) \<Longrightarrow>
     collector_at (ts_collector w) = Some (key, a) \<or> taskLifeTmpCache w key = Some a"
  by (cases "ts_collector w"; simp add: tasksGarbageCollect_def split: option.splits if_splits)

lemma act_collector:
  assumes "\<forall>n. act \<noteq> Collect n"
  shows "ts_collector (task_act act w) = ts_collector w"
  using assms by (cases act) (auto simp: NewTask_def)


lemma act_new:
  assumes "length (ts_tasks w) \<le> b" "b < length (ts_tasks (task_act act w))"
  shows "b = length (ts_tasks w) \<and> (\<exists>tid bin timeout st args. act = New tid bin timeout st args)"
  using assms by (cases act) (auto simp: NewTask_def split: if_splits)

lemma act_task_ok:
  assumes "tasks_ok w" "b < length (ts_tasks (task_act act w))"
  shows "task_ok (ts_tasks (task_act act w) ! b)"
proof (cases "b < length (ts_tasks w)")
  case True
  then have ok: "task_ok (ts_tasks w ! b)" using assms by (simp add: tasks_ok_def)
  show ?thesis
  proof (cases "\<exists>out. act = Run b out")
    case True
    with ok \<open>b < length (ts_tasks w)\<close> show ?thesis by (auto intro: runTask_ok)
  next
    case False
    with act_moved [OF True, of act] ok show ?thesis by (simp add: moved_ok)
  qed
next
  case False
  with act_new [of w b act] assms(2) show ?thesis by (auto simp: NewTask_def task_ok_def)
qed

lemma act_cache_ok:
  assumes "tasks_ok w" "taskLifeTmpCache (task_act act w) tid = Some a"
  shows "a < length (ts_tasks (task_act act w)) \<and> tk_id (ts_tasks (task_act act w) ! a) = tid"
proof (cases "a < length (ts_tasks w)")
  case True
  then have "taskLifeTmpCache w tid = Some a" using act_cache [OF assms(2)] by simp
  then have "tk_id (ts_tasks w ! a) = tid" using assms(1) by (simp add: tasks_ok_def)
  with True act_id [OF True, of act] act_length [of w act] show ?thesis by simp
next
  case False
  then have "taskLifeTmpCache w tid \<noteq> Some a" using assms(1) by (auto simp: tasks_ok_def)
  with act_cache [OF assms(2)] have a: "a = length (ts_tasks w)" "a < length (ts_tasks (task_act act w))" by auto
  with act_new [of w a act] obtain tid' bin timeout st args where "act = New tid' bin timeout st args" by auto
  with a assms(2) \<open>taskLifeTmpCache w tid \<noteq> Some a\<close> show ?thesis by (auto simp: NewTask_def split: if_splits)
qed

lemma act_collector_ok:
  assumes "tasks_ok w"
  shows "collector_at (ts_collector (task_act act w)) = Some (key, a) \<Longrightarrow>
      a < length (ts_tasks (task_act act w)) \<and> tk_id (ts_tasks (task_act act w) ! a) = key"
    and "collector_time (ts_collector (task_act act w)) \<le> ts_now (task_act act w)"
proof -
  have ok: "a < length (ts_tasks w) \<and> tk_id (ts_tasks w ! a) = key"
    if "collector_at (ts_collector w) = Some (key, a) \<or> taskLifeTmpCache w key = Some a"
    using assms that by (auto simp: tasks_ok_def)
  have time: "collector_time (ts_collector w) \<le> ts_now w" using assms by (simp add: tasks_ok_def)
  show "a < length (ts_tasks (task_act act w)) \<and> tk_id (ts_tasks (task_act act w) ! a) = key"
    if at: "collector_at (ts_collector (task_act act w)) = Some (key, a)"
  proof -
    have "collector_at (ts_collector w) = Some (key, a) \<or> taskLifeTmpCache w key = Some a"
      using at by (cases act) (auto simp: NewTask_def dest: collect_at split: if_splits)
    from ok [OF this] show ?thesis using act_id [of a w act] act_length [of w act] by simp
  qed
  show "collector_time (ts_collector (task_act act w)) \<le> ts_now (task_act act w)"
  proof (cases "\<exists>n. act = Collect n")
    case True
    with time show ?thesis
      by (cases "ts_collector w"; auto simp: tasksGarbageCollect_def split: option.splits if_splits)
  next
    case False
    with time act_collector [of act w] act_now [of w act] show ?thesis by simp
  qed
qed

lemma tasks_ok_act:
  assumes "tasks_ok w"
  shows "tasks_ok (task_act act w)"
proof -
  have "a < length (ts_tasks (task_act act w))"
    if "i < length (ts_requests (task_act act w))" "request_addr (ts_requests (task_act act w) ! i) = Some a" for i a
    using act_addr [OF assms that] act_length [of w act] by simp
  with act_task_ok [OF assms] act_cache_ok [OF assms] act_collector_ok [OF assms] show ?thesis
    unfolding tasks_ok_def by blast
qed

lemma tasks_ok_run: "tasks_ok w \<Longrightarrow> tasks_ok (task_run as w)"
  by (induction "as" arbitrary: w) (simp_all add: tasks_ok_act)

lemma tasks_ok_init: "tasks_ok tasks_init"
  by (simp add: tasks_ok_def tasks_init_def)

section \<open>The life of a task\<close>

definition status_le :: "status \<Rightarrow> status \<Rightarrow> bool" where
  "status_le s s' \<longleftrightarrow> s = s' \<or> s = StatusPending \<and> s' \<in> {StatusRunning, StatusCompleted, StatusFailed} \<or>
     s = StatusRunning \<and> s' \<in> {StatusCompleted, StatusFailed}"

definition finished :: "task \<Rightarrow> bool" where
  "finished t \<longleftrightarrow> tk_status t = StatusCompleted \<or> tk_status t = StatusFailed"

text \<open>A later state of a task, seen from an earlier one.\<close>

definition later :: "task \<Rightarrow> task \<Rightarrow> bool" where
  "later t t' \<longleftrightarrow> status_le (tk_status t) (tk_status t') \<and>
     (finished t \<longrightarrow> tk_status t' = tk_status t \<and> tk_stdoutData t' = tk_stdoutData t \<and>
        (tk_error t \<noteq> None \<or> tk_status t = StatusCompleted \<longrightarrow> tk_error t' = tk_error t))"

lemma later_trans: "later t t' \<Longrightarrow> later t' t'' \<Longrightarrow> later t t''"
  by (auto simp: later_def status_le_def finished_def)

lemma moved_later: "moved t t' \<Longrightarrow> later t t'"
  by (simp add: moved_def later_def status_le_def)

lemma runTask_later:
  assumes "a < length (ts_tasks w)" "task_ok (ts_tasks w ! a)"
  shows "later (ts_tasks w ! a) (ts_tasks (runTask a out w) ! a)"
  using assms
  by (cases "tk_pc (ts_tasks w ! a)"; cases out; cases "tk_storage (ts_tasks w ! a)")
    (auto simp: runTask_def Let_def task_ok_def setDeadlineDefault_def set_task_def later_def status_le_def finished_def)

lemma act_later:
  assumes "tasks_ok w" "a < length (ts_tasks w)"
  shows "later (ts_tasks w ! a) (ts_tasks (task_act act w) ! a)"
proof (cases "\<exists>out. act = Run a out")
  case True
  then obtain out where "act = Run a out" by blast
  moreover have "task_ok (ts_tasks w ! a)" using assms by (simp add: tasks_ok_def)
  ultimately show ?thesis using runTask_later [OF assms(2)] assms(2) by simp
next
  case False
  then show ?thesis using act_moved [OF assms(2)] by (intro moved_later) simp
qed

lemma run_later:
  assumes "tasks_ok w" "a < length (ts_tasks w)"
  shows "later (ts_tasks w ! a) (ts_tasks (task_run as w) ! a)"
  using assms
proof (induction "as" arbitrary: w)
  case Nil
  then show ?case by (simp add: later_def status_le_def)
next
  case (Cons act as)
  have "a < length (ts_tasks (task_act act w))" using Cons.prems(2) act_length [of w act] by simp
  from later_trans [OF act_later [OF Cons.prems] Cons.IH [OF tasks_ok_act [OF Cons.prems(1)] this]]
  show ?case by simp
qed



section \<open>How long a result is kept\<close>

text \<open>The identifiers that were drawn, one for every task.\<close>

fun drawn :: "task_action list \<Rightarrow> string list" where
  "drawn [] = []"
| "drawn (New tid _ _ _ _ # acts) = tid # drawn acts"
| "drawn (_ # acts) = drawn acts"

text \<open>A request to stop a task that has not deleted it yet.\<close>

fun stopping :: "string \<Rightarrow> request \<Rightarrow> bool" where
  "stopping tid (S_load i) = (i = tid)"
| "stopping tid (S_running i _) = (i = tid)"
| "stopping tid (S_cancel i _) = (i = tid)"
| "stopping tid (S_delete i) = (i = tid)"
| "stopping _ _ = False"

text \<open>No reading of the clock that a request or the goroutine will write to the deadline of a task is before \<open>T\<close>.\<close>

fun read_after :: "nat \<Rightarrow> nat \<Rightarrow> request \<Rightarrow> bool" where
  "read_after a T (Q_deadline _ b m) = (b = a \<longrightarrow> T \<le> m)"
| "read_after _ _ _ = True"

definition readings_after :: "nat \<Rightarrow> nat \<Rightarrow> tasks \<Rightarrow> bool" where
  "readings_after a T w \<longleftrightarrow> (\<forall>q\<in>set (ts_requests w). read_after a T q) \<and>
     (case tk_pc (ts_tasks w ! a) of At_deadline m \<Rightarrow> T \<le> m | _ \<Rightarrow> True)"

text \<open>The collector found the deadline of a task over and deletes it next.\<close>

fun deleting :: "string \<Rightarrow> collector \<Rightarrow> bool" where
  "deleting tid (C_delete _ key) = (key = tid)"
| "deleting _ _ = False"

text \<open>An answer that tells the status and the output of a task, and its error if there is one.\<close>

definition tells :: "task \<Rightarrow> task_result \<Rightarrow> bool" where
  "tells t res \<longleftrightarrow> TaskStatus res = tk_status t \<and> TaskData res = tk_stdoutData t \<and>
     (tk_error t \<noteq> None \<longrightarrow> TaskErr res = tk_error t)"

text \<open>A request on the way to such an answer.\<close>

fun told :: "task \<Rightarrow> string \<Rightarrow> nat \<Rightarrow> request \<Rightarrow> bool" where
  "told t tid a (Q_failed i b) = (i = tid \<longrightarrow> b = a)"
| "told t tid a (Q_completed i b) = (i = tid \<longrightarrow> b = a)"
| "told t tid a (Q_now i b) = (i = tid \<longrightarrow> b = a)"
| "told t tid a (Q_deadline i b _) = (i = tid \<longrightarrow> b = a)"
| "told t tid a (Q_data i b) = (i = tid \<longrightarrow> b = a)"
| "told t tid a (Q_status i b d) = (i = tid \<longrightarrow> b = a \<and> d = tk_stdoutData t)"
| "told t tid a (Q_error i b d s) = (i = tid \<longrightarrow> b = a \<and> d = tk_stdoutData t \<and> s = tk_status t)"
| "told t tid a (Q_answer i res) = (i = tid \<longrightarrow> tells t res)"
| "told _ _ _ _ = True"

text \<open>
  The task at an address is finished, in the cache and not collected before \<open>T\<close> plus ten minutes, and the requests
  in \<open>R\<close> are told about it.
\<close>

definition kept :: "task \<Rightarrow> string \<Rightarrow> nat \<Rightarrow> nat \<Rightarrow> nat set \<Rightarrow> tasks \<Rightarrow> bool" where
  "kept t tid a T R w \<longleftrightarrow> taskLifeTmpCache w tid = Some a \<and> a < length (ts_tasks w) \<and> later t (ts_tasks w ! a) \<and>
     T \<le> ts_now w \<and> T + task_life \<le> tk_deadlineTime (ts_tasks w ! a) \<and> readings_after a T w \<and>
     (\<forall>q\<in>set (ts_requests w). \<not> stopping tid q) \<and> \<not> deleting tid (ts_collector w) \<and>
     (\<forall>b. collector_at (ts_collector w) = Some (tid, b) \<longrightarrow> b = a) \<and>
     (\<forall>i\<in>R. i < length (ts_requests w) \<longrightarrow> told t tid a (ts_requests w ! i))"

lemma ids_act: "map tk_id (ts_tasks (task_act act w)) = map tk_id (ts_tasks w) @ drawn [act]"
proof -
  have "map tk_id (ts_tasks (task_act act w)) = map tk_id (ts_tasks w)" if "length (ts_tasks (task_act act w)) = length (ts_tasks w)"
    using act_id [of _ w act] that by (auto intro!: nth_equalityI)
  then show ?thesis by (cases act) (auto simp: NewTask_def)
qed

lemma drawn_append [simp]: "drawn (as @ bs) = drawn as @ drawn bs"
  by (induction "as" rule: drawn.induct) simp_all

lemma ids_run: "map tk_id (ts_tasks (task_run as w)) = map tk_id (ts_tasks w) @ drawn as"
proof (induction "as" rule: rev_induct)
  case (snoc act as)
  then show ?case using ids_act [of act "task_run as w"] by simp
qed simp

lemma act_requests:
  assumes "\<forall>q\<in>set (ts_requests w). P q" "\<And>tid. act = Ask tid \<Longrightarrow> P (Q_load tid)" "\<And>tid. act = Ask_stop tid \<Longrightarrow> P (S_load tid)"
    and "\<And>r. act = Serve r \<Longrightarrow> r < length (ts_requests w) \<Longrightarrow> P (ts_requests (task_act act w) ! r)"
  shows "\<forall>q\<in>set (ts_requests (task_act act w)). P q"
proof (cases act)
  case (Serve r)
  have "P (ts_requests (task_act act w) ! i)" if i: "i < length (ts_requests (task_act act w))" for i
  proof (cases "i = r \<and> r < length (ts_requests w)")
    case True
    then show ?thesis using assms(4) [OF Serve] by simp
  next
    case False
    with Serve i have "ts_requests (task_act act w) ! i = ts_requests w ! i" "i < length (ts_requests w)"
      by (auto split: if_splits)
    then show ?thesis using assms(1) by simp
  qed
  then show ?thesis by (auto simp: in_set_conv_nth)
qed (use assms in \<open>auto simp: NewTask_def\<close>)

lemma serve_stopping:
  "r < length (ts_requests w) \<Longrightarrow> stopping tid (ts_requests (task_act (Serve r) w) ! r) \<Longrightarrow> stopping tid (ts_requests w ! r)"
  by (cases "ts_requests w ! r"; simp add: Result_def StopTask_def split: option.splits if_splits)

lemma serve_read_after:
  "r < length (ts_requests w) \<Longrightarrow> T \<le> ts_now w \<Longrightarrow> read_after a T (ts_requests w ! r) \<Longrightarrow>
   read_after a T (ts_requests (task_act (Serve r) w) ! r)"
  by (cases "ts_requests w ! r"; simp add: Result_def StopTask_def split: option.splits if_splits)

lemma act_readings:
  assumes "a < length (ts_tasks w)" "T \<le> ts_now w" "readings_after a T w"
  shows "readings_after a T (task_act act w)"
proof -
  have "\<forall>q\<in>set (ts_requests (task_act act w)). read_after a T q"
    using assms by (intro act_requests) (auto simp: readings_after_def intro: serve_read_after simp del: task_act.simps)
  moreover have "case tk_pc (ts_tasks (task_act act w) ! a) of At_deadline m \<Rightarrow> T \<le> m | _ \<Rightarrow> True"
  proof (cases "\<exists>out. act = Run a out")
    case True
    then obtain out where "act = Run a out" by blast
    with assms show ?thesis
      by (cases "tk_pc (ts_tasks w ! a)"; cases out; cases "tk_storage (ts_tasks w ! a)")
        (simp_all add: runTask_def Let_def setDeadlineDefault_def set_task_def readings_after_def)
  next
    case False
    then have "tk_pc (ts_tasks (task_act act w) ! a) = tk_pc (ts_tasks w ! a)"
      using act_moved [OF assms(1)] by (simp add: moved_def)
    then show ?thesis using assms(3) by (simp add: readings_after_def)
  qed
  ultimately show ?thesis by (simp add: readings_after_def)
qed

lemma runTask_deadline:
  assumes "a < length (ts_tasks w)" "readings_after a T w" "T + task_life \<le> tk_deadlineTime (ts_tasks w ! a)"
  shows "T + task_life \<le> tk_deadlineTime (ts_tasks (runTask a out w) ! a)"
  using assms
  by (cases "tk_pc (ts_tasks w ! a)"; cases out; cases "tk_storage (ts_tasks w ! a)")
    (auto simp: runTask_def Let_def setDeadlineDefault_def set_task_def readings_after_def)

lemma Result_deadline:
  assumes "a < length (ts_tasks w)" "r < length (ts_requests w)" "read_after a T (ts_requests w ! r)"
    "T + task_life \<le> tk_deadlineTime (ts_tasks w ! a)"
  shows "T + task_life \<le> tk_deadlineTime (ts_tasks (Result r w) ! a)"
  using assms by (cases "ts_requests w ! r") (auto simp: Result_def split: option.split)

lemma act_deadline:
  assumes "a < length (ts_tasks w)" "readings_after a T w" "T + task_life \<le> tk_deadlineTime (ts_tasks w ! a)"
  shows "T + task_life \<le> tk_deadlineTime (ts_tasks (task_act act w) ! a)"
proof (cases act)
  case (Run b out)
  with assms show ?thesis by (cases "a = b") (auto intro: runTask_deadline)
next
  case (Serve r)
  with assms StopTask_frame(6) [OF assms(1), of r] show ?thesis by (auto simp: readings_after_def intro!: Result_deadline)
qed (use assms in \<open>auto simp: NewTask_def nth_append cancel_context_def\<close>)


lemma act_spares:
  assumes "taskLifeTmpCache w tid = Some a" "tid \<notin> set (drawn [act])" "\<forall>q\<in>set (ts_requests w). \<not> stopping tid q"
    "\<not> deleting tid (ts_collector w)"
  shows "taskLifeTmpCache (task_act act w) tid = Some a"
proof (cases act)
  case (Serve r)
  show ?thesis
  proof (cases "r < length (ts_requests w)")
    case True
    then have "\<not> stopping tid (ts_requests w ! r)" using assms(3) by simp
    with Serve assms(1) True show ?thesis by (cases "ts_requests w ! r") (auto simp: StopTask_def split: option.split)
  qed (use Serve assms in simp)
next
  case (Collect n)
  with assms(1,4) show ?thesis by (cases "ts_collector w") (auto simp: tasksGarbageCollect_def split: option.split)
qed (use assms in \<open>auto simp: NewTask_def\<close>)

lemma collect_kept:
  assumes "taskLifeTmpCache w tid = Some a" "\<not> deleting tid (ts_collector w)"
    "\<forall>b. collector_at (ts_collector w) = Some (tid, b) \<longrightarrow> b = a" "collector_time (ts_collector w) \<le> tk_deadlineTime (ts_tasks w ! a)"
  shows "\<not> deleting tid (ts_collector (tasksGarbageCollect n w)) \<and>
    (\<forall>b. collector_at (ts_collector (tasksGarbageCollect n w)) = Some (tid, b) \<longrightarrow> b = a)"
  using assms by (cases "ts_collector w") (auto simp: tasksGarbageCollect_def split: option.split)

lemma Result_told:
  assumes "r < length (ts_requests w)" "taskLifeTmpCache w tid = Some a" "finished t" "later t (ts_tasks w ! a)"
    "told t tid a (ts_requests w ! r)"
  shows "told t tid a (ts_requests (Result r w) ! r)"
  using assms by (cases "ts_requests w ! r")
    (auto simp: Result_def later_def finished_def tells_def split: option.split)

lemma StopTask_told:
  "r < length (ts_requests w) \<Longrightarrow> told t tid a (ts_requests w ! r) \<Longrightarrow> told t tid a (ts_requests (StopTask r w) ! r)"
  by (cases "ts_requests w ! r") (simp_all add: StopTask_def split: option.split)

lemma act_told:
  assumes "taskLifeTmpCache w tid = Some a" "finished t" "later t (ts_tasks w ! a)"
    and "i < length (ts_requests w) \<Longrightarrow> told t tid a (ts_requests w ! i)" "i < length (ts_requests (task_act act w))"
  shows "told t tid a (ts_requests (task_act act w) ! i)"
proof (cases act)
  case (Serve r)
  show ?thesis
  proof (cases "i = r")
    case True
    with Serve assms show ?thesis by (auto intro: Result_told StopTask_told split: if_splits)
  qed (use Serve assms(4,5) in \<open>auto split: if_splits\<close>)
next
  case (Ask i)
  with assms(4,5) show ?thesis by (auto simp: nth_append less_Suc_eq)
next
  case (Ask_stop i)
  with assms(4,5) show ?thesis by (auto simp: nth_append less_Suc_eq)
qed (use assms(4,5) in \<open>auto simp: NewTask_def split: if_splits\<close>)

lemma kept_act:
  assumes "tasks_ok w" "finished t" "kept t tid a T R w" "tid \<notin> set (drawn [act])" "act \<noteq> Ask_stop tid" "ts_now w \<le> T + task_life"
  shows "kept t tid a T R (task_act act w)"
proof -
  have k: "taskLifeTmpCache w tid = Some a" "a < length (ts_tasks w)" "later t (ts_tasks w ! a)" "T \<le> ts_now w"
    "T + task_life \<le> tk_deadlineTime (ts_tasks w ! a)" "readings_after a T w" "\<forall>q\<in>set (ts_requests w). \<not> stopping tid q"
    "\<not> deleting tid (ts_collector w)" "\<forall>b. collector_at (ts_collector w) = Some (tid, b) \<longrightarrow> b = a"
    "\<forall>i\<in>R. i < length (ts_requests w) \<longrightarrow> told t tid a (ts_requests w ! i)"
    using assms(3) by (simp_all add: kept_def)
  have col: "collector_time (ts_collector w) \<le> tk_deadlineTime (ts_tasks w ! a)"
    using assms(1,6) k(5) by (simp add: tasks_ok_def)
  have "\<forall>q\<in>set (ts_requests (task_act act w)). \<not> stopping tid q"
    using k(7) assms(5) by (intro act_requests) (auto dest: serve_stopping simp del: task_act.simps)
  moreover have "\<not> deleting tid (ts_collector (task_act act w)) \<and>
      (\<forall>b. collector_at (ts_collector (task_act act w)) = Some (tid, b) \<longrightarrow> b = a)"
  proof (cases "\<exists>n. act = Collect n")
    case True
    then show ?thesis using collect_kept [OF k(1,8,9) col] by auto
  next
    case False
    then show ?thesis using k(8,9) act_collector [of act w] by simp
  qed
  moreover have "\<forall>i\<in>R. i < length (ts_requests (task_act act w)) \<longrightarrow> told t tid a (ts_requests (task_act act w) ! i)"
    using act_told [OF k(1) assms(2) k(3)] k(10) by blast
  moreover have "T \<le> ts_now (task_act act w)" using k(4) act_now [of w act] by simp
  moreover have "a < length (ts_tasks (task_act act w))" using k(2) act_length [of w act] by simp
  ultimately show ?thesis
    using act_spares [OF k(1) assms(4) k(7,8)] later_trans [OF k(3) act_later [OF assms(1) k(2)]]
      act_deadline [OF k(2,6,5)] act_readings [OF k(2,4,6)]
    by (simp add: kept_def)
qed

lemma run_now: "ts_now w \<le> ts_now (task_run as w)"
proof (induction "as" arbitrary: w)
  case (Cons act as)
  show ?case using le_trans [OF act_now Cons.IH] by simp
qed simp

lemma kept_run:
  assumes "tasks_ok w" "finished t" "kept t tid a T R w" "tid \<notin> set (drawn as)" "Ask_stop tid \<notin> set as"
    "ts_now (task_run as w) \<le> T + task_life"
  shows "kept t tid a T R (task_run as w)"
  using assms
proof (induction "as" arbitrary: w)
  case (Cons act as)
  have "ts_now w \<le> T + task_life" using run_now [of w "act # as"] Cons.prems(6) by simp
  moreover have "tid \<notin> set (drawn [act])" "tid \<notin> set (drawn as)" using Cons.prems(4) drawn_append [of "[act]" "as"] by auto
  ultimately show ?case
    using Cons.prems Cons.IH [OF tasks_ok_act [OF Cons.prems(1)] Cons.prems(2) kept_act [OF Cons.prems(1-3)]] by auto
qed simp

text \<open>The state after a request renewed the deadline of a finished task.\<close>

lemma kept_begin:
  assumes "w = task_run as tasks_init" "distinct (drawn as)" "r < length (ts_requests w)" "ts_requests w ! r = Q_deadline tid a n"
    and "taskLifeTmpCache w tid = Some a" "readings_after a T w" "\<forall>q\<in>set (ts_requests w). \<not> stopping tid q"
    and "\<not> deleting tid (ts_collector w)" "T \<le> ts_now w"
  shows "kept (ts_tasks w ! a) tid a T ({r} \<union> {length (ts_requests w)..}) (task_act (Serve r) w)"
proof -
  have ok: "tasks_ok w" using tasks_ok_run [OF tasks_ok_init] assms(1) by simp
  then have a: "a < length (ts_tasks w)" "tk_id (ts_tasks w ! a) = tid" using assms(5) by (simp_all add: tasks_ok_def)
  have dist: "distinct (map tk_id (ts_tasks w))" using assms(1,2) ids_run [of "as" tasks_init] by (simp add: tasks_init_def)
  have "b = a" if "collector_at (ts_collector w) = Some (tid, b)" for b
    using ok that a dist by (auto simp: tasks_ok_def distinct_conv_nth)
  moreover have "T \<le> n" using assms(3,4,6) by (auto simp: readings_after_def dest!: nth_mem)
  ultimately show ?thesis
    using a assms(3-9) act_readings [OF a(1) assms(9,6), of "Serve r"] set_update_subset_insert [of "ts_requests w" r "Q_data tid a"]
    by (auto simp: kept_def Result_def later_def status_le_def)
qed

text \<open>A request that renews a deadline saw the task finished, and the clock it read is not ahead.\<close>

fun renewing :: "tasks \<Rightarrow> request \<Rightarrow> bool" where
  "renewing w (Q_now _ a) = (a < length (ts_tasks w) \<and> finished (ts_tasks w ! a))"
| "renewing w (Q_deadline _ a n) = (a < length (ts_tasks w) \<and> finished (ts_tasks w ! a) \<and> n \<le> ts_now w)"
| "renewing _ _ = True"

lemma act_finished:
  assumes "tasks_ok w" "a < length (ts_tasks w)" "finished (ts_tasks w ! a)"
  shows "a < length (ts_tasks (task_act act w)) \<and> finished (ts_tasks (task_act act w) ! a)"
  using act_later [OF assms(1,2), of act] act_length [of w act] assms(2,3) by (auto simp: later_def finished_def)

lemma act_renewing:
  assumes "tasks_ok w" "renewing w q"
  shows "renewing (task_act act w) q"
  using assms act_finished [OF assms(1), of _ act] act_now [of w act] by (cases q) auto

lemma serve_renewing:
  assumes "tasks_ok w" "r < length (ts_requests w)" "renewing w (ts_requests w ! r)"
  shows "renewing (task_act (Serve r) w) (ts_requests (task_act (Serve r) w) ! r)"
proof -
  have "a < length (ts_tasks w)" if "request_addr (ts_requests w ! r) = Some a" for a
    using assms(1,2) that by (simp add: tasks_ok_def)
  with assms(2,3) show ?thesis
    by (cases "ts_requests w ! r") (auto simp: Result_def StopTask_def finished_def split: option.split)
qed

lemma run_renewing: "\<forall>q\<in>set (ts_requests (task_run as tasks_init)). renewing (task_run as tasks_init) q"
proof (induction "as" rule: rev_induct)
  case Nil
  then show ?case by (simp add: tasks_init_def)
next
  case (snoc act as)
  let ?w = "task_run as tasks_init"
  have ok: "tasks_ok ?w" by (rule tasks_ok_run [OF tasks_ok_init])
  have "\<forall>q\<in>set (ts_requests (task_act act ?w)). renewing (task_act act ?w) q"
  proof (rule act_requests)
    show "\<forall>q\<in>set (ts_requests ?w). renewing (task_act act ?w) q" using snoc act_renewing [OF ok] by blast
    show "renewing (task_act act ?w) (ts_requests (task_act act ?w) ! r)" if "act = Serve r" "r < length (ts_requests ?w)" for r
      using serve_renewing [OF ok that(2)] snoc that by (simp del: task_act.simps)
  qed simp_all
  then show ?case by simp
qed


subsection \<open>Examples\<close>

text \<open>A task that writes its result, and a request for it up to the renewal of the deadline.\<close>

definition finish_run :: "task_action list" where
  "finish_run = [New ''t1'' ''perf'' 60 TaskStorageStdout [], Run 0 (Exits ''[]''), Run 0 (Exits ''[]''), Run 0 (Exits ''[]''),
     Run 0 (Exits ''[]''), Run 0 (Exits ''[]''), Run 0 (Exits ''[]'')]"

definition ask_run :: "task_action list" where
  "ask_run = finish_run @ [Ask ''t1'', Serve 0, Serve 0, Serve 0, Serve 0]"

lemmas task_eval = NewTask_def runTask_def Result_def StopTask_def tasksGarbageCollect_def set_task_def
  set_request_def setDeadlineDefault_def Let_def

definition finished_task :: task where
  "finished_task = \<lparr>tk_id = ''t1'', tk_execBinary = ''perf'', tk_execArgs = [], tk_stdoutData = ''[]'', tk_status = StatusCompleted,
     tk_error = None, tk_storage = TaskStorageStdout, tk_context = None, tk_expires = 60, tk_deadlineTime = task_life, tk_pc = Ended\<rparr>"

lemma finish_state:
  "task_run finish_run tasks_init = \<lparr>ts_tasks = [finished_task], taskLifeTmpCache = [''t1'' \<mapsto> 0], ts_now = 0, ts_saved = [],
     ts_requests = [], ts_collector = C_wait\<rparr>"
  by (simp add: finish_run_def tasks_init_def task_eval finished_task_def)

lemma ask_state:
  "task_run ask_run tasks_init = \<lparr>ts_tasks = [finished_task], taskLifeTmpCache = [''t1'' \<mapsto> 0], ts_now = 0, ts_saved = [],
     ts_requests = [Q_deadline ''t1'' 0 0], ts_collector = C_wait\<rparr>"
  by (simp add: ask_run_def task_run_append finish_state task_eval finished_task_def)


text \<open>The deadline is renewed, five minutes later the collector visits the task and a second request comes.\<close>

definition keep_run :: "task_action list" where
  "keep_run = [Serve 0, Serve 0, Serve 0, Tick 300000000000, Collect None, Collect (Some ''t1''), Collect None, Collect None,
     Ask ''t1'', Serve 1, Serve 1, Serve 1, Serve 1, Serve 1, Serve 1, Serve 1, Serve 1]"

lemma keep_state:
  "ts_requests (task_run (Serve 0 # keep_run) (task_run ask_run tasks_init)) =
     [Q_answer ''t1'' \<lparr>TaskStatus = StatusCompleted, TaskData = ''[]'', TaskErr = None\<rparr>,
      Q_answer ''t1'' \<lparr>TaskStatus = StatusCompleted, TaskData = ''[]'', TaskErr = None\<rparr>]"
  "ts_now (task_run (Serve 0 # keep_run) (task_run ask_run tasks_init)) = 300000000000"
  by (simp_all add: keep_run_def ask_state task_eval finished_task_def task_life_def)


section \<open>Races\<close>

definition start_run :: "task_action list" where
  "start_run = [New ''t1'' ''perf'' 60 TaskStorageStdout [], Run 0 (Exits ''[]''), Run 0 (Exits ''[]'')]"

lemma start_state:
  "task_run start_run tasks_init = \<lparr>ts_tasks = [finished_task\<lparr>tk_stdoutData := [], tk_status := StatusRunning, tk_deadlineTime := 0,
     tk_pc := At_store ''[]''\<rparr>], taskLifeTmpCache = [''t1'' \<mapsto> 0], ts_now = 0, ts_saved = [], ts_requests = [], ts_collector = C_wait\<rparr>"
  by (simp add: start_run_def tasks_init_def task_eval finished_task_def)

text \<open>
  The status of a task is set before its deadline: if the collector looks in between, the result is deleted
  before anybody could ask for it.
\<close>

lemma result_lost:
  "ts_requests (task_run [Run 0 (Exits ''[]''), Run 0 (Exits ''[]''), Tick 1, Collect None, Collect (Some ''t1''), Collect None,
     Collect None, Collect None, Run 0 (Exits ''[]''), Run 0 (Exits ''[]''), Ask ''t1'', Serve 0] (task_run start_run tasks_init)) =
   [Q_answer ''t1'' \<lparr>TaskStatus = StatusNotExist, TaskData = [], TaskErr = Some ErrTaskNotFound\<rparr>]"
  by (simp add: start_state task_eval finished_task_def)

text \<open>
  The collector tests a deadline and deletes in two accesses: a request in between renews the deadline and is answered,
  and the next one is told that there is no such task.
\<close>

lemma renewed_and_deleted:
  "ts_requests (task_run [Tick (task_life + 1), Collect None, Collect (Some ''t1''), Collect None, Collect None,
     Serve 0, Serve 0, Serve 0, Serve 0, Collect None, Ask ''t1'', Serve 1] (task_run ask_run tasks_init)) =
   [Q_answer ''t1'' \<lparr>TaskStatus = StatusCompleted, TaskData = ''[]'', TaskErr = None\<rparr>,
    Q_answer ''t1'' \<lparr>TaskStatus = StatusNotExist, TaskData = [], TaskErr = Some ErrTaskNotFound\<rparr>]"
  by (simp add: ask_state task_eval finished_task_def)

text \<open>\<open>Result\<close> reads the output before the status: it answers that a task is completed, without its output.\<close>

lemma completed_without_data:
  "ts_requests (task_run [Ask ''t1'', Serve 0, Serve 0, Serve 0, Serve 0, Run 0 (Exits ''[]''), Run 0 (Exits ''[]''),
     Serve 0, Serve 0] (task_run start_run tasks_init)) =
   [Q_answer ''t1'' \<lparr>TaskStatus = StatusCompleted, TaskData = [], TaskErr = None\<rparr>]"
  by (simp add: start_state task_eval finished_task_def)

text \<open>The status is set before the error: the handler reads an error that is not there yet.\<close>

lemma failed_without_error:
  "\<exists>res. ts_requests (task_run [New ''t1'' ''perf'' 60 TaskStorageStdout [], Run 0 (Fails ''exit status 1'' []),
       Run 0 (Fails ''exit status 1'' []), Ask ''t1'', Serve 0, Serve 0, Serve 0, Serve 0, Serve 0, Serve 0, Serve 0] tasks_init) =
     [Q_answer ''t1'' res] \<and> TaskResult_handler ''t1'' res = None"
  by (simp add: tasks_init_def task_eval TaskResult_handler_def)

text \<open>A task that is stopped before its goroutine begins is forgotten, not cancelled: its program runs.\<close>

lemma stopped_pending_runs:
  "\<exists>t. task_run [New ''t1'' ''perf'' 60 TaskStorageStdout [], Ask_stop ''t1'', Serve 0, Serve 0, Serve 0, Run 0 (Exits [])] tasks_init =
     \<lparr>ts_tasks = [t], taskLifeTmpCache = Map.empty, ts_now = 0, ts_saved = [], ts_requests = [S_answer ''t1'' None],
      ts_collector = C_wait\<rparr> \<and> tk_pc t = In_command \<and> tk_status t = StatusRunning \<and> tk_context t = None"
  by (simp add: tasks_init_def task_eval)

text \<open>As many tasks as the limit already run, and one more is accepted.\<close>

lemma one_task_too_many:
  "RunningTaskCount keys w = n \<Longrightarrow> snd (NewTask_handler n keys tid name timeout ty args w) = Some tid"
  by (simp add: NewTask_handler_def Let_def)

end
