(* ===== verification/Spec2Isabelle.thy ===== *)
theory Spec2Isabelle
  imports Ratelimit_Smp Softirq Dropwatch Netrecvlat Cgroup Host_Events Counter_Smp Wire Metrics
    Drop_Reader Oom_Reader Net_Reader Event_Readers Tracing Tasks
begin

text \<open>
  Verification library for the kernel-side programs of HUATUO (\<^verbatim>\<open>src/bpf\<close>) and for the
  parts of the agent that take their results over.

  \<^bold>\<open>The program.\<close> HUATUO attaches small programs to tracepoints and kprobes of a Linux kernel.
  Each program reads the kernel's structures, keeps state in maps that it shares with the
  agent, and sends events to it through perf buffers. Most of the programs that send events
  pass them through a rate limiter (\<^verbatim>\<open>bpf_ratelimit.h\<close>); those that measure the duration of a
  kernel function share a map of sections in flight (\<^verbatim>\<open>bpf_func_trace.h\<close>). The agent, written
  in Go, decodes the events and map values with \<^verbatim>\<open>encoding/binary\<close> and attributes them to
  containers through a table of cgroup subsystem states, itself fed by events of two programs.

  \<^bold>\<open>How a program is modelled.\<close> Every handler is a function from the arguments of its hook and
  the state to the new state. The state is a record of the maps and of the list of events
  sent; a run is \<open>foldl step s hooks\<close> over any list of hooks. Machine integers are words of
  their width. What the kernel provides is a parameter:
  \<^item> \<open>bpf_env\<close> (theory \<open>Bpf_Runtime\<close>) holds the memory that \<open>bpf_probe_read\<close> sees, the
    offsets that CO-RE relocation inserts, the clock, the current task and CPU. A handler that
    reads the clock twice takes the readings 0 and 1 of its environment.
  \<^item> \<open>map_ops\<close> holds the operations of a BPF map. The locales \<open>bpf_map\<close>, \<open>bpf_hash_map\<close> and
    \<open>bpf_array_map\<close> state their documented behaviour, capacity and error codes included, and
    carry the lemmas the clients use. They are interpreted on an association list with a
    capacity (\<open>hash_ops\<close>) and on an array (\<open>array_ops\<close>), on which all witnesses run. Per-CPU
    maps are functions from the CPU to a map.

  \<^bold>\<open>The theories\<close>, each with the files under \<^verbatim>\<open>src/\<close> it models.
  \<^item> \<open>Bpf_Prelude\<close>: words, little-endian bytes, bit fields and histograms;
    \<^verbatim>\<open>bpf/include/bpf_common.h\<close>.
  \<^item> \<open>C_Layout\<close>, \<open>Vmlinux_Task\<close>, \<open>Vmlinux_Net\<close>, \<open>Vmlinux_Cgroup\<close>, \<open>Vmlinux_Trace\<close>,
    \<open>Vmlinux_Env\<close>: the layout rules of C on x86-64 as functions \<open>sizeof\<close>, \<open>alignof\<close>,
    \<open>offsetof\<close>, and the structures of \<^verbatim>\<open>bpf/include/vmlinux.h\<close> the programs access, member by
    member. The layout is sound (C37) and a CO-RE read returns the bytes of the member (C12).
  \<^item> \<open>Bpf_Ratelimit\<close>, \<open>Ratelimit_Smp\<close>: \<^verbatim>\<open>bpf/include/bpf_ratelimit.h\<close>. Bounds, exact answers,
    accounting, recovery (C1, C2, C36), the limiter in a map (C4), and one transition per
    memory access for any number of CPUs: the overshoot of the burst is bounded (C7, C8).
  \<^item> \<open>Func_Trace\<close>, \<open>Memory\<close>: \<^verbatim>\<open>bpf/include/bpf_func_trace.h\<close>,
    \<^verbatim>\<open>memory_free_compact.c\<close> (C10), \<^verbatim>\<open>memory_reclaim.c\<close> (C11), \<^verbatim>\<open>memory_reclaim_events.c\<close> (C13).
    The locale of \<open>Func_Trace\<close> is the contract the two clients rely on.
  \<^item> \<open>Runqlat\<close>: \<^verbatim>\<open>runqlat_tracing.c\<close>. Conservation of the counters (C14), what one wait adds
    (C15), the full map (C16).
  \<^item> \<open>Softirq\<close>: \<^verbatim>\<open>softirq.c\<close> (C17) and the state machine of \<^verbatim>\<open>softirq_tracing.c\<close> (C18).
  \<^item> \<open>Skb\<close>, \<open>Dropwatch\<close>, \<open>Netrecvlat\<close>: \<^verbatim>\<open>vmlinux_net.h\<close>, \<^verbatim>\<open>dropwatch.c\<close> (C19--C22),
    \<^verbatim>\<open>netrecvlat.c\<close> (C23, C24), \<^verbatim>\<open>netdev_hw.c\<close>.
  \<^item> \<open>Cgroup\<close>: \<^verbatim>\<open>cgroup_css_events.c\<close>, \<^verbatim>\<open>cgroup_css_gather.c\<close> and the table of
    \<^verbatim>\<open>internal/pod/container_css_default.go\<close> (C26--C28).
  \<^item> \<open>Host_Events\<close>: \<^verbatim>\<open>oom.c\<close> (C29), \<^verbatim>\<open>softlockup.c\<close>, \<^verbatim>\<open>hungtask.c\<close>, \<^verbatim>\<open>lacp.c\<close>; the locale
    \<open>map_limiter\<close> is the contract of the limiter in a map.
  \<^item> \<open>Perf\<close>: \<^verbatim>\<open>perf.c\<close>. \<open>Counter_Smp\<close>: the two ways the programs create and increment a
    counter, access by access for any number of CPUs (C33).
  \<^item> \<open>Wire\<close>: the C structures handed to user space against the Go structures that decode them
    (C35).
  \<^item> \<open>Metrics\<close>: \<^verbatim>\<open>DumpMap\<close> of \<^verbatim>\<open>internal/bpf/bpf_default.go\<close> over a handle of the ebpf package, whose
    documented behaviour is the locale \<open>ebpf_cursor\<close> (C38), and the collectors
    \<^verbatim>\<open>core/metrics/memory_reclaim.go\<close> (C39, from the hooks in the kernel to the metric) and
    \<^verbatim>\<open>core/metrics/runqlat.go\<close> (C40).
  \<^item> \<open>Symbols\<close>: \<^verbatim>\<open>internal/symbol/ksymbols.go\<close> (C3) and \<^verbatim>\<open>usymbols.go\<close> (C6); the locale \<open>go_sort\<close> is
    what the package sort promises. \<open>Flamegraph\<close>: \<^verbatim>\<open>internal/flamegraph/flamegraph.go\<close>, from the rows of a
    profile to a tree on the heap (C30) and to its listing (C25). \<open>Perf_Report\<close>: \<open>parsedata\<close> of
    \<^verbatim>\<open>cmd/perf/parsedata.go\<close>, which ties \<open>Perf\<close>, \<open>Symbols\<close> and \<open>Flamegraph\<close> together: from the clock
    ticks in the kernel to the samples of the report (C31).
  \<^item> \<open>Tracing\<close>: \<^verbatim>\<open>pkg/tracing/tracing.go\<close>, \<^verbatim>\<open>manager.go\<close>, \<^verbatim>\<open>register_event.go\<close>: the goroutines of the
    tracers and the calls that start and stop them, as a step relation (C9, C32). \<open>Tasks\<close>:
    \<^verbatim>\<open>pkg/tracing/task.go\<close> and \<^verbatim>\<open>internal/services/task.go\<close>: goroutines, requests and the collector of old
    tasks interleaved write by write (C5, C34).

  \<^bold>\<open>Shape of the results.\<close> The event programs are shown equal to a specification over the
  list of hooks: \<open>let_through clk r hs\<close> is the sublist of \<open>hs\<close> the limiter \<open>r\<close> lets through, and
  the events are the reports of the relevant hooks among them. The counting programs are shown
  equal to a count over the hooks or to an abstract machine. The concurrent models are
  inductive step relations with invariants over all interleavings, and theorems that tie them
  to the sequential functions.

  \<^bold>\<open>Bounds and termination.\<close> The programs have no loops, so all their models are total without
  fuel. The loop of \<open>DumpMap\<close> counts to the capacity of the map. \<open>rl_solo\<close> runs the accesses of
  one CPU for a given number of steps; eleven are enough (\<open>rl_solo_ratelimited\<close>). The binary searches end by
  a measure; the walk over the tree of a flame graph is a \<open>partial_function\<close>, shown to end on the
  trees \<open>LevelsToTree\<close> builds (C25). Clock readings are nanoseconds since the boot; theorems that need the limiter to have
  started assume readings of at least one second.

  \<^bold>\<open>Not modelled.\<close> The build of \<^verbatim>\<open>runqlat_tracing.c\<close> keyed by pid namespaces, which its first
  lines switch off; the rest of \<^verbatim>\<open>vmlinux.h\<close>, which no program uses; stack traces, which are
  opaque results of helpers; a memory model weaker than sequential consistency. Of the agent:
  loading and attaching programs, reading files, netlink and HTTP, storage and configuration,
  which are input and output around third-party packages; the merging of stacks into a profile, which
  the package pyroscope does.
\<close>

end
